theory Spec2Isabelle
  imports Complex_Main
begin

section \<open>GloriaFood platform: order ingestion and menu synchronisation\<close>

text \<open>
  A shallow embedding of \<^verbatim>\<open>src/services/orders.ts\<close> (class OrdersService),
  \<^verbatim>\<open>src/services/menu.ts\<close> (class MenuService),
  \<^verbatim>\<open>src/services/gloriafood-client.ts\<close> (validateWebhookRequest), the
  \<^verbatim>\<open>/webhook/orders\<close> route of \<^verbatim>\<open>src/index.ts\<close> and the tables of
  \<^verbatim>\<open>schema/migrations.sql\<close>.

  The D1 database is a record of tables; a table is the list of its rows in rowid order
  together with the AUTOINCREMENT counter of \<^verbatim>\<open>sqlite_sequence\<close>. The KV namespace
  is a map from keys to cached values. Every method is a function from the store to an
  outcome and the store it leaves behind: an exception of the source is the outcome
  \<open>Inl\<close>, and the store returned with it is the store at the moment of the throw, since
  the source opens no transaction.

  Columns that hold \<^verbatim>\<open>CURRENT_TIMESTAMP\<close> are left out (the model has no clock).
  Columns that every writer of the repository fills are modelled without NULL.
\<close>

subsection \<open>Payloads (types.ts)\<close>

text \<open>
  An optional field of a payload that the code passes on as it is: left out of the JSON
  (\<^verbatim>\<open>undefined\<close>), \<^verbatim>\<open>null\<close>, or given. The optional fields that the code only
  tests for truthiness are options: \<open>None\<close> is undefined or null there.
\<close>

datatype 'a js = Undefined | Null | Val 'a

datatype order_type = Pickup | Delivery

record OrderTax =
  tax_type :: string
  tax_value :: real
  tax_rate :: real

record AddressParts =
  ap_street :: "string option"
  ap_bloc :: "string option"
  ap_floor :: "string option"
  ap_apartment :: "string option"
  ap_intercom :: "string option"
  ap_zipcode :: "string option"
  ap_city :: "string option"
  ap_full_address :: "string option"

record OrderItemOption =
  oio_id :: int
  oio_name :: string
  oio_price :: real
  oio_group_name :: "string option"
  oio_quantity :: int
  oio_type :: string
  oio_type_id :: "int option"
  oio_kitchen_internal_name :: "string option"

record OrderItem =
  oi_id :: int
  oi_name :: string
  oi_total_item_price :: real
  oi_price :: real
  oi_quantity :: int
  oi_instructions :: "string option"
  oi_type :: string
  oi_type_id :: "int option"
  oi_coupon :: "string option"
  oi_options :: "OrderItemOption list option"

record BillingDetails =
  bd_type :: "string option"
  bd_company_name :: "string option"
  bd_person_name :: "string option"
  bd_document_number :: "string option"
  bd_address :: "string option"
  bd_city :: "string option"
  bd_country_code :: "string option"

record GloriaFoodOrder =
  o_id :: int
  o_status :: string
  o_type :: order_type
  o_restaurant_key :: string
  o_restaurant_id :: int
  o_restaurant_name :: string
  o_restaurant_timezone :: "string option"
  o_pos_system_id :: "int option"
  o_currency :: string
  o_total_price :: real
  o_tax_list :: "OrderTax list option"
  o_coupons :: "string list option"
  o_pickup_payment :: "string option"
  o_delivery_payment :: "string option"
  o_payment_status :: "string option"
  o_items :: "OrderItem list"
  o_client_id :: "int option"
  o_user_id :: "int option"
  o_client_first_name :: "string js"
  o_client_last_name :: "string js"
  o_client_email :: "string js"
  o_client_phone :: "string js"
  o_client_address :: "string js"
  o_client_address_parts :: "AddressParts option"
  o_client_order_count :: "int option"
  o_client_marketing_consent :: "bool option"
  o_latitude :: "string option"
  o_longitude :: "string option"
  o_delivery_zone_name :: "string option"
  o_billing_details :: "BillingDetails option"

record GloriaFoodOrderResponse =
  r_count :: int
  r_orders :: "GloriaFoodOrder list"

record MenuOption =
  mo_id :: int
  mo_name :: string
  mo_price :: real
  mo_default :: bool
  mo_kitchen_internal_name :: "string option"

record MenuOptionGroup =
  mg_id :: int
  mg_name :: string
  mg_required :: bool
  mg_allow_quantity :: bool
  mg_force_min :: int
  mg_force_max :: int
  mg_options :: "MenuOption list"

record MenuItemSize =
  ms_id :: int
  ms_name :: string
  ms_price :: real
  ms_default :: bool
  ms_groups :: "MenuOptionGroup list option"

record MenuItem =
  mi_id :: int
  mi_name :: string
  mi_description :: "string option"
  mi_price :: real
  mi_active :: bool
  mi_tags :: "string list option"
  mi_sizes :: "MenuItemSize list option"
  mi_groups :: "MenuOptionGroup list option"
  mi_kitchen_internal_name :: "string option"
  mi_order_types :: "string list option"
  mi_allergens :: "(int \<times> string) list option"
  mi_nutritional_values :: "(int \<times> string) list option"

record MenuCategory =
  mc_id :: int
  mc_name :: string
  mc_description :: "string option"
  mc_active :: bool
  mc_items :: "MenuItem list"
  mc_groups :: "MenuOptionGroup list option"

record GloriaFoodMenuResponse =
  m_id :: int
  m_restaurant_id :: int
  m_active :: bool
  m_currency :: string
  m_categories :: "MenuCategory list"

text \<open>
  The payload records keep the fields that the two services read for a decision or store
  in a column of their own. GloriaFoodOrder's remaining scalar fields (source,
  sub_total_price, tax_value, instructions, fulfill_at, ...) are copied to the order row
  verbatim and are represented by the column \<open>raw_payload\<close>, which holds the payload.
  The fields of \<^verbatim>\<open>extras\<close> of a menu item and of a menu option are flattened into
  the item and the option.
\<close>

subsection \<open>Rows (schema/migrations.sql)\<close>

record restaurant_row =
  rs_id :: nat
  rs_gloriafood_id :: int
  rs_restaurant_key :: string
  rs_name :: string
  rs_timezone :: string
  rs_currency :: string

record client_row =
  cl_id :: nat
  cl_gloriafood_id :: int
  cl_first_name :: "string option"
  cl_last_name :: "string option"
  cl_email :: "string option"
  cl_phone :: "string option"
  cl_order_count :: int
  cl_marketing_consent :: bool

record client_address_row =
  ca_id :: nat
  ca_client_id :: nat
  ca_full_address :: "string option"
  ca_street :: "string option"
  ca_city :: "string option"
  ca_zipcode :: "string option"
  ca_bloc :: "string option"
  ca_floor :: "string option"
  ca_apartment :: "string option"
  ca_intercom :: "string option"
  ca_latitude :: "string option"
  ca_longitude :: "string option"
  ca_delivery_zone :: "string option"

record order_row =
  or_id :: nat
  or_gloriafood_id :: int
  or_pos_system_id :: int
  or_restaurant_id :: nat
  or_client_id :: "nat option"
  or_type :: order_type
  or_payment_method :: "string option"
  or_payment_status :: string
  or_delivery_fee :: real
  or_tip_amount :: real
  or_raw_payload :: GloriaFoodOrder

record order_item_row =
  oir_id :: nat
  oir_order_id :: nat
  oir_gloriafood_id :: int
  oir_name :: string
  oir_type :: string
  oir_type_id :: "int option"
  oir_quantity :: int
  oir_price :: real
  oir_total_price :: real
  oir_instructions :: "string option"
  oir_coupon :: "string option"

record order_item_option_row =
  oor_id :: nat
  oor_order_item_id :: nat
  oor_gloriafood_id :: int
  oor_name :: string
  oor_group_name :: "string option"
  oor_type :: string
  oor_type_id :: "int option"
  oor_quantity :: int
  oor_price :: real
  oor_kitchen_internal_name :: "string option"

record order_coupon_row =
  ocr_id :: nat
  ocr_order_id :: nat
  ocr_coupon_code :: string

record order_tax_row =
  otr_id :: nat
  otr_order_id :: nat
  otr_type :: string
  otr_rate :: real
  otr_value :: real

record billing_row =
  br_id :: nat
  br_order_id :: nat
  br_type :: "string option"
  br_company_name :: "string option"
  br_person_name :: "string option"
  br_document_number :: "string option"
  br_address :: "string option"
  br_city :: "string option"
  br_country_code :: "string option"

record menu_row =
  mn_id :: nat
  mn_gloriafood_id :: int
  mn_restaurant_id :: int
  mn_currency :: string
  mn_active :: bool

record category_row =
  cr_id :: nat
  cr_menu_id :: nat
  cr_gloriafood_id :: int
  cr_name :: string
  cr_description :: "string option"
  cr_active :: bool
  cr_sort_order :: nat

record item_row =
  ir_id :: nat
  ir_category_id :: nat
  ir_gloriafood_id :: int
  ir_name :: string
  ir_description :: "string option"
  ir_price :: real
  ir_active :: bool
  ir_sort_order :: nat
  ir_kitchen_internal_name :: "string option"
  ir_order_types :: "string list option"
  ir_tags :: "string list option"
  ir_allergens :: "(int \<times> string) list option"
  ir_nutritional_values :: "(int \<times> string) list option"

record size_row =
  sr_id :: nat
  sr_item_id :: nat
  sr_gloriafood_id :: int
  sr_name :: string
  sr_price :: real
  sr_is_default :: bool
  sr_sort_order :: nat

record option_group_row =
  gr_id :: nat
  gr_gloriafood_id :: int
  gr_name :: string
  gr_required :: bool
  gr_allow_quantity :: bool
  gr_force_min :: int
  gr_force_max :: int

record item_option_group_row =
  ar_id :: nat
  ar_item_id :: "nat option"
  ar_size_id :: "nat option"
  ar_option_group_id :: nat

record option_row =
  pr_id :: nat
  pr_option_group_id :: nat
  pr_gloriafood_id :: int
  pr_name :: string
  pr_price :: real
  pr_is_default :: bool
  pr_kitchen_internal_name :: "string option"
  pr_sort_order :: nat

record sync_stats =
  st_categories :: nat
  st_items :: nat
  st_sizes :: nat
  st_optionGroups :: nat
  st_options :: nat

record order_result =
  po_orderId :: nat
  po_isNew :: bool

record batch_result =
  res_gloriafood_id :: int
  res_internal_id :: nat
  res_is_new :: bool

text \<open>The JSON text of the column \<open>payload\<close> of webhook_logs, by the shapes the code writes.\<close>

datatype log_payload =
    LogText string
  | LogOrders int "batch_result list"
  | LogStats sync_stats
  | LogError string

record webhook_log_row =
  lg_id :: nat
  lg_event_type :: string
  lg_payload :: log_payload
  lg_status :: string
  lg_error_message :: "string option"


subsection \<open>The store: D1 tables and the KV cache\<close>

record 'r table =
  rows :: "'r list"
  seq :: nat

text \<open>What getFullMenu reads back from the tables (its JSON tree).\<close>

record group_view =
  gv_group :: option_group_row
  gv_options :: "option_row list"

record item_view =
  iv_item :: item_row
  iv_sizes :: "size_row list"
  iv_groups :: "group_view list"

record category_view =
  cv_category :: category_row
  cv_items :: "item_view list"

record full_menu =
  fm_menu :: menu_row
  fm_categories :: "category_view list"

text \<open>
  The text under a cache key, by what \<^verbatim>\<open>JSON.parse\<close> makes of it: the JSON of a
  menu snapshot as fetched, the JSON of a tree read back from the tables, some other JSON
  text, or a text that is not JSON (the empty text is of this kind).
\<close>

datatype cached =
    CachedSnapshot GloriaFoodMenuResponse
  | CachedTree full_menu
  | CachedJson string
  | CachedText string

text \<open>
  \<open>foreign_keys\<close> is the store's setting for foreign key enforcement (the schema declares
  the keys, the setting belongs to the deployment). \<open>faults\<close> is the environment's plan
  for the statements to come: the head says whether the store rejects the next
  statement; the empty plan rejects nothing.
\<close>

record world =
  restaurants :: "restaurant_row table"
  clients :: "client_row table"
  client_addresses :: "client_address_row table"
  orders :: "order_row table"
  order_items :: "order_item_row table"
  order_item_options :: "order_item_option_row table"
  order_coupons :: "order_coupon_row table"
  order_taxes :: "order_tax_row table"
  billing_details :: "billing_row table"
  menus :: "menu_row table"
  menu_categories :: "category_row table"
  menu_items :: "item_row table"
  menu_item_sizes :: "size_row table"
  menu_option_groups :: "option_group_row table"
  menu_item_option_groups :: "item_option_group_row table"
  menu_options :: "option_row table"
  webhook_logs :: "webhook_log_row table"
  cache :: "string \<rightharpoonup> cached"
  foreign_keys :: bool
  faults :: "bool list"

text \<open>
  The exceptions: the store rejects a statement; a constraint fails; D1's
  \<^verbatim>\<open>bind\<close> refuses an undefined value (D1_TYPE_ERROR, thrown before the statement
  runs); the fetch of the menu fails; the request body is not JSON; JSON.parse refuses a
  cached text.
\<close>

datatype error =
    StoreError
  | ConstraintError string
  | BindError
  | FetchError string
  | BodyError
  | ParseError

fun message :: "error \<Rightarrow> string" where
  "message StoreError = ''D1_ERROR''"
| "message (ConstraintError c) = c"
| "message BindError = ''D1_TYPE_ERROR''"
| "message (FetchError m) = m"
| "message BodyError = ''Unexpected end of JSON input''"
| "message ParseError = ''Unexpected token''"

type_synonym 'a io = "world \<Rightarrow> (error + 'a) \<times> world"

definition ret :: "'a \<Rightarrow> 'a io" where
  "ret a w = (Inr a, w)"

definition throw :: "error \<Rightarrow> 'a io" where
  "throw e w = (Inl e, w)"

definition bind :: "'a io \<Rightarrow> ('a \<Rightarrow> 'b io) \<Rightarrow> 'b io" where
  "bind m f w = (case m w of (Inl e, w') \<Rightarrow> (Inl e, w') | (Inr a, w') \<Rightarrow> f a w')"

text \<open>\<^verbatim>\<open>for (const x of xs) { await f(x) }\<close>: the first throw ends the loop.\<close>

fun for_each :: "('a \<Rightarrow> unit io) \<Rightarrow> 'a list \<Rightarrow> unit io" where
  "for_each f [] = ret ()"
| "for_each f (x # xs) = bind (f x) (\<lambda>_. for_each f xs)"

text \<open>The same loop threading a value (the mutable \<^verbatim>\<open>stats\<close> object of MenuService).\<close>

fun fold_io :: "('a \<Rightarrow> 'b \<Rightarrow> 'b io) \<Rightarrow> 'a list \<Rightarrow> 'b \<Rightarrow> 'b io" where
  "fold_io f [] b = ret b"
| "fold_io f (x # xs) b = bind (f x b) (fold_io f xs)"

text \<open>
  One D1 statement: \<^verbatim>\<open>await db.prepare(..).bind(..).run()\<close> (or first, all). The
  store may reject it (a throw that changes nothing); otherwise the statement's own
  semantics \<open>q\<close> decide, and a constraint violation is a throw that changes nothing.
\<close>

definition rejected :: "world \<Rightarrow> bool" where
  "rejected w = (case faults w of [] \<Rightarrow> False | b # _ \<Rightarrow> b)"

definition advance :: "world \<Rightarrow> world" where
  "advance w = w\<lparr>faults := tl (faults w)\<rparr>"

definition stmt :: "(world \<Rightarrow> error + ('a \<times> world)) \<Rightarrow> 'a io" where
  "stmt q w =
     (if rejected w then (Inl StoreError, advance w)
      else case q (advance w) of
             Inl e \<Rightarrow> (Inl e, advance w)
           | Inr (a, w') \<Rightarrow> (Inr a, w'))"

definition query :: "(world \<Rightarrow> 'a) \<Rightarrow> 'a io" where
  "query f = stmt (\<lambda>w. Inr (f w, w))"

definition exec :: "(world \<Rightarrow> world) \<Rightarrow> unit io" where
  "exec f = stmt (\<lambda>w. Inr ((), f w))"

text \<open>
  INTEGER PRIMARY KEY AUTOINCREMENT: the new rowid is one more than the largest rowid the
  table ever held.
\<close>

definition next_rowid :: "('r \<Rightarrow> nat) \<Rightarrow> 'r table \<Rightarrow> nat" where
  "next_rowid rid t = Suc (fold max (map rid (rows t)) (seq t))"

definition insert_row :: "('r \<Rightarrow> nat) \<Rightarrow> (nat \<Rightarrow> 'r) \<Rightarrow> 'r table \<Rightarrow> 'r table" where
  "insert_row rid mk t = \<lparr>rows = rows t @ [mk (next_rowid rid t)], seq = next_rowid rid t\<rparr>"

definition delete_where :: "('r \<Rightarrow> bool) \<Rightarrow> 'r table \<Rightarrow> 'r table" where
  "delete_where p t = t\<lparr>rows := filter (\<lambda>r. \<not> p r) (rows t)\<rparr>"

definition update_where :: "('r \<Rightarrow> bool) \<Rightarrow> ('r \<Rightarrow> 'r) \<Rightarrow> 'r table \<Rightarrow> 'r table" where
  "update_where p f t = t\<lparr>rows := map (\<lambda>r. if p r then f r else r) (rows t)\<rparr>"

text \<open>
  INSERT into the table \<open>tbl\<close> (with its record update \<open>upd\<close>): \<open>uniq\<close> lists the UNIQUE
  constraints of the table as (message, the stored rows that collide with the new row);
  the result is \<^verbatim>\<open>meta.last_row_id\<close>.
\<close>

definition insert_into ::
  "(world \<Rightarrow> 'r table) \<Rightarrow> (('r table \<Rightarrow> 'r table) \<Rightarrow> world \<Rightarrow> world) \<Rightarrow> ('r \<Rightarrow> nat) \<Rightarrow>
   (string \<times> ('r \<Rightarrow> bool)) list \<Rightarrow> (nat \<Rightarrow> 'r) \<Rightarrow> nat io" where
  "insert_into tbl upd rid uniq mk =
     stmt (\<lambda>w. case find (\<lambda>(c, p). list_ex p (rows (tbl w))) uniq of
                 Some (c, p) \<Rightarrow> Inl (ConstraintError c)
               | None \<Rightarrow> Inr (next_rowid rid (tbl w), upd (insert_row rid mk) w))"

text \<open>KV operations (they do not go through D1, and the model lets none of them fail).\<close>

definition cache_get :: "string \<Rightarrow> cached option io" where
  "cache_get k w = (Inr (cache w k), w)"

definition cache_put :: "string \<Rightarrow> cached \<Rightarrow> unit io" where
  "cache_put k v w = (Inr (), w\<lparr>cache := (cache w)(k \<mapsto> v)\<rparr>)"

definition cache_delete :: "string \<Rightarrow> unit io" where
  "cache_delete k w = (Inr (), w\<lparr>cache := (cache w)(k := None)\<rparr>)"

subsection \<open>JavaScript's \<^verbatim>\<open>||\<close> and truthiness on the optional fields\<close>

text \<open>\<^verbatim>\<open>x || d\<close> on an optional number: undefined and 0 are falsy.\<close>

definition or_int :: "int option \<Rightarrow> int \<Rightarrow> int" where
  "or_int x d = (case x of None \<Rightarrow> d | Some v \<Rightarrow> if v = 0 then d else v)"

text \<open>\<^verbatim>\<open>x || null\<close> on an optional number and on an optional string (the empty string is falsy).\<close>

definition int_or_null :: "int option \<Rightarrow> int option" where
  "int_or_null x = (case x of None \<Rightarrow> None | Some v \<Rightarrow> if v = 0 then None else Some v)"

definition or_null :: "string option \<Rightarrow> string option" where
  "or_null x = (case x of None \<Rightarrow> None | Some v \<Rightarrow> if v = [] then None else Some v)"

text \<open>\<^verbatim>\<open>x || y\<close> on two optional strings, and \<^verbatim>\<open>x || 'd'\<close>.\<close>

definition or_str :: "string option \<Rightarrow> string option \<Rightarrow> string option" where
  "or_str x y = (case or_null x of None \<Rightarrow> y | Some v \<Rightarrow> Some v)"

definition or_default :: "string option \<Rightarrow> string \<Rightarrow> string" where
  "or_default x d = (case or_null x of None \<Rightarrow> d | Some v \<Rightarrow> v)"

text \<open>
  The fields that are passed on as they are. \<^verbatim>\<open>x || null\<close> on such a field;
  whether \<^verbatim>\<open>bind\<close> accepts it (it refuses undefined) and the SQL value it binds
  (null is NULL); and \<^verbatim>\<open>x || y\<close> with such a field on the right.
\<close>

definition js_or_null :: "string js \<Rightarrow> string option" where
  "js_or_null x = (case x of Val v \<Rightarrow> if v = [] then None else Some v | _ \<Rightarrow> None)"

definition bindable :: "'a js \<Rightarrow> bool" where
  "bindable x = (case x of Undefined \<Rightarrow> False | _ \<Rightarrow> True)"

definition sql_value :: "'a js \<Rightarrow> 'a option" where
  "sql_value x = (case x of Val v \<Rightarrow> Some v | _ \<Rightarrow> None)"

definition or_js :: "string option \<Rightarrow> string js \<Rightarrow> string js" where
  "or_js x y = (case or_null x of Some v \<Rightarrow> Val v | None \<Rightarrow> y)"

text \<open>\<^verbatim>\<open>x ? 1 : 0\<close> on an optional boolean.\<close>

definition flag :: "bool option \<Rightarrow> bool" where
  "flag x = (case x of None \<Rightarrow> False | Some b \<Rightarrow> b)"


subsection \<open>OrdersService (services/orders.ts)\<close>

text \<open>
  saveClientAddress: one address per (client, full address). The address is
  \<^verbatim>\<open>parts.full_address || order.client_address\<close>; when both are missing the SELECT's
  \<^verbatim>\<open>bind\<close> gets undefined and throws. A NULL address matches no row
  (\<^verbatim>\<open>full_address = NULL\<close> is never true).
\<close>

definition addressKey :: "AddressParts \<Rightarrow> GloriaFoodOrder \<Rightarrow> string js" where
  "addressKey parts order = or_js (ap_full_address parts) (o_client_address order)"

definition saveClientAddress :: "nat \<Rightarrow> GloriaFoodOrder \<Rightarrow> unit io" where
  "saveClientAddress clientId order =
     (case o_client_address_parts order of
        None \<Rightarrow> ret ()
      | Some parts \<Rightarrow>
          if \<not> bindable (addressKey parts order) then throw BindError
          else
          bind (query (\<lambda>w. find (\<lambda>r. ca_client_id r = clientId \<and>
                   sql_value (addressKey parts order) \<noteq> None \<and>
                   ca_full_address r = sql_value (addressKey parts order))
                 (rows (client_addresses w))))
            (\<lambda>existing. case existing of
               Some _ \<Rightarrow> ret ()
             | None \<Rightarrow>
                 bind (insert_into client_addresses client_addresses_update ca_id []
                   (\<lambda>i. \<lparr>ca_id = i, ca_client_id = clientId,
                     ca_full_address = sql_value (addressKey parts order),
                     ca_street = or_null (ap_street parts), ca_city = or_null (ap_city parts),
                     ca_zipcode = or_null (ap_zipcode parts), ca_bloc = or_null (ap_bloc parts),
                     ca_floor = or_null (ap_floor parts), ca_apartment = or_null (ap_apartment parts),
                     ca_intercom = or_null (ap_intercom parts),
                     ca_latitude = or_null (o_latitude order),
                     ca_longitude = or_null (o_longitude order),
                     ca_delivery_zone = or_null (o_delivery_zone_name order)\<rparr>))
                   (\<lambda>_. ret ())))"

text \<open>
  The statements of getOrCreateClient. The UPDATE binds first name, last name, email and
  phone as they are (the INSERT binds them with \<^verbatim>\<open>|| null\<close>): a field left out of the
  payload is undefined, and \<^verbatim>\<open>bind\<close> throws before the statement runs. For a bound
  field \<^verbatim>\<open>COALESCE(?, col)\<close> keeps the column when the value is NULL; order_count and
  marketing_consent are set from the payload whatever it holds.
\<close>

definition coalesce :: "'a option \<Rightarrow> 'a option \<Rightarrow> 'a option" where
  "coalesce x y = (case x of None \<Rightarrow> y | Some v \<Rightarrow> Some v)"

definition merge_client :: "GloriaFoodOrder \<Rightarrow> client_row \<Rightarrow> client_row" where
  "merge_client order r =
     r\<lparr>cl_first_name := coalesce (sql_value (o_client_first_name order)) (cl_first_name r),
       cl_last_name := coalesce (sql_value (o_client_last_name order)) (cl_last_name r),
       cl_email := coalesce (sql_value (o_client_email order)) (cl_email r),
       cl_phone := coalesce (sql_value (o_client_phone order)) (cl_phone r),
       cl_order_count := or_int (o_client_order_count order) 0,
       cl_marketing_consent := flag (o_client_marketing_consent order)\<rparr>"

definition findClient :: "int \<Rightarrow> nat option io" where
  "findClient gid =
     query (\<lambda>w. map_option cl_id (find (\<lambda>r. cl_gloriafood_id r = gid) (rows (clients w))))"

definition updateClient :: "nat \<Rightarrow> GloriaFoodOrder \<Rightarrow> unit io" where
  "updateClient cid order =
     (if bindable (o_client_first_name order) \<and> bindable (o_client_last_name order) \<and>
         bindable (o_client_email order) \<and> bindable (o_client_phone order)
      then exec (clients_update (update_where (\<lambda>r. cl_id r = cid) (merge_client order)))
      else throw BindError)"

definition insertClient :: "int \<Rightarrow> GloriaFoodOrder \<Rightarrow> nat io" where
  "insertClient gid order =
     insert_into clients clients_update cl_id
       [(''UNIQUE constraint failed: clients.gloriafood_id'', \<lambda>r. cl_gloriafood_id r = gid)]
       (\<lambda>i. \<lparr>cl_id = i, cl_gloriafood_id = gid,
          cl_first_name = js_or_null (o_client_first_name order),
          cl_last_name = js_or_null (o_client_last_name order),
          cl_email = js_or_null (o_client_email order),
          cl_phone = js_or_null (o_client_phone order),
          cl_order_count = or_int (o_client_order_count order) 1,
          cl_marketing_consent = flag (o_client_marketing_consent order)\<rparr>)"

text \<open>\<^verbatim>\<open>if (order.type === 'delivery' && order.client_address_parts) saveClientAddress(..)\<close>.\<close>

definition saveDeliveryAddress :: "nat \<Rightarrow> GloriaFoodOrder \<Rightarrow> unit io" where
  "saveDeliveryAddress cid order =
     (if o_type order = Delivery \<and> o_client_address_parts order \<noteq> None
      then saveClientAddress cid order else ret ())"

text \<open>\<^verbatim>\<open>order.client_id || order.user_id\<close>.\<close>

definition clientGloriaFoodId :: "GloriaFoodOrder \<Rightarrow> int option" where
  "clientGloriaFoodId order =
     (case int_or_null (o_client_id order) of
        Some v \<Rightarrow> Some v
      | None \<Rightarrow> o_user_id order)"

definition getOrCreateClient :: "GloriaFoodOrder \<Rightarrow> nat option io" where
  "getOrCreateClient order =
     (case int_or_null (clientGloriaFoodId order) of
        None \<Rightarrow> ret None
      | Some gid \<Rightarrow>
          bind (findClient gid)
            (\<lambda>existing. case existing of
               Some cid \<Rightarrow>
                 bind (updateClient cid order)
                   (\<lambda>_. bind (saveDeliveryAddress cid order) (\<lambda>_. ret (Some cid)))
             | None \<Rightarrow>
                 bind (insertClient gid order)
                   (\<lambda>cid. bind (saveDeliveryAddress cid order) (\<lambda>_. ret (Some cid)))))"

text \<open>The statements of getOrCreateRestaurant.\<close>

definition findRestaurant :: "GloriaFoodOrder \<Rightarrow> nat option io" where
  "findRestaurant order =
     query (\<lambda>w. map_option rs_id
       (find (\<lambda>r. rs_restaurant_key r = o_restaurant_key order) (rows (restaurants w))))"

definition insertRestaurant :: "GloriaFoodOrder \<Rightarrow> nat io" where
  "insertRestaurant order =
     insert_into restaurants restaurants_update rs_id
       [(''UNIQUE constraint failed: restaurants.gloriafood_id'',
         \<lambda>r. rs_gloriafood_id r = o_restaurant_id order),
        (''UNIQUE constraint failed: restaurants.restaurant_key'',
         \<lambda>r. rs_restaurant_key r = o_restaurant_key order)]
       (\<lambda>i. \<lparr>rs_id = i, rs_gloriafood_id = o_restaurant_id order,
          rs_restaurant_key = o_restaurant_key order, rs_name = o_restaurant_name order,
          rs_timezone = or_default (o_restaurant_timezone order) ''UTC'',
          rs_currency = o_currency order\<rparr>)"

definition getOrCreateRestaurant :: "GloriaFoodOrder \<Rightarrow> nat io" where
  "getOrCreateRestaurant order =
     bind (findRestaurant order)
       (\<lambda>existing. case existing of
          Some rid \<Rightarrow> ret rid
        | None \<Rightarrow> insertRestaurant order)"

text \<open>
  The rows that the INSERT statements of the fan-out bind, as functions of the rowid that
  the table gives them.
\<close>

definition orderItemOptionRow :: "nat \<Rightarrow> OrderItemOption \<Rightarrow> nat \<Rightarrow> order_item_option_row" where
  "orderItemOptionRow itemId opt i =
     \<lparr>oor_id = i, oor_order_item_id = itemId, oor_gloriafood_id = oio_id opt,
      oor_name = oio_name opt, oor_group_name = or_null (oio_group_name opt),
      oor_type = oio_type opt, oor_type_id = int_or_null (oio_type_id opt),
      oor_quantity = oio_quantity opt, oor_price = oio_price opt,
      oor_kitchen_internal_name = or_null (oio_kitchen_internal_name opt)\<rparr>"

definition orderItemRow :: "nat \<Rightarrow> OrderItem \<Rightarrow> nat \<Rightarrow> order_item_row" where
  "orderItemRow orderId item i =
     \<lparr>oir_id = i, oir_order_id = orderId, oir_gloriafood_id = oi_id item,
      oir_name = oi_name item, oir_type = oi_type item,
      oir_type_id = int_or_null (oi_type_id item), oir_quantity = oi_quantity item,
      oir_price = oi_price item, oir_total_price = oi_total_item_price item,
      oir_instructions = or_null (oi_instructions item),
      oir_coupon = or_null (oi_coupon item)\<rparr>"

definition orderCouponRow :: "nat \<Rightarrow> string \<Rightarrow> nat \<Rightarrow> order_coupon_row" where
  "orderCouponRow orderId coupon i =
     \<lparr>ocr_id = i, ocr_order_id = orderId, ocr_coupon_code = coupon\<rparr>"

definition orderTaxRow :: "nat \<Rightarrow> OrderTax \<Rightarrow> nat \<Rightarrow> order_tax_row" where
  "orderTaxRow orderId tax i =
     \<lparr>otr_id = i, otr_order_id = orderId, otr_type = tax_type tax,
      otr_rate = tax_rate tax, otr_value = tax_value tax\<rparr>"

definition billingRow :: "nat \<Rightarrow> BillingDetails \<Rightarrow> nat \<Rightarrow> billing_row" where
  "billingRow orderId billing i =
     \<lparr>br_id = i, br_order_id = orderId, br_type = or_null (bd_type billing),
      br_company_name = or_null (bd_company_name billing),
      br_person_name = or_null (bd_person_name billing),
      br_document_number = or_null (bd_document_number billing),
      br_address = or_null (bd_address billing), br_city = or_null (bd_city billing),
      br_country_code = or_null (bd_country_code billing)\<rparr>"

definition insertOrderItemOption :: "nat \<Rightarrow> OrderItemOption \<Rightarrow> unit io" where
  "insertOrderItemOption itemId opt =
     bind (insert_into order_item_options order_item_options_update oor_id []
             (orderItemOptionRow itemId opt))
       (\<lambda>_. ret ())"

definition insertOrderItem :: "nat \<Rightarrow> OrderItem \<Rightarrow> unit io" where
  "insertOrderItem orderId item =
     bind (insert_into order_items order_items_update oir_id [] (orderItemRow orderId item))
       (\<lambda>itemId. case oi_options item of
                    None \<Rightarrow> ret ()
                  | Some opts \<Rightarrow> for_each (insertOrderItemOption itemId) opts)"

definition insertOrderItems :: "nat \<Rightarrow> OrderItem list \<Rightarrow> unit io" where
  "insertOrderItems orderId items = for_each (insertOrderItem orderId) items"

definition insertBillingDetails :: "nat \<Rightarrow> BillingDetails \<Rightarrow> unit io" where
  "insertBillingDetails orderId billing =
     bind (insert_into billing_details billing_details_update br_id
             [(''UNIQUE constraint failed: billing_details.order_id'', \<lambda>r. br_order_id r = orderId)]
             (billingRow orderId billing))
       (\<lambda>_. ret ())"

text \<open>
  processOrder, lines 20-26: the deduplication lookup on
  \<^verbatim>\<open>(order.id, order.pos_system_id || 0)\<close>.
\<close>

definition findExistingOrder :: "GloriaFoodOrder \<Rightarrow> nat option io" where
  "findExistingOrder order =
     query (\<lambda>w. map_option or_id
       (find (\<lambda>r. or_gloriafood_id r = o_id order \<and>
                   or_pos_system_id r = or_int (o_pos_system_id order) 0)
          (rows (orders w))))"

text \<open>\<^verbatim>\<open>order.items.find(i => i.type === t)?.total_item_price || 0\<close>.\<close>

definition itemTotalOfType :: "string \<Rightarrow> OrderItem list \<Rightarrow> real" where
  "itemTotalOfType t items =
     (case find (\<lambda>i. oi_type i = t) items of None \<Rightarrow> 0 | Some i \<Rightarrow> oi_total_item_price i)"

text \<open>
  processOrder, lines 90-119: the rows that hang on the new order row, the invalidation of
  the dashboard cache entry and the result.
\<close>

definition insertOrderDetails :: "nat \<Rightarrow> GloriaFoodOrder \<Rightarrow> order_result io" where
  "insertOrderDetails orderId order =
     bind (insertOrderItems orderId (o_items order)) (\<lambda>_.
     bind (case o_coupons order of
             None \<Rightarrow> ret ()
           | Some coupons \<Rightarrow>
               for_each (\<lambda>coupon.
                 bind (insert_into order_coupons order_coupons_update ocr_id []
                         (orderCouponRow orderId coupon))
                   (\<lambda>_. ret ())) coupons) (\<lambda>_.
     bind (case o_tax_list order of
             None \<Rightarrow> ret ()
           | Some taxes \<Rightarrow>
               for_each (\<lambda>tax.
                 bind (insert_into order_taxes order_taxes_update otr_id []
                         (orderTaxRow orderId tax))
                   (\<lambda>_. ret ())) taxes) (\<lambda>_.
     bind (case o_billing_details order of
             None \<Rightarrow> ret ()
           | Some billing \<Rightarrow> insertBillingDetails orderId billing) (\<lambda>_.
     bind (cache_delete ''dashboard:stats'') (\<lambda>_.
     ret \<lparr>po_orderId = orderId, po_isNew = True\<rparr>)))))"

text \<open>processOrder, lines 48-88: the INSERT of the order row.\<close>

definition orderRow :: "GloriaFoodOrder \<Rightarrow> nat option \<Rightarrow> nat \<Rightarrow> nat \<Rightarrow> order_row" where
  "orderRow order clientId restaurantId i =
     \<lparr>or_id = i, or_gloriafood_id = o_id order,
      or_pos_system_id = or_int (o_pos_system_id order) 0,
      or_restaurant_id = restaurantId, or_client_id = clientId,
      or_type = o_type order,
      or_payment_method =
        or_null (if o_type order = Delivery then o_delivery_payment order
                 else o_pickup_payment order),
      or_payment_status = or_default (o_payment_status order) ''pending'',
      or_delivery_fee = itemTotalOfType ''delivery_fee'' (o_items order),
      or_tip_amount = itemTotalOfType ''tip'' (o_items order),
      or_raw_payload = order\<rparr>"

definition insertOrder :: "GloriaFoodOrder \<Rightarrow> nat option \<Rightarrow> nat \<Rightarrow> nat io" where
  "insertOrder order clientId restaurantId =
     insert_into orders orders_update or_id
       [(''UNIQUE constraint failed: orders.gloriafood_id, orders.pos_system_id'',
         \<lambda>r. or_gloriafood_id r = o_id order \<and>
             or_pos_system_id r = or_int (o_pos_system_id order) 0)]
       (orderRow order clientId restaurantId)"

text \<open>processOrder, lines 28-120: what runs when the lookup found nothing.\<close>

definition storeNewOrder :: "GloriaFoodOrder \<Rightarrow> order_result io" where
  "storeNewOrder order =
     bind (getOrCreateClient order) (\<lambda>clientId.
     bind (getOrCreateRestaurant order) (\<lambda>restaurantId.
     bind (insertOrder order clientId restaurantId)
       (\<lambda>orderId. insertOrderDetails orderId order)))"

definition processOrder :: "GloriaFoodOrder \<Rightarrow> order_result io" where
  "processOrder order =
     bind (findExistingOrder order) (\<lambda>existing.
       case existing of
         Some i \<Rightarrow> ret \<lparr>po_orderId = i, po_isNew = False\<rparr>
       | None \<Rightarrow> storeNewOrder order)"

subsection \<open>The push webhook (index.ts, gloriafood-client.ts)\<close>

text \<open>\<^verbatim>\<open>!s\<close> on an optional string: undefined, null and the empty string are falsy.\<close>

definition missing :: "string option \<Rightarrow> bool" where
  "missing s = (case s of None \<Rightarrow> True | Some v \<Rightarrow> v = [])"

definition validateWebhookRequest :: "string option \<Rightarrow> string option \<Rightarrow> bool" where
  "validateWebhookRequest authHeader masterKey =
     (if missing authHeader \<or> missing masterKey then False else authHeader = masterKey)"

datatype response_body =
    Failure string
  | Processed "batch_result list"

record response =
  http_status :: nat
  body :: response_body

definition logWebhook :: "log_payload \<Rightarrow> string \<Rightarrow> string option \<Rightarrow> unit io" where
  "logWebhook payload status err =
     bind (insert_into webhook_logs webhook_logs_update lg_id []
             (\<lambda>i. \<lparr>lg_id = i, lg_event_type = ''order_received'', lg_payload = payload,
                lg_status = status, lg_error_message = err\<rparr>))
       (\<lambda>_. ret ())"

definition processBatch :: "GloriaFoodOrder list \<Rightarrow> batch_result list io" where
  "processBatch os =
     fold_io (\<lambda>order results.
        bind (processOrder order) (\<lambda>result.
          ret (results @ [\<lparr>res_gloriafood_id = o_id order, res_internal_id = po_orderId result,
                           res_is_new = po_isNew result\<rparr>])))
       os []"

text \<open>
  \<^verbatim>\<open>app.post('/webhook/orders', ..)\<close>. \<open>payload\<close> is the request body as
  \<^verbatim>\<open>c.req.json()\<close> parses it (None: the body is not JSON, and the call throws inside
  the try block). A throw of the statement that logs the refused attempt is outside the
  try block and leaves the handler.
\<close>

definition webhookOrders ::
  "string option \<Rightarrow> string option \<Rightarrow> GloriaFoodOrderResponse option \<Rightarrow> response io" where
  "webhookOrders authHeader masterKey payload =
     (if \<not> validateWebhookRequest authHeader masterKey then
        bind (logWebhook (LogText ''unauthorized'') ''error'' (Some ''Invalid master key''))
          (\<lambda>_. ret \<lparr>http_status = 401, body = Failure ''Unauthorized''\<rparr>)
      else
        (\<lambda>w. case (case payload of
                      None \<Rightarrow> throw BodyError
                    | Some p \<Rightarrow>
                        bind (processBatch (r_orders p)) (\<lambda>results.
                        bind (logWebhook (LogOrders (r_count p) results) ''success'' None) (\<lambda>_.
                        ret \<lparr>http_status = 200, body = Processed results\<rparr>))) w of
               (Inr r, w') \<Rightarrow> (Inr r, w')
             | (Inl e, w') \<Rightarrow>
                 bind (logWebhook (LogText ''error'') ''error'' (Some (message e)))
                   (\<lambda>_. ret \<lparr>http_status = 500, body = Failure (message e)\<rparr>) w'))"


subsection \<open>MenuService (services/menu.ts)\<close>

definition logEvent :: "string \<Rightarrow> log_payload \<Rightarrow> string \<Rightarrow> string option \<Rightarrow> unit io" where
  "logEvent eventType payload status errorMessage =
     bind (insert_into webhook_logs webhook_logs_update lg_id []
             (\<lambda>i. \<lparr>lg_id = i, lg_event_type = eventType, lg_payload = payload,
                lg_status = status, lg_error_message = or_null errorMessage\<rparr>))
       (\<lambda>_. ret ())"

text \<open>
  getOrCreateMenu. The INSERT is the one statement of the two services whose foreign key
  can dangle: menus.restaurant_id references restaurants(id) and receives the platform's
  restaurant id.
\<close>

definition getOrCreateMenu :: "GloriaFoodMenuResponse \<Rightarrow> nat io" where
  "getOrCreateMenu menuData =
     bind (query (\<lambda>w. map_option mn_id
             (find (\<lambda>r. mn_gloriafood_id r = m_id menuData) (rows (menus w)))))
       (\<lambda>existing. case existing of
          Some mid \<Rightarrow>
            bind (exec (menus_update (update_where (\<lambda>r. mn_id r = mid)
                    (\<lambda>r. r\<lparr>mn_currency := m_currency menuData, mn_active := m_active menuData\<rparr>))))
              (\<lambda>_. ret mid)
        | None \<Rightarrow>
            stmt (\<lambda>w.
              if list_ex (\<lambda>r. mn_gloriafood_id r = m_id menuData) (rows (menus w))
              then Inl (ConstraintError ''UNIQUE constraint failed: menus.gloriafood_id'')
              else if foreign_keys w \<and>
                   \<not> list_ex (\<lambda>r. int (rs_id r) = m_restaurant_id menuData) (rows (restaurants w))
              then Inl (ConstraintError ''FOREIGN KEY constraint failed'')
              else Inr (next_rowid mn_id (menus w),
                     menus_update (insert_row mn_id
                       (\<lambda>i. \<lparr>mn_id = i, mn_gloriafood_id = m_id menuData,
                          mn_restaurant_id = m_restaurant_id menuData,
                          mn_currency = m_currency menuData, mn_active = m_active menuData\<rparr>))
                       w)))"

text \<open>
  The DELETE statements of clearMenuData. With foreign keys enforced, the schema's
  ON DELETE CASCADE removes the rows that reference a deleted row.
\<close>

definition delete_sizes :: "(size_row \<Rightarrow> bool) \<Rightarrow> world \<Rightarrow> world" where
  "delete_sizes p w =
     (let dead = map sr_id (filter p (rows (menu_item_sizes w)));
          w1 = menu_item_sizes_update (delete_where p) w
      in if foreign_keys w
         then menu_item_option_groups_update
                (delete_where (\<lambda>a. case ar_size_id a of None \<Rightarrow> False | Some i \<Rightarrow> i \<in> set dead))
                w1
         else w1)"

definition delete_items :: "(item_row \<Rightarrow> bool) \<Rightarrow> world \<Rightarrow> world" where
  "delete_items p w =
     (let dead = map ir_id (filter p (rows (menu_items w)));
          w1 = menu_items_update (delete_where p) w
      in if foreign_keys w
         then delete_sizes (\<lambda>r. sr_item_id r \<in> set dead)
                (menu_item_option_groups_update
                   (delete_where (\<lambda>a. case ar_item_id a of None \<Rightarrow> False | Some i \<Rightarrow> i \<in> set dead))
                   w1)
         else w1)"

definition delete_categories :: "(category_row \<Rightarrow> bool) \<Rightarrow> world \<Rightarrow> world" where
  "delete_categories p w =
     (let dead = map cr_id (filter p (rows (menu_categories w)));
          w1 = menu_categories_update (delete_where p) w
      in if foreign_keys w
         then delete_items (\<lambda>r. ir_category_id r \<in> set dead) w1
         else w1)"

definition clearMenuData :: "nat \<Rightarrow> unit io" where
  "clearMenuData menuId =
     bind (query (\<lambda>w. map cr_id (filter (\<lambda>r. cr_menu_id r = menuId) (rows (menu_categories w)))))
       (\<lambda>categories.
     bind (for_each (\<lambda>cat.
             bind (query (\<lambda>w. map ir_id (filter (\<lambda>r. ir_category_id r = cat) (rows (menu_items w)))))
               (\<lambda>items.
             bind (for_each (\<lambda>item.
                     bind (exec (delete_sizes (\<lambda>r. sr_item_id r = item)))
                       (\<lambda>_. exec (menu_item_option_groups_update
                                     (delete_where (\<lambda>a. ar_item_id a = Some item)))))
                   items)
               (\<lambda>_. exec (delete_items (\<lambda>r. ir_category_id r = cat)))))
           categories)
       (\<lambda>_. exec (delete_categories (\<lambda>r. cr_menu_id r = menuId))))"

text \<open>\<^verbatim>\<open>if (itemId || sizeId)\<close>: null and 0 are falsy.\<close>

definition truthy_id :: "nat option \<Rightarrow> bool" where
  "truthy_id x = (case x of None \<Rightarrow> False | Some i \<Rightarrow> i \<noteq> 0)"

definition insertMenuOption :: "nat \<Rightarrow> nat \<times> MenuOption \<Rightarrow> sync_stats \<Rightarrow> sync_stats io" where
  "insertMenuOption groupId ko stats =
     bind (insert_into menu_options menu_options_update pr_id []
             (\<lambda>i. \<lparr>pr_id = i, pr_option_group_id = groupId, pr_gloriafood_id = mo_id (snd ko),
                pr_name = mo_name (snd ko), pr_price = mo_price (snd ko),
                pr_is_default = mo_default (snd ko),
                pr_kitchen_internal_name = or_null (mo_kitchen_internal_name (snd ko)),
                pr_sort_order = fst ko\<rparr>))
       (\<lambda>_. ret (stats\<lparr>st_options := st_options stats + 1\<rparr>))"

text \<open>
  The statements of processOptionGroup: the SELECT by external id (\<^verbatim>\<open>first()\<close> gives
  the first row found), the UPDATE of an existing group, the INSERT of a new one, and the
  INSERT of the association. The table menu_item_option_groups has no UNIQUE constraint,
  so its \<^verbatim>\<open>INSERT OR IGNORE\<close> ignores nothing.
\<close>

definition findOptionGroup :: "MenuOptionGroup \<Rightarrow> nat option io" where
  "findOptionGroup grp =
     query (\<lambda>w. map_option gr_id
       (find (\<lambda>r. gr_gloriafood_id r = mg_id grp) (rows (menu_option_groups w))))"

definition updateOptionGroup :: "nat \<Rightarrow> MenuOptionGroup \<Rightarrow> unit io" where
  "updateOptionGroup gid grp =
     exec (menu_option_groups_update (update_where (\<lambda>r. gr_id r = gid)
       (\<lambda>r. r\<lparr>gr_name := mg_name grp, gr_required := mg_required grp,
              gr_allow_quantity := mg_allow_quantity grp,
              gr_force_min := mg_force_min grp, gr_force_max := mg_force_max grp\<rparr>)))"

definition insertOptionGroup :: "MenuOptionGroup \<Rightarrow> nat io" where
  "insertOptionGroup grp =
     insert_into menu_option_groups menu_option_groups_update gr_id []
       (\<lambda>i. \<lparr>gr_id = i, gr_gloriafood_id = mg_id grp, gr_name = mg_name grp,
          gr_required = mg_required grp, gr_allow_quantity = mg_allow_quantity grp,
          gr_force_min = mg_force_min grp, gr_force_max = mg_force_max grp\<rparr>)"

definition linkOptionGroup :: "nat option \<Rightarrow> nat option \<Rightarrow> nat \<Rightarrow> unit io" where
  "linkOptionGroup itemId sizeId gid =
     (if truthy_id itemId \<or> truthy_id sizeId
      then bind (insert_into menu_item_option_groups menu_item_option_groups_update ar_id []
                   (\<lambda>i. \<lparr>ar_id = i, ar_item_id = itemId, ar_size_id = sizeId,
                      ar_option_group_id = gid\<rparr>))
             (\<lambda>_. ret ())
      else ret ())"

text \<open>
  processOptionGroup. The loop counter \<^verbatim>\<open>optionSortOrder++\<close> is the position that
  \<open>enumerate 0\<close> pairs with each option.
\<close>

definition processOptionGroup ::
  "MenuOptionGroup \<Rightarrow> sync_stats \<Rightarrow> nat option \<Rightarrow> nat option \<Rightarrow> sync_stats io" where
  "processOptionGroup grp stats itemId sizeId =
     bind (findOptionGroup grp) (\<lambda>existing.
     bind (case existing of
             Some gid \<Rightarrow> bind (updateOptionGroup gid grp) (\<lambda>_. ret (gid, stats))
           | None \<Rightarrow>
               bind (insertOptionGroup grp)
                 (\<lambda>gid. ret (gid, stats\<lparr>st_optionGroups := st_optionGroups stats + 1\<rparr>)))
       (\<lambda>gs.
     bind (linkOptionGroup itemId sizeId (fst gs))
       (\<lambda>_. case existing of
              Some _ \<Rightarrow> ret (snd gs)
            | None \<Rightarrow> fold_io (insertMenuOption (fst gs)) (enumerate 0 (mg_options grp)) (snd gs))))"

text \<open>\<^verbatim>\<open>if (x.groups) for (const group of x.groups) await processOptionGroup(..)\<close>.\<close>

definition processGroups ::
  "MenuOptionGroup list option \<Rightarrow> nat option \<Rightarrow> nat option \<Rightarrow> sync_stats \<Rightarrow> sync_stats io" where
  "processGroups groups itemId sizeId stats =
     (case groups of
        None \<Rightarrow> ret stats
      | Some gs \<Rightarrow> fold_io (\<lambda>grp st. processOptionGroup grp st itemId sizeId) gs stats)"

definition processSize :: "nat \<Rightarrow> MenuItemSize \<Rightarrow> sync_stats \<Rightarrow> nat \<Rightarrow> sync_stats io" where
  "processSize itemId sz stats sortOrder =
     bind (insert_into menu_item_sizes menu_item_sizes_update sr_id []
             (\<lambda>i. \<lparr>sr_id = i, sr_item_id = itemId, sr_gloriafood_id = ms_id sz,
                sr_name = ms_name sz, sr_price = ms_price sz,
                sr_is_default = ms_default sz, sr_sort_order = sortOrder\<rparr>))
       (\<lambda>sizeId. processGroups (ms_groups sz) None (Some sizeId)
                   (stats\<lparr>st_sizes := st_sizes stats + 1\<rparr>))"

definition processItem :: "nat \<Rightarrow> MenuItem \<Rightarrow> sync_stats \<Rightarrow> nat \<Rightarrow> sync_stats io" where
  "processItem categoryId item stats sortOrder =
     bind (insert_into menu_items menu_items_update ir_id []
             (\<lambda>i. \<lparr>ir_id = i, ir_category_id = categoryId, ir_gloriafood_id = mi_id item,
                ir_name = mi_name item, ir_description = or_null (mi_description item),
                ir_price = mi_price item, ir_active = mi_active item,
                ir_sort_order = sortOrder,
                ir_kitchen_internal_name = or_null (mi_kitchen_internal_name item),
                ir_order_types = mi_order_types item, ir_tags = mi_tags item,
                ir_allergens = mi_allergens item,
                ir_nutritional_values = mi_nutritional_values item\<rparr>))
       (\<lambda>itemId.
     bind (case mi_sizes item of
             None \<Rightarrow> ret (stats\<lparr>st_items := st_items stats + 1\<rparr>)
           | Some sizes \<Rightarrow>
               fold_io (\<lambda>ks st. processSize itemId (snd ks) st (fst ks)) (enumerate 0 sizes)
                 (stats\<lparr>st_items := st_items stats + 1\<rparr>))
       (\<lambda>st. processGroups (mi_groups item) (Some itemId) None st))"

definition processCategory :: "nat \<Rightarrow> MenuCategory \<Rightarrow> sync_stats \<Rightarrow> nat \<Rightarrow> sync_stats io" where
  "processCategory menuId category stats sortOrder =
     bind (insert_into menu_categories menu_categories_update cr_id []
             (\<lambda>i. \<lparr>cr_id = i, cr_menu_id = menuId, cr_gloriafood_id = mc_id category,
                cr_name = mc_name category, cr_description = or_null (mc_description category),
                cr_active = mc_active category, cr_sort_order = sortOrder\<rparr>))
       (\<lambda>categoryId.
     bind (fold_io (\<lambda>ki st. processItem categoryId (snd ki) st (fst ki))
             (enumerate 0 (mc_items category))
             (stats\<lparr>st_categories := st_categories stats + 1\<rparr>))
       (\<lambda>st. processGroups (mc_groups category) None None st))"

record sync_result =
  sy_success :: bool
  sy_message :: string
  sy_stats :: sync_stats

text \<open>
  syncMenu, the loop over the categories of the snapshot. It calls processCategory with
  three arguments, so \<^verbatim>\<open>sortOrder\<close> takes its default 0 for every category.
\<close>

definition processCategories :: "nat \<Rightarrow> MenuCategory list \<Rightarrow> sync_stats io" where
  "processCategories menuId categories =
     fold_io (\<lambda>category st. processCategory menuId category st 0) categories
       \<lparr>st_categories = 0, st_items = 0, st_sizes = 0, st_optionGroups = 0, st_options = 0\<rparr>"

text \<open>
  The try block of syncMenu. \<open>fetched\<close> is what \<^verbatim>\<open>gloriaFood.fetchMenu()\<close> gave: the
  snapshot, or the error it threw. The UPDATE of \<^verbatim>\<open>synced_at\<close> writes a timestamp
  only: it is a statement the store may reject and changes no modelled column.
\<close>

definition syncMenuBody :: "error + GloriaFoodMenuResponse \<Rightarrow> sync_result io" where
  "syncMenuBody fetched =
     bind (case fetched of Inl e \<Rightarrow> throw e | Inr m \<Rightarrow> ret m) (\<lambda>menuData.
     bind (getOrCreateMenu menuData) (\<lambda>menuId.
     bind (clearMenuData menuId) (\<lambda>_.
     bind (processCategories menuId (m_categories menuData)) (\<lambda>stats.
     bind (exec (\<lambda>w. w)) (\<lambda>_.
     bind (cache_put ''menu:full'' (CachedSnapshot menuData)) (\<lambda>_.
     bind (logEvent ''menu_sync'' (LogStats stats) ''success'' None) (\<lambda>_.
     ret \<lparr>sy_success = True, sy_message = ''Menu sincronizado correctamente'',
          sy_stats = stats\<rparr>)))))))"

text \<open>syncMenu: the catch block logs the error's message and throws the error again.\<close>

definition syncMenu :: "error + GloriaFoodMenuResponse \<Rightarrow> sync_result io" where
  "syncMenu fetched w =
     (case syncMenuBody fetched w of
        (Inr r, w') \<Rightarrow> (Inr r, w')
      | (Inl e, w') \<Rightarrow>
          bind (logEvent ''menu_sync'' (LogError (message e)) ''error'' (Some (message e)))
            (\<lambda>_. throw e) w')"

text \<open>
  The reads of getFullMenu. \<^verbatim>\<open>ORDER BY sort_order\<close> is a stable sort of the rows in
  rowid order; the queries that \<^verbatim>\<open>Promise.all\<close> starts together run one after the
  other (they only read).
\<close>

fun map_io :: "('a \<Rightarrow> 'b io) \<Rightarrow> 'a list \<Rightarrow> 'b list io" where
  "map_io f [] = ret []"
| "map_io f (x # xs) = bind (f x) (\<lambda>y. bind (map_io f xs) (\<lambda>ys. ret (y # ys)))"

definition getOptionGroupsForItem :: "nat \<Rightarrow> group_view list io" where
  "getOptionGroupsForItem itemId =
     bind (query (\<lambda>w. concat (map (\<lambda>a. filter (\<lambda>g. gr_id g = ar_option_group_id a)
                                        (rows (menu_option_groups w)))
                    (filter (\<lambda>a. ar_item_id a = Some itemId) (rows (menu_item_option_groups w))))))
       (\<lambda>relations.
     map_io (\<lambda>grp.
        bind (query (\<lambda>w. sort_key pr_sort_order
                (filter (\<lambda>r. pr_option_group_id r = gr_id grp) (rows (menu_options w)))))
          (\<lambda>options. ret \<lparr>gv_group = grp, gv_options = options\<rparr>))
       relations)"

text \<open>The two callbacks that getFullMenu maps over the items and over the categories.\<close>

definition itemView :: "item_row \<Rightarrow> item_view io" where
  "itemView item =
     bind (query (\<lambda>w. sort_key sr_sort_order
             (filter (\<lambda>r. sr_item_id r = ir_id item) (rows (menu_item_sizes w)))))
       (\<lambda>sizes.
     bind (getOptionGroupsForItem (ir_id item))
       (\<lambda>groups. ret \<lparr>iv_item = item, iv_sizes = sizes, iv_groups = groups\<rparr>))"

definition categoryView :: "category_row \<Rightarrow> category_view io" where
  "categoryView cat =
     bind (query (\<lambda>w. sort_key ir_sort_order
             (filter (\<lambda>r. ir_category_id r = cr_id cat) (rows (menu_items w)))))
       (\<lambda>items.
     bind (map_io itemView items)
       (\<lambda>ivs. ret \<lparr>cv_category = cat, cv_items = ivs\<rparr>))"

text \<open>
  The branch of getFullMenu that reads the tables, stores the tree under the key and
  returns it (null when there is no menu row).
\<close>

definition buildFullMenu :: "cached option io" where
  "buildFullMenu =
     bind (query (\<lambda>w. case rows (menus w) of [] \<Rightarrow> None | m # _ \<Rightarrow> Some m)) (\<lambda>menu.
       case menu of
         None \<Rightarrow> ret None
       | Some m \<Rightarrow>
           bind (query (\<lambda>w. sort_key cr_sort_order
                   (filter (\<lambda>r. cr_menu_id r = mn_id m) (rows (menu_categories w)))))
             (\<lambda>categories.
           bind (map_io categoryView categories)
             (\<lambda>cvs.
           bind (cache_put ''menu:full''
                   (CachedTree \<lparr>fm_menu = m, fm_categories = cvs\<rparr>))
             (\<lambda>_. ret (Some (CachedTree \<lparr>fm_menu = m, fm_categories = cvs\<rparr>))))))"

text \<open>
  \<^verbatim>\<open>if (cached) return JSON.parse(cached)\<close>: the empty text is falsy and counts as a
  miss; a text that is not JSON makes JSON.parse throw.
\<close>

definition truthy_text :: "cached \<Rightarrow> bool" where
  "truthy_text v = (case v of CachedJson s \<Rightarrow> s \<noteq> [] | CachedText s \<Rightarrow> s \<noteq> [] | _ \<Rightarrow> True)"

definition json_parse :: "cached \<Rightarrow> cached io" where
  "json_parse v = (case v of CachedText s \<Rightarrow> throw ParseError | _ \<Rightarrow> ret v)"

definition getFullMenu :: "cached option io" where
  "getFullMenu =
     bind (cache_get ''menu:full'') (\<lambda>cached.
       case cached of
         Some v \<Rightarrow>
           if truthy_text v then bind (json_parse v) (\<lambda>parsed. ret (Some parsed))
           else buildFullMenu
       | None \<Rightarrow> buildFullMenu)"

section \<open>Vocabulary of the statements\<close>

subsection \<open>The deduplication key of an order\<close>

text \<open>
  The key of a payload, the key of a stored row, and the two constraints of the schema on
  the table orders: the primary key and UNIQUE(gloriafood_id, pos_system_id).
\<close>

definition dedup_key :: "GloriaFoodOrder \<Rightarrow> int \<times> int" where
  "dedup_key order = (o_id order, or_int (o_pos_system_id order) 0)"

definition row_key :: "order_row \<Rightarrow> int \<times> int" where
  "row_key r = (or_gloriafood_id r, or_pos_system_id r)"

definition orders_constraints :: "world \<Rightarrow> bool" where
  "orders_constraints w =
     (distinct (map or_id (rows (orders w))) \<and> distinct (map row_key (rows (orders w))))"

subsection \<open>The rows of one menu\<close>

text \<open>
  The ids of the categories of a menu, of the items of these categories and of the sizes of
  these items, and the associations that hang on such an item or size: the rows that are
  scoped to the menu.
\<close>

definition menuCategoryIds :: "nat \<Rightarrow> world \<Rightarrow> nat set" where
  "menuCategoryIds menuId w = cr_id ` {r \<in> set (rows (menu_categories w)). cr_menu_id r = menuId}"

definition menuItemIds :: "nat \<Rightarrow> world \<Rightarrow> nat set" where
  "menuItemIds menuId w =
     ir_id ` {r \<in> set (rows (menu_items w)). ir_category_id r \<in> menuCategoryIds menuId w}"

definition menuSizeIds :: "nat \<Rightarrow> world \<Rightarrow> nat set" where
  "menuSizeIds menuId w =
     sr_id ` {r \<in> set (rows (menu_item_sizes w)). sr_item_id r \<in> menuItemIds menuId w}"

definition menuAssociation :: "nat \<Rightarrow> world \<Rightarrow> item_option_group_row \<Rightarrow> bool" where
  "menuAssociation menuId w a =
     ((case ar_item_id a of None \<Rightarrow> False | Some i \<Rightarrow> i \<in> menuItemIds menuId w) \<or>
      (case ar_size_id a of None \<Rightarrow> False | Some i \<Rightarrow> i \<in> menuSizeIds menuId w))"

subsection \<open>Hoare triples over the store\<close>

text \<open>
  \<open>hoare P m Q E\<close>: started in a store with \<open>P\<close>, the method \<open>m\<close> ends in a store with
  \<open>Q\<close> of its result when it returns, and with \<open>E\<close> of its error when it throws.
\<close>

definition hoare :: "(world \<Rightarrow> bool) \<Rightarrow> 'a io \<Rightarrow> ('a \<Rightarrow> world \<Rightarrow> bool) \<Rightarrow> (error \<Rightarrow> world \<Rightarrow> bool) \<Rightarrow> bool" where
  "hoare P m Q E = (\<forall>w r w'. P w \<longrightarrow> m w = (r, w') \<longrightarrow> (case r of Inr a \<Rightarrow> Q a w' | Inl e \<Rightarrow> E e w'))"

text \<open>
  What clearMenuData keeps of the store \<open>w0\<close> it started in: every table but the four
  it deletes from, and in these four every row that is not scoped to the menu.
\<close>

definition clear_inv :: "nat \<Rightarrow> world \<Rightarrow> world \<Rightarrow> bool" where
  "clear_inv menuId w0 w =
     (w\<lparr>menu_categories := menu_categories w0, menu_items := menu_items w0,
        menu_item_sizes := menu_item_sizes w0,
        menu_item_option_groups := menu_item_option_groups w0, faults := faults w0\<rparr> = w0 \<and>
      set (rows (menu_items w)) \<subseteq> set (rows (menu_items w0)) \<and>
      set (rows (menu_item_sizes w)) \<subseteq> set (rows (menu_item_sizes w0)) \<and>
      filter (\<lambda>r. cr_menu_id r \<noteq> menuId) (rows (menu_categories w)) =
        filter (\<lambda>r. cr_menu_id r \<noteq> menuId) (rows (menu_categories w0)) \<and>
      filter (\<lambda>r. ir_category_id r \<notin> menuCategoryIds menuId w0) (rows (menu_items w)) =
        filter (\<lambda>r. ir_category_id r \<notin> menuCategoryIds menuId w0) (rows (menu_items w0)) \<and>
      filter (\<lambda>r. sr_item_id r \<notin> menuItemIds menuId w0) (rows (menu_item_sizes w)) =
        filter (\<lambda>r. sr_item_id r \<notin> menuItemIds menuId w0) (rows (menu_item_sizes w0)) \<and>
      filter (\<lambda>a. \<not> menuAssociation menuId w0 a) (rows (menu_item_option_groups w)) =
        filter (\<lambda>a. \<not> menuAssociation menuId w0 a) (rows (menu_item_option_groups w0)))"

text \<open>The loops of clearMenuData keep the invariant and leave the categories alone.\<close>

definition clear_loop_inv :: "nat \<Rightarrow> world \<Rightarrow> world \<Rightarrow> bool" where
  "clear_loop_inv menuId w0 w = (clear_inv menuId w0 w \<and> menu_categories w = menu_categories w0)"

text \<open>\<open>keeps I m\<close>: the method \<open>m\<close> keeps the invariant \<open>I\<close>, whether it returns or throws.\<close>

definition keeps :: "(world \<Rightarrow> bool) \<Rightarrow> 'a io \<Rightarrow> bool" where
  "keeps I m = hoare I m (\<lambda>_. I) (\<lambda>_. I)"

subsection \<open>Order ingestion: what a call leaves in the store\<close>

text \<open>\<open>extends xs ys\<close>: the list \<open>ys\<close> starts with \<open>xs\<close>.\<close>

definition extends :: "'a list \<Rightarrow> 'a list \<Rightarrow> bool" where
  "extends xs ys = (take (length xs) ys = xs)"

text \<open>A table has only grown: its earlier rows are still there, unchanged and in place.\<close>

definition grows :: "'r table \<Rightarrow> 'r table \<Rightarrow> bool" where
  "grows t t' = extends (rows t) (rows t')"

text \<open>An optional list of the payload, \<^verbatim>\<open>if (x.options)\<close> read as a list.\<close>

definition listed :: "'a list option \<Rightarrow> 'a list" where
  "listed xs = (case xs of None \<Rightarrow> [] | Some l \<Rightarrow> l)"

text \<open>
  The writes of the fan-out of processOrder for the order row \<open>orderId\<close>, in the
  sequence in which the code issues them: every item row followed by its option rows,
  then the coupon rows, the tax rows and the billing row. Each write appends one row; an
  option row carries the rowid of the item row written last (\<^verbatim>\<open>meta.last_row_id\<close> of
  its item's INSERT).
\<close>

definition last_item_id :: "world \<Rightarrow> nat" where
  "last_item_id w = oir_id (last (rows (order_items w)))"

definition option_write :: "OrderItemOption \<Rightarrow> world \<Rightarrow> world" where
  "option_write opt w =
     order_item_options_update (insert_row oor_id (orderItemOptionRow (last_item_id w) opt)) w"

definition item_writes :: "nat \<Rightarrow> OrderItem \<Rightarrow> (world \<Rightarrow> world) list" where
  "item_writes orderId item =
     order_items_update (insert_row oir_id (orderItemRow orderId item)) #
     map option_write (listed (oi_options item))"

definition fanout :: "nat \<Rightarrow> GloriaFoodOrder \<Rightarrow> (world \<Rightarrow> world) list" where
  "fanout orderId order =
     concat (map (item_writes orderId) (o_items order)) @
     map (\<lambda>c. order_coupons_update (insert_row ocr_id (orderCouponRow orderId c)))
       (listed (o_coupons order)) @
     map (\<lambda>t. order_taxes_update (insert_row otr_id (orderTaxRow orderId t)))
       (listed (o_tax_list order)) @
     (case o_billing_details order of
        None \<Rightarrow> []
      | Some b \<Rightarrow> [billing_details_update (insert_row br_id (billingRow orderId b))])"

text \<open>The store with the writes \<open>fs\<close> made, one after the other.\<close>

definition written :: "(world \<Rightarrow> world) list \<Rightarrow> world \<Rightarrow> world" where
  "written fs w = fold (\<lambda>f. f) fs w"

text \<open>The same writes issued as D1 statements, the first throw ending the sequence.\<close>

fun write_all :: "(world \<Rightarrow> world) list \<Rightarrow> unit io" where
  "write_all [] = ret ()"
| "write_all (f # fs) = bind (exec f) (\<lambda>_. write_all fs)"

text \<open>
  \<open>order_kept w w'\<close>: the clients, their addresses, the restaurants, the order rows and
  the cache of \<open>w\<close> are those of \<open>w'\<close>.
\<close>

definition order_kept :: "world \<Rightarrow> world \<Rightarrow> bool" where
  "order_kept w w' =
     (clients w' = clients w \<and> client_addresses w' = client_addresses w \<and>
      restaurants w' = restaurants w \<and> orders w' = orders w \<and> cache w' = cache w)"

text \<open>The rows that a table holds in \<open>w'\<close> after those it held in \<open>w\<close>.\<close>

definition new_rows :: "(world \<Rightarrow> 'r table) \<Rightarrow> world \<Rightarrow> world \<Rightarrow> 'r list" where
  "new_rows tbl w w' = drop (length (rows (tbl w))) (rows (tbl w'))"

text \<open>
  \<open>fanout_tied orderId order w w'\<close>: the item and option tables have only grown from
  \<open>w\<close> to \<open>w'\<close>; every new item row is the row of an item of the payload for the
  order row \<open>orderId\<close>; and every new option row is the row of an option of an item of
  the payload and carries the rowid of a new row of that same item.
\<close>

definition fanout_tied :: "nat \<Rightarrow> GloriaFoodOrder \<Rightarrow> world \<Rightarrow> world \<Rightarrow> bool" where
  "fanout_tied orderId order w w' =
     (grows (order_items w) (order_items w') \<and>
      grows (order_item_options w) (order_item_options w') \<and>
      list_all (\<lambda>i. list_ex (\<lambda>x. i = orderItemRow orderId x (oir_id i)) (o_items order))
        (new_rows order_items w w') \<and>
      list_all (\<lambda>r.
          list_ex (\<lambda>i.
            list_ex (\<lambda>x. i = orderItemRow orderId x (oir_id i) \<and>
                list_ex (\<lambda>p. r = orderItemOptionRow (oir_id i) p (oor_id r))
                  (listed (oi_options x)))
              (o_items order))
            (new_rows order_items w w'))
        (new_rows order_item_options w w'))"

subsection \<open>Menu sync: the categories of a menu\<close>

text \<open>The external ids of the stored categories of a menu, in rowid order.\<close>

definition menuCategoryKeys :: "nat \<Rightarrow> world \<Rightarrow> int list" where
  "menuCategoryKeys menuId w =
     map cr_gloriafood_id (filter (\<lambda>r. cr_menu_id r = menuId) (rows (menu_categories w)))"

subsection \<open>Menu sync: order of siblings and option groups\<close>


text \<open>The external ids of a list of siblings, each with its position in the snapshot.\<close>

definition numbered :: "('a \<Rightarrow> int) \<Rightarrow> 'a list \<Rightarrow> (int \<times> nat) list" where
  "numbered key xs = map (\<lambda>kx. (key (snd kx), fst kx)) (enumerate 0 xs)"

text \<open>External id and sort_order of the stored rows, in rowid order.\<close>

definition categoryOrder :: "world \<Rightarrow> (int \<times> nat) list" where
  "categoryOrder w = map (\<lambda>r. (cr_gloriafood_id r, cr_sort_order r)) (rows (menu_categories w))"

definition itemOrder :: "world \<Rightarrow> (int \<times> nat) list" where
  "itemOrder w = map (\<lambda>r. (ir_gloriafood_id r, ir_sort_order r)) (rows (menu_items w))"

definition sizeOrder :: "world \<Rightarrow> (int \<times> nat) list" where
  "sizeOrder w = map (\<lambda>r. (sr_gloriafood_id r, sr_sort_order r)) (rows (menu_item_sizes w))"

definition optionOrder :: "world \<Rightarrow> (int \<times> nat) list" where
  "optionOrder w = map (\<lambda>r. (pr_gloriafood_id r, pr_sort_order r)) (rows (menu_options w))"

text \<open>The external ids of the stored option groups.\<close>

definition groupKeys :: "world \<Rightarrow> int list" where
  "groupKeys w = map gr_gloriafood_id (rows (menu_option_groups w))"

text \<open>
  The option groups a snapshot refers to, in the order in which syncMenu reaches them:
  for each item its sizes' groups and then its own, and after the items of a category the
  category's groups. The flag says whether the reference gets an association row (it comes
  from an item or a size).
\<close>

type_synonym group_ref = "MenuOptionGroup \<times> bool"

definition sizeRefs :: "MenuItemSize \<Rightarrow> group_ref list" where
  "sizeRefs sz = map (\<lambda>g. (g, True)) (listed (ms_groups sz))"

definition itemRefs :: "MenuItem \<Rightarrow> group_ref list" where
  "itemRefs item =
     concat (map sizeRefs (listed (mi_sizes item))) @ map (\<lambda>g. (g, True)) (listed (mi_groups item))"

definition categoryRefs :: "MenuCategory \<Rightarrow> group_ref list" where
  "categoryRefs c =
     concat (map itemRefs (mc_items c)) @ map (\<lambda>g. (g, False)) (listed (mc_groups c))"

definition menuRefs :: "GloriaFoodMenuResponse \<Rightarrow> group_ref list" where
  "menuRefs m = concat (map categoryRefs (m_categories m))"

definition menuGroups :: "GloriaFoodMenuResponse \<Rightarrow> MenuOptionGroup list" where
  "menuGroups m = map fst (menuRefs m)"

text \<open>
  The references that find no group row: the first reference to each external id that is
  not among the \<open>known\<close> ones.
\<close>

fun created_groups :: "int list \<Rightarrow> MenuOptionGroup list \<Rightarrow> MenuOptionGroup list" where
  "created_groups known [] = []"
| "created_groups known (g # gs) =
     (if mg_id g \<in> set known then created_groups known gs
      else g # created_groups (mg_id g # known) gs)"

text \<open>What one processOptionGroup call does to the group keys and the option order.\<close>

definition group_step :: "MenuOptionGroup \<Rightarrow> int list \<times> (int \<times> nat) list \<Rightarrow> int list \<times> (int \<times> nat) list" where
  "group_step g s =
     (if mg_id g \<in> set (fst s) then s
      else (fst s @ [mg_id g], snd s @ numbered mo_id (mg_options g)))"

subsection \<open>Vocabulary of the menu tree\<close>

text \<open>
  The tree of the stored menu rows: what the queries of getFullMenu select from the store
  \<open>w\<close>, as functions of the store.
\<close>

definition storedGroup :: "world \<Rightarrow> option_group_row \<Rightarrow> group_view" where
  "storedGroup w g =
     \<lparr>gv_group = g,
      gv_options = sort_key pr_sort_order
        (filter (\<lambda>r. pr_option_group_id r = gr_id g) (rows (menu_options w)))\<rparr>"

definition storedGroups :: "world \<Rightarrow> nat \<Rightarrow> group_view list" where
  "storedGroups w itemId =
     map (storedGroup w)
       (concat (map (\<lambda>a. filter (\<lambda>g. gr_id g = ar_option_group_id a)
                         (rows (menu_option_groups w)))
          (filter (\<lambda>a. ar_item_id a = Some itemId) (rows (menu_item_option_groups w)))))"

definition storedItem :: "world \<Rightarrow> item_row \<Rightarrow> item_view" where
  "storedItem w item =
     \<lparr>iv_item = item,
      iv_sizes = sort_key sr_sort_order
        (filter (\<lambda>r. sr_item_id r = ir_id item) (rows (menu_item_sizes w))),
      iv_groups = storedGroups w (ir_id item)\<rparr>"

definition storedCategory :: "world \<Rightarrow> category_row \<Rightarrow> category_view" where
  "storedCategory w cat =
     \<lparr>cv_category = cat,
      cv_items = map (storedItem w)
        (sort_key ir_sort_order
           (filter (\<lambda>r. ir_category_id r = cr_id cat) (rows (menu_items w))))\<rparr>"

definition storedMenu :: "world \<Rightarrow> cached option" where
  "storedMenu w =
     (case rows (menus w) of
        [] \<Rightarrow> None
      | m # _ \<Rightarrow>
          Some (CachedTree \<lparr>fm_menu = m,
            fm_categories = map (storedCategory w)
              (sort_key cr_sort_order
                 (filter (\<lambda>r. cr_menu_id r = mn_id m) (rows (menu_categories w))))\<rparr>))"

text \<open>
  \<open>later w0 w\<close>: the store \<open>w\<close> is \<open>w0\<close> some statements later, with nothing written.
\<close>

definition later :: "world \<Rightarrow> world \<Rightarrow> bool" where
  "later w0 w = (\<exists>n. w = w0\<lparr>faults := drop n (faults w0)\<rparr>)"

text \<open>A cache miss of getFullMenu: no entry, or an entry with the empty text.\<close>

definition menu_miss :: "world \<Rightarrow> bool" where
  "menu_miss w = (case cache w ''menu:full'' of None \<Rightarrow> True | Some v \<Rightarrow> \<not> truthy_text v)"

text \<open>The store with the value that getFullMenu built put under the key.\<close>

definition with_menu_cached :: "world \<Rightarrow> cached option \<Rightarrow> world" where
  "with_menu_cached w res =
     (case res of None \<Rightarrow> w | Some t \<Rightarrow> w\<lparr>cache := (cache w)(''menu:full'' \<mapsto> t)\<rparr>)"


section \<open>Example stores and payloads\<close>

definition empty_table :: "'r table" where
  "empty_table = \<lparr>rows = [], seq = 0\<rparr>"

definition empty_store :: world where
  "empty_store =
     \<lparr>restaurants = empty_table, clients = empty_table, client_addresses = empty_table,
      orders = empty_table, order_items = empty_table, order_item_options = empty_table,
      order_coupons = empty_table, order_taxes = empty_table, billing_details = empty_table,
      menus = empty_table, menu_categories = empty_table, menu_items = empty_table,
      menu_item_sizes = empty_table, menu_option_groups = empty_table,
      menu_item_option_groups = empty_table, menu_options = empty_table,
      webhook_logs = empty_table, cache = Map.empty, foreign_keys = False, faults = []\<rparr>"

text \<open>The order of the specification's scenario: a pickup order of one burger.\<close>

definition burger :: OrderItem where
  "burger = \<lparr>oi_id = 1, oi_name = ''Burger'', oi_total_item_price = 12.5, oi_price = 12.5,
     oi_quantity = 1, oi_instructions = None, oi_type = ''item'', oi_type_id = None,
     oi_coupon = None, oi_options = None\<rparr>"

definition order555 :: GloriaFoodOrder where
  "order555 = \<lparr>o_id = 555, o_status = ''accepted'', o_type = Pickup,
     o_restaurant_key = ''key-A'', o_restaurant_id = 1, o_restaurant_name = ''Diner'',
     o_restaurant_timezone = None, o_pos_system_id = Some 0, o_currency = ''USD'',
     o_total_price = 12.5, o_tax_list = None, o_coupons = None,
     o_pickup_payment = Some ''CASH'', o_delivery_payment = None, o_payment_status = None,
     o_items = [burger], o_client_id = Some 7, o_user_id = None,
     o_client_first_name = Val ''Ann'', o_client_last_name = Val ''Lee'',
     o_client_email = Val ''ann@example.org'', o_client_phone = Null,
     o_client_address = Undefined, o_client_address_parts = None,
     o_client_order_count = Some 3, o_client_marketing_consent = Some True,
     o_latitude = None, o_longitude = None, o_delivery_zone_name = None,
     o_billing_details = None\<rparr>"

text \<open>
  A menu snapshot: two categories; both items of the first reference the option group 9,
  and so does one size of the first item.
\<close>

definition toppings :: MenuOptionGroup where
  "toppings = \<lparr>mg_id = 9, mg_name = ''Toppings'', mg_required = False,
     mg_allow_quantity = True, mg_force_min = 0, mg_force_max = 2,
     mg_options =
       [\<lparr>mo_id = 91, mo_name = ''Cheese'', mo_price = 1, mo_default = False,
          mo_kitchen_internal_name = None\<rparr>,
        \<lparr>mo_id = 92, mo_name = ''Bacon'', mo_price = 2, mo_default = False,
          mo_kitchen_internal_name = None\<rparr>]\<rparr>"

definition demo_item :: "int \<Rightarrow> string \<Rightarrow> MenuItemSize list option \<Rightarrow> MenuOptionGroup list option \<Rightarrow> MenuItem" where
  "demo_item i n sizes groups = \<lparr>mi_id = i, mi_name = n, mi_description = None, mi_price = 5,
     mi_active = True, mi_tags = None, mi_sizes = sizes, mi_groups = groups,
     mi_kitchen_internal_name = None, mi_order_types = None, mi_allergens = None,
     mi_nutritional_values = None\<rparr>"

definition demo_menu :: GloriaFoodMenuResponse where
  "demo_menu = \<lparr>m_id = 1, m_restaurant_id = 5, m_active = True, m_currency = ''USD'',
     m_categories =
       [\<lparr>mc_id = 10, mc_name = ''Burgers'', mc_description = None, mc_active = True,
          mc_items =
            [demo_item 100 ''Burger''
               (Some [\<lparr>ms_id = 1000, ms_name = ''Small'', ms_price = 0, ms_default = True,
                         ms_groups = None\<rparr>,
                      \<lparr>ms_id = 1001, ms_name = ''Large'', ms_price = 2, ms_default = False,
                         ms_groups = Some [toppings]\<rparr>])
               (Some [toppings]),
             demo_item 101 ''Wrap'' None (Some [toppings])],
          mc_groups = None\<rparr>,
        \<lparr>mc_id = 11, mc_name = ''Drinks'', mc_description = None, mc_active = True,
          mc_items = [demo_item 110 ''Cola'' None None], mc_groups = None\<rparr>]\<rparr>"

text \<open>The store after a first sync of this snapshot.\<close>

definition demo_store :: world where
  "demo_store = snd (syncMenu (Inr demo_menu) empty_store)"

text \<open>The store after the first ingestion of that order, and the same order from another POS system.\<close>

definition store555 :: world where
  "store555 = snd (processOrder order555 empty_store)"

definition order555_pos3 :: GloriaFoodOrder where
  "order555_pos3 = order555\<lparr>o_pos_system_id := Some 3\<rparr>"

text \<open>
  A later order of the same client that leaves out email, order count and marketing
  consent (phone is null, as in the first order); and the client row that the first order
  stored.
\<close>

definition order556 :: GloriaFoodOrder where
  "order556 = order555\<lparr>o_id := 556, o_client_email := Undefined, o_client_order_count := None,
     o_client_marketing_consent := None\<rparr>"

definition ann :: client_row where
  "ann = \<lparr>cl_id = 1, cl_gloriafood_id = 7, cl_first_name = Some ''Ann'',
     cl_last_name = Some ''Lee'', cl_email = Some ''ann@example.org'', cl_phone = None,
     cl_order_count = 3, cl_marketing_consent = True\<rparr>"

text \<open>The same store once the cache entry has expired.\<close>

definition expired_store :: world where
  "expired_store = demo_store\<lparr>cache := Map.empty\<rparr>"

text \<open>
  A new client ordering under a second key of the restaurant with external id 1; and a
  store with a dashboard cache entry that rejects its seventh statement.
\<close>

definition order777 :: GloriaFoodOrder where
  "order777 = order555\<lparr>o_id := 777, o_client_id := Some 8, o_restaurant_key := ''key-B''\<rparr>"

definition faulty_store :: world where
  "faulty_store = empty_store\<lparr>cache := [''dashboard:stats'' \<mapsto> CachedJson ''{}''],
     faults := replicate 6 False @ [True]\<rparr>"



text \<open>
  The synced store, its cache entry expired, rejecting the statement that comes after \<open>n\<close>
  accepted ones.
\<close>

definition resync_store :: "nat \<Rightarrow> world" where
  "resync_store n = expired_store\<lparr>faults := replicate n False @ [True]\<rparr>"

text \<open>A later snapshot with one category and one item, whose option group lists its options in reverse.\<close>

definition reordered_menu :: GloriaFoodMenuResponse where
  "reordered_menu = demo_menu\<lparr>m_categories :=
     [\<lparr>mc_id = 10, mc_name = ''Burgers'', mc_description = None, mc_active = True,
       mc_items = [demo_item 101 ''Wrap'' None
                     (Some [toppings\<lparr>mg_options := rev (mg_options toppings)\<rparr>])],
       mc_groups = None\<rparr>]\<rparr>"

text \<open>
  An order of the same client that gives all four name and contact fields and leaves out
  the marketing consent.
\<close>

definition order557 :: GloriaFoodOrder where
  "order557 = order555\<lparr>o_id := 557, o_client_phone := Val ''555-0100'',
     o_client_marketing_consent := None\<rparr>"

text \<open>A store in which the deployment's foreign keys are enforced and restaurant 5 exists.\<close>

definition d1_store :: world where
  "d1_store = empty_store\<lparr>foreign_keys := True,
     restaurants := \<lparr>rows = [\<lparr>rs_id = 5, rs_gloriafood_id = 1, rs_restaurant_key = ''key-A'',
        rs_name = ''Diner'', rs_timezone = ''UTC'', rs_currency = ''USD''\<rparr>], seq = 5\<rparr>\<rparr>"

definition d1_synced :: world where
  "d1_synced = snd (syncMenu (Inr demo_menu) d1_store)"

definition d1_expired :: world where
  "d1_expired = d1_synced\<lparr>cache := Map.empty\<rparr>"


text \<open>
  An order of two items, the first with one option, and one coupon; a store with a
  dashboard cache entry that rejects its ninth statement; and that store as the INSERT of
  the order row leaves it.
\<close>

definition cheese :: OrderItemOption where
  "cheese = \<lparr>oio_id = 91, oio_name = ''Cheese'', oio_price = 1,
     oio_group_name = Some ''Toppings'', oio_quantity = 1, oio_type = ''option'',
     oio_type_id = None, oio_kitchen_internal_name = None\<rparr>"

definition order888 :: GloriaFoodOrder where
  "order888 = order555\<lparr>o_id := 888,
     o_items := [burger\<lparr>oi_options := Some [cheese]\<rparr>, burger\<lparr>oi_id := 2, oi_name := ''Fries''\<rparr>],
     o_coupons := Some [''TEN'']\<rparr>"

definition broken_store :: world where
  "broken_store = empty_store\<lparr>cache := [''dashboard:stats'' \<mapsto> CachedJson ''{}''],
     faults := replicate 8 False @ [True]\<rparr>"

definition order_written :: world where
  "order_written =
     snd (insertOrder order888 (Some 1) 1
       (snd (getOrCreateRestaurant order888
         (snd (getOrCreateClient order888 (snd (findExistingOrder order888 broken_store)))))))"

section \<open>Proofs\<close>

subsection \<open>Rules for the triples\<close>

lemma hoareI:
  assumes "\<And>w a w'. P w \<Longrightarrow> m w = (Inr a, w') \<Longrightarrow> Q a w'"
    and "\<And>w e w'. P w \<Longrightarrow> m w = (Inl e, w') \<Longrightarrow> E e w'"
  shows "hoare P m Q E"
  unfolding hoare_def using assms by (auto split: sum.splits)

lemma hoareD_Inr: "hoare P m Q E \<Longrightarrow> P w \<Longrightarrow> m w = (Inr a, w') \<Longrightarrow> Q a w'"
  unfolding hoare_def by fastforce

lemma hoareD_Inl: "hoare P m Q E \<Longrightarrow> P w \<Longrightarrow> m w = (Inl e, w') \<Longrightarrow> E e w'"
  unfolding hoare_def by fastforce

lemma hoare_weaken:
  assumes "hoare P' m Q' E'" "\<And>w. P w \<Longrightarrow> P' w" "\<And>a w. Q' a w \<Longrightarrow> Q a w" "\<And>e w. E' e w \<Longrightarrow> E e w"
  shows "hoare P m Q E"
  using assms unfolding hoare_def by (fastforce split: sum.splits)

lemma hoare_pre:
  assumes "hoare P' m Q E" "\<And>w. P w \<Longrightarrow> P' w"
  shows "hoare P m Q E"
  using assms unfolding hoare_def by blast

lemma hoare_ret: "(\<And>w. P w \<Longrightarrow> Q a w) \<Longrightarrow> hoare P (ret a) Q E"
  unfolding hoare_def ret_def by simp

lemma hoare_throw: "(\<And>w. P w \<Longrightarrow> E e w) \<Longrightarrow> hoare P (throw e) Q E"
  unfolding hoare_def throw_def by simp

lemma hoare_bind:
  assumes "hoare P m R E" "\<And>a. hoare (R a) (f a) Q E"
  shows "hoare P (bind m f) Q E"
  unfolding hoare_def
proof (intro allI impI)
  fix w r w' assume P: "P w" and run: "bind m f w = (r, w')"
  obtain r1 w1 where m: "m w = (r1, w1)" by (cases "m w")
  show "case r of Inr a \<Rightarrow> Q a w' | Inl e \<Rightarrow> E e w'"
  proof (cases r1)
    case (Inl e)
    with m run have "r = Inl e" "w' = w1" by (simp_all add: bind_def)
    moreover from assms(1) P m Inl have "E e w1" by (simp add: hoareD_Inl)
    ultimately show ?thesis by simp
  next
    case (Inr a)
    with m run have "f a w1 = (r, w')" by (simp add: bind_def)
    moreover from assms(1) P m Inr have "R a w1" by (simp add: hoareD_Inr)
    ultimately show ?thesis using assms(2)[of a] unfolding hoare_def by blast
  qed
qed

lemma hoare_for_each:
  assumes "\<And>x. x \<in> set xs \<Longrightarrow> hoare I (f x) (\<lambda>_. I) E"
  shows "hoare I (for_each f xs) (\<lambda>_. I) E"
  using assms
proof (induction xs)
  case Nil
  show ?case by (simp add: hoare_ret)
next
  case (Cons x xs)
  show ?case
    by (simp, rule hoare_bind[where R = "\<lambda>_. I"]) (simp_all add: Cons)
qed

lemma hoare_fold_io:
  assumes "\<And>x b. x \<in> set xs \<Longrightarrow> hoare I (f x b) (\<lambda>_. I) E"
  shows "hoare I (fold_io f xs b) (\<lambda>_. I) E"
  using assms
proof (induction xs arbitrary: b)
  case Nil
  show ?case by (simp add: hoare_ret)
next
  case (Cons x xs)
  show ?case
    by (simp, rule hoare_bind[where R = "\<lambda>_. I"]) (simp_all add: Cons)
qed

lemma hoare_map_io:
  assumes "\<And>x. x \<in> set xs \<Longrightarrow> hoare I (f x) (\<lambda>_. I) E"
  shows "hoare I (map_io f xs) (\<lambda>_. I) E"
  using assms
proof (induction xs)
  case Nil
  show ?case by (simp add: hoare_ret)
next
  case (Cons x xs)
  show ?case
    apply simp
    apply (rule hoare_bind[where R = "\<lambda>_. I"])
     apply (simp add: Cons)
    apply (rule hoare_bind[where R = "\<lambda>_. I"])
     apply (simp add: Cons)
    apply (simp add: hoare_ret)
    done
qed

lemma hoare_stmt:
  assumes "\<And>w. P w \<Longrightarrow> rejected w \<Longrightarrow> E StoreError (advance w)"
    and "\<And>w e. P w \<Longrightarrow> \<not> rejected w \<Longrightarrow> q (advance w) = Inl e \<Longrightarrow> E e (advance w)"
    and "\<And>w a w'. P w \<Longrightarrow> \<not> rejected w \<Longrightarrow> q (advance w) = Inr (a, w') \<Longrightarrow> Q a w'"
  shows "hoare P (stmt q) Q E"
  unfolding hoare_def stmt_def using assms by (auto split: sum.splits if_splits)

text \<open>An invariant of the store that no statement's bookkeeping disturbs.\<close>

lemma hoare_query:
  assumes "\<And>w. I w \<Longrightarrow> I (advance w)" and "\<And>w. I w \<Longrightarrow> Q (f w) w"  and "\<And>w e. I w \<Longrightarrow> E e w"
  shows "hoare I (query f) (\<lambda>a w. I w \<and> Q a w) E"
  unfolding query_def by (rule hoare_stmt) (auto simp: assms)

lemma hoare_exec:
  assumes "\<And>w. I w \<Longrightarrow> I (advance w)" and "\<And>w. I w \<Longrightarrow> I (f w)"  and "\<And>w e. I w \<Longrightarrow> E e w"
  shows "hoare I (exec f) (\<lambda>_. I) E"
  unfolding exec_def by (rule hoare_stmt) (auto simp: assms)

lemma hoare_insert_into:
  assumes "\<And>w. I w \<Longrightarrow> I (advance w)" and "\<And>w. I w \<Longrightarrow> I (upd (insert_row rid mk) w)"  and "\<And>w e. I w \<Longrightarrow> E e w"
  shows "hoare I (insert_into tbl upd rid uniq mk) (\<lambda>_. I) E"
  unfolding insert_into_def by (rule hoare_stmt) (auto simp: assms split: option.splits)

lemma advance_eq: "advance w = w\<lparr>faults := tl (faults w)\<rparr>"
  by (simp add: advance_def)

lemma keepsD: "keeps I m \<Longrightarrow> I w \<Longrightarrow> m w = (r, w') \<Longrightarrow> I w'"
  unfolding keeps_def hoare_def by (fastforce split: sum.splits)

lemma keeps_hoare: "keeps I m \<Longrightarrow> hoare I m (\<lambda>_. I) (\<lambda>_. I)"
  by (simp add: keeps_def)

lemma keeps_ret: "keeps I (ret a)"
  unfolding keeps_def by (rule hoare_ret)

lemma keeps_throw: "keeps I (throw e)"
  unfolding keeps_def by (rule hoare_throw)

lemma keeps_bind: "keeps I m \<Longrightarrow> (\<And>a. keeps I (f a)) \<Longrightarrow> keeps I (bind m f)"
  unfolding keeps_def by (rule hoare_bind)

lemma keeps_for_each: "(\<And>x. keeps I (f x)) \<Longrightarrow> keeps I (for_each f xs)"
  unfolding keeps_def by (rule hoare_for_each)

lemma keeps_fold_io: "(\<And>x b. keeps I (f x b)) \<Longrightarrow> keeps I (fold_io f xs b)"
  unfolding keeps_def by (rule hoare_fold_io)

lemma keeps_map_io: "(\<And>x. keeps I (f x)) \<Longrightarrow> keeps I (map_io f xs)"
  unfolding keeps_def by (rule hoare_map_io)

lemma keeps_stmt:
  assumes "\<And>w. I w \<Longrightarrow> I (advance w)" and "\<And>w a w'. I w \<Longrightarrow> q w = Inr (a, w') \<Longrightarrow> I w'"
  shows "keeps I (stmt q)"
  unfolding keeps_def by (rule hoare_stmt) (auto intro: assms)

lemma keeps_query: "(\<And>w. I w \<Longrightarrow> I (advance w)) \<Longrightarrow> keeps I (query f)"
  unfolding query_def by (rule keeps_stmt) auto

lemma keeps_exec:
  "(\<And>w. I w \<Longrightarrow> I (advance w)) \<Longrightarrow> (\<And>w. I w \<Longrightarrow> I (f w)) \<Longrightarrow> keeps I (exec f)"
  unfolding exec_def by (rule keeps_stmt) auto

lemma keeps_insert_into:
  "(\<And>w. I w \<Longrightarrow> I (advance w)) \<Longrightarrow> (\<And>w. I w \<Longrightarrow> I (upd (insert_row rid mk) w)) \<Longrightarrow>
   keeps I (insert_into tbl upd rid uniq mk)"
  unfolding insert_into_def by (rule keeps_stmt) (auto split: option.splits)

lemma keeps_cache_get: "keeps I (cache_get k)"
  unfolding keeps_def hoare_def cache_get_def by simp

lemma keeps_cache_put: "(\<And>w. I w \<Longrightarrow> I (w\<lparr>cache := (cache w)(k \<mapsto> v)\<rparr>)) \<Longrightarrow> keeps I (cache_put k v)"
  unfolding keeps_def hoare_def cache_put_def by simp

lemma keeps_cache_delete: "(\<And>w. I w \<Longrightarrow> I (w\<lparr>cache := (cache w)(k := None)\<rparr>)) \<Longrightarrow> keeps I (cache_delete k)"
  unfolding keeps_def hoare_def cache_delete_def by simp

lemma keeps_case_option:
  "keeps I a \<Longrightarrow> (\<And>x. keeps I (f x)) \<Longrightarrow> keeps I (case opt of None \<Rightarrow> a | Some x \<Rightarrow> f x)"
  by (cases opt) simp_all

lemma keeps_if: "keeps I a \<Longrightarrow> keeps I b \<Longrightarrow> keeps I (if c then a else b)"
  by simp

lemmas keeps_intros =
  keeps_bind keeps_ret keeps_throw keeps_for_each keeps_fold_io keeps_map_io keeps_query
  keeps_exec keeps_insert_into keeps_cache_get keeps_cache_put keeps_cache_delete
  keeps_case_option keeps_if

lemma fold_max_ge: "a \<le> fold max xs (a::nat)"
  by (induction xs arbitrary: a) (auto intro: order_trans[OF max.cobounded2])

lemma fold_max_mem: "x \<in> set xs \<Longrightarrow> x \<le> fold max xs (a::nat)"
proof (induction xs arbitrary: a)
  case Nil
  then show ?case by simp
next
  case (Cons y ys)
  show ?case
  proof (cases "x = y")
    case True
    have "y \<le> max y a" by simp
    also have "\<dots> \<le> fold max ys (max y a)" by (rule fold_max_ge)
    finally show ?thesis using True by simp
  next
    case False
    with Cons show ?thesis by simp
  qed
qed

lemma next_rowid_fresh: "r \<in> set (rows t) \<Longrightarrow> rid r < next_rowid rid t"
  unfolding next_rowid_def using fold_max_mem[of "rid r" "map rid (rows t)" "seq t"] by auto

lemma next_rowid_pos: "0 < next_rowid rid t"
  by (simp add: next_rowid_def)

lemma find_unique:
  "distinct (map k xs) \<Longrightarrow> x \<in> set xs \<Longrightarrow> find (\<lambda>r. k r = k x) xs = Some x"
  by (induction xs) (auto simp: image_iff)


lemma hoare_insert_into_post:
  assumes "\<And>w. tbl (advance w) = tbl w" and "\<And>f w. tbl (upd f w) = f (tbl w)"
  shows "hoare (\<lambda>w. tbl w = T) (insert_into tbl upd rid uniq mk)
     (\<lambda>i w. i = next_rowid rid T \<and> tbl w = insert_row rid mk T \<and>
            find (\<lambda>(c, p). list_ex p (rows T)) uniq = None)
     (\<lambda>_ w. tbl w = T)"
  unfolding insert_into_def
  by (rule hoare_stmt) (auto simp: assms split: option.splits)

lemma hoare_keeps_bind:
  assumes "keeps I m" and "\<And>a. hoare I (f a) Q E" and "\<And>e w. I w \<Longrightarrow> E e w"
  shows "hoare I (bind m f) Q E"
proof (rule hoare_bind[where R = "\<lambda>_. I"])
  show "hoare I m (\<lambda>_. I) E"
    using assms(1) unfolding keeps_def by (rule hoare_weaken) (auto intro: assms(3))
qed (rule assms(2))

lemma keeps_conj_const: "(C \<Longrightarrow> keeps I m) \<Longrightarrow> keeps (\<lambda>w. C \<and> I w) m"
  unfolding keeps_def hoare_def by (auto split: sum.splits)

lemma hoare_assume: "(C \<Longrightarrow> hoare P m Q E) \<Longrightarrow> hoare (\<lambda>w. C \<and> P w) m Q E"
  unfolding hoare_def by blast

lemma hoare_query_post:
  assumes "\<And>w. tbl (advance w) = tbl w"
  shows "hoare (\<lambda>w. tbl w = T) (query (\<lambda>w. g (tbl w)))
     (\<lambda>a w. a = g T \<and> tbl w = T) (\<lambda>_ w. tbl w = T)"
  unfolding query_def
  by (rule hoare_stmt) (auto simp: assms)

lemma hoare_exec_post:
  assumes "\<And>w. tbl (advance w) = tbl w" and "\<And>w. tbl (f w) = g (tbl w)"
  shows "hoare (\<lambda>w. tbl w = T) (exec f) (\<lambda>_ w. tbl w = g T) (\<lambda>_ w. tbl w = T)"
  unfolding exec_def
  by (rule hoare_stmt) (auto simp: assms)

lemma update_where_one:
  assumes "distinct (map k (rows t))" and "c \<in> set (rows t)"
  shows "rows (update_where (\<lambda>r. k r = k c) f t) =
         map (\<lambda>r. if r = c then f c else r) (rows t)"
proof -
  from assms have "inj_on k (set (rows t))" by (simp add: distinct_map)
  with assms(2) have "\<And>r. r \<in> set (rows t) \<Longrightarrow> (k r = k c) = (r = c)"
    by (auto dest: inj_onD)
  then show ?thesis by (auto simp: update_where_def)
qed

lemma bind_ret: "bind (ret a) f = f a"
  by (rule ext) (simp add: bind_def ret_def)

lemma bind_throw: "bind (throw e) f = throw e"
  by (rule ext) (simp add: bind_def throw_def)

lemma bind_then_throw: "bind m (\<lambda>_. throw e) w \<noteq> (Inr r, w')"
  by (auto simp: bind_def throw_def split: prod.splits sum.splits)

lemma hoare_any: "hoare P m (\<lambda>_ _. True) (\<lambda>_ _. True)"
  by (simp add: hoare_def split: sum.splits)

lemma hoare_map_io_post:
  assumes "\<And>x. hoare I (f x) (\<lambda>y w. I w \<and> Q x y) E"
  shows "hoare I (map_io f xs) (\<lambda>ys w. I w \<and> list_all2 Q xs ys) E"
proof (induction xs)
  case Nil
  show ?case by (simp add: hoare_ret)
next
  case (Cons x xs)
  show ?case
    unfolding map_io.simps
  proof (rule hoare_bind[OF assms[of x]])
    fix y
    show "hoare (\<lambda>w. I w \<and> Q x y) (bind (map_io f xs) (\<lambda>ys. ret (y # ys)))
       (\<lambda>ys w. I w \<and> list_all2 Q (x # xs) ys) E"
    proof (rule hoare_assume[of "Q x y" I, unfolded conj_commute[of "Q x y"]])
      assume q: "Q x y"
      show "hoare I (bind (map_io f xs) (\<lambda>ys. ret (y # ys)))
         (\<lambda>ys w. I w \<and> list_all2 Q (x # xs) ys) E"
        by (rule hoare_bind[OF Cons]) (rule hoare_ret, simp add: q)
    qed
  qed
qed

lemma bind_cache_get: "bind (cache_get k) f w = f (cache w k) w"
  by (simp add: bind_def cache_get_def)

lemma hoare_query_const:
  assumes "\<And>w. I w \<Longrightarrow> I (advance w)" and "\<And>w. I w \<Longrightarrow> f w = c"
  shows "hoare I (query f) (\<lambda>a w. a = c \<and> I w) (\<lambda>_ _. True)"
  unfolding query_def
  by (rule hoare_stmt) (auto simp: assms)

lemma list_all2_map_eq: "list_all2 (\<lambda>x y. g y = x) xs ys \<Longrightarrow> map g ys = xs"
  by (induction rule: list_all2_induct) simp_all

lemma hoare_conj:
  "hoare P m Q1 E1 \<Longrightarrow> hoare P m Q2 E2 \<Longrightarrow>
   hoare P m (\<lambda>a w. Q1 a w \<and> Q2 a w) (\<lambda>e w. E1 e w \<and> E2 e w)"
  unfolding hoare_def by (auto split: sum.splits)

lemma hoare_insert_into_rows:
  assumes "\<And>w. tbl (advance w) = tbl w" and "\<And>f w. tbl (upd f w) = f (tbl w)"
  shows "hoare (\<lambda>w. rows (tbl w) = R) (insert_into tbl upd rid uniq mk)
     (\<lambda>i w. rows (tbl w) = R @ [mk i] \<and> (\<forall>r\<in>set R. rid r < i) \<and> 0 < i)
     (\<lambda>_ w. rows (tbl w) = R)"
  unfolding insert_into_def
  by (rule hoare_stmt)
     (auto simp: assms insert_row_def next_rowid_fresh next_rowid_pos split: option.splits)

text \<open>A loop whose every round appends a segment of rows to one table.\<close>

lemma hoare_for_each_segments:
  assumes "\<And>x R. hoare (\<lambda>w. rows (tbl w) = R) (f x)
             (\<lambda>_ w. \<exists>new. rows (tbl w) = R @ new \<and> Q x new) (\<lambda>_ _. True)"
  shows "hoare (\<lambda>w. rows (tbl w) = R) (for_each f xs)
     (\<lambda>_ w. \<exists>news. rows (tbl w) = R @ concat news \<and> list_all2 Q xs news) (\<lambda>_ _. True)"
proof (induction xs arbitrary: R)
  case Nil
  show ?case by (simp add: hoare_ret)
next
  case (Cons x xs)
  show ?case
    unfolding for_each.simps
  proof (rule hoare_bind[OF assms[of R x]], rule hoareI)
    fix u :: unit and w a w'
    assume "\<exists>new. rows (tbl w) = R @ new \<and> Q x new"
      and run: "for_each f xs w = (Inr a, w')"
    then obtain new where new: "rows (tbl w) = R @ new" "Q x new" by blast
    from hoareD_Inr[OF Cons new(1) run]
    obtain news where "rows (tbl w') = (R @ new) @ concat news" "list_all2 Q xs news" by blast
    with new(2) have "rows (tbl w') = R @ concat (new # news) \<and> list_all2 Q (x # xs) (new # news)"
      by simp
    then show "\<exists>news. rows (tbl w') = R @ concat news \<and> list_all2 Q (x # xs) news" by blast
  qed simp
qed

lemma hoare_fold_io_segments:
  assumes "\<And>x b R. hoare (\<lambda>w. rows (tbl w) = R) (f x b)
             (\<lambda>_ w. \<exists>new. rows (tbl w) = R @ new \<and> Q x new) (\<lambda>_ _. True)"
  shows "hoare (\<lambda>w. rows (tbl w) = R) (fold_io f xs b)
     (\<lambda>_ w. \<exists>news. rows (tbl w) = R @ concat news \<and> list_all2 Q xs news) (\<lambda>_ _. True)"
proof (induction xs arbitrary: R b)
  case Nil
  show ?case by (simp add: hoare_ret)
next
  case (Cons x xs)
  show ?case
    unfolding fold_io.simps
  proof (rule hoare_bind[OF assms[of R x b]], rule hoareI)
    fix b' w a w'
    assume "\<exists>new. rows (tbl w) = R @ new \<and> Q x new"
      and run: "fold_io f xs b' w = (Inr a, w')"
    then obtain new where new: "rows (tbl w) = R @ new" "Q x new" by blast
    from hoareD_Inr[OF Cons new(1) run]
    obtain news where "rows (tbl w') = (R @ new) @ concat news" "list_all2 Q xs news" by blast
    with new(2) have "rows (tbl w') = R @ concat (new # news) \<and> list_all2 Q (x # xs) (new # news)"
      by simp
    then show "\<exists>news. rows (tbl w') = R @ concat news \<and> list_all2 Q (x # xs) news" by blast
  qed simp
qed

lemma list_all2_singletons:
  "list_all2 (\<lambda>x new. new = [g x]) xs news \<Longrightarrow> concat news = map g xs"
  by (induction rule: list_all2_induct) simp_all

lemma list_all2_shape:
  "list_all2 (\<lambda>x new. map h new = g x) xs news \<Longrightarrow> map h (concat news) = concat (map g xs)"
  by (induction rule: list_all2_induct) simp_all

lemma keeps_weaken: "keeps I m \<Longrightarrow> hoare I m (\<lambda>_. I) (\<lambda>_ _. True)"
  unfolding keeps_def hoare_def by (auto split: sum.splits)

subsection \<open>Appending loops\<close>

lemma extends_iff: "extends xs ys = (\<exists>new. ys = xs @ new)"
  unfolding extends_def by (metis append_eq_conv_conj append_take_drop_id)

lemma grows_iff: "grows t t' = (\<exists>new. rows t' = rows t @ new)"
  by (simp add: grows_def extends_iff)

lemma hoare_case_option:
  "hoare P a Q E \<Longrightarrow> (\<And>x. hoare P (f x) Q E) \<Longrightarrow>
   hoare P (case opt of None \<Rightarrow> a | Some x \<Rightarrow> f x) Q E"
  by (cases opt) simp_all

lemma hoare_insert_into_shape:
  assumes "\<And>w. tbl (advance w) = tbl w" and "\<And>f w. tbl (upd f w) = f (tbl w)"
    and "\<And>i. sh (mk i) = s"
  shows "hoare (\<lambda>w. map sh (rows (tbl w)) = S) (insert_into tbl upd rid uniq mk)
     (\<lambda>_ w. map sh (rows (tbl w)) = S @ [s]) (\<lambda>_ _. True)"
  unfolding insert_into_def
  by (rule hoare_stmt) (auto simp: assms insert_row_def split: option.splits)

lemma hoare_for_each_view:
  assumes "\<And>x S. hoare (\<lambda>w. v w = S) (f x) (\<lambda>_ w. v w = S @ g x) (\<lambda>_ _. True)"
  shows "hoare (\<lambda>w. v w = S) (for_each f xs) (\<lambda>_ w. v w = S @ concat (map g xs)) (\<lambda>_ _. True)"
proof (induction xs arbitrary: S)
  case Nil
  show ?case by (simp add: hoare_ret)
next
  case (Cons x xs)
  have "hoare (\<lambda>w. v w = S) (bind (f x) (\<lambda>_. for_each f xs))
     (\<lambda>_ w. v w = (S @ g x) @ concat (map g xs)) (\<lambda>_ _. True)"
    by (rule hoare_bind[OF assms Cons])
  then show ?case by simp
qed

lemma hoare_fold_io_view:
  assumes "\<And>x b S. hoare (\<lambda>w. v w = S) (f x b) (\<lambda>_ w. v w = S @ g x) (\<lambda>_ _. True)"
  shows "hoare (\<lambda>w. v w = S) (fold_io f xs b) (\<lambda>_ w. v w = S @ concat (map g xs)) (\<lambda>_ _. True)"
proof (induction xs arbitrary: S b)
  case Nil
  show ?case by (simp add: hoare_ret)
next
  case (Cons x xs)
  have "hoare (\<lambda>w. v w = S) (bind (f x b) (fold_io f xs))
     (\<lambda>_ w. v w = (S @ g x) @ concat (map g xs)) (\<lambda>_ _. True)"
    by (rule hoare_bind[OF assms Cons])
  then show ?case by simp
qed

lemma concat_map_single: "concat (map (\<lambda>x. [g x]) xs) = map g xs"
  by (induction xs) simp_all

lemma hoare_then_keeps:
  assumes "hoare P m (\<lambda>_. Q) (\<lambda>_ _. True)" and "\<And>a. keeps Q (f a)"
  shows "hoare P (bind m f) (\<lambda>_. Q) (\<lambda>_ _. True)"
  by (rule hoare_bind[OF assms(1)]) (rule keeps_weaken[OF assms(2)])

text \<open>A loop whose every round appends one element to a view of the store, or throws.\<close>

lemma extends_refl [simp]: "extends xs xs"
  by (simp add: extends_def)

lemma extends_append [simp]: "extends xs (xs @ ys)"
  by (simp add: extends_def)

lemma hoare_fold_io_prefix:
  assumes "\<And>x b S. hoare (\<lambda>w. v w = S) (f x b) (\<lambda>_ w. v w = S @ [g x])
             (\<lambda>_ w. v w = S \<or> v w = S @ [g x])"
  shows "hoare (\<lambda>w. v w = S) (fold_io f xs b) (\<lambda>_ w. v w = S @ map g xs)
     (\<lambda>_ w. extends S (v w) \<and> extends (v w) (S @ map g xs))"
proof (induction xs arbitrary: S b)
  case Nil
  show ?case by (simp add: hoare_ret)
next
  case (Cons x xs)
  have step: "hoare (\<lambda>w. v w = S) (f x b) (\<lambda>_ w. v w = S @ [g x])
     (\<lambda>_ w. extends S (v w) \<and> extends (v w) (S @ map g (x # xs)))"
    by (rule hoare_weaken[OF assms]) (auto simp: extends_iff)
  have rest: "hoare (\<lambda>w. v w = S @ [g x]) (fold_io f xs b') (\<lambda>_ w. v w = S @ map g (x # xs))
     (\<lambda>_ w. extends S (v w) \<and> extends (v w) (S @ map g (x # xs)))" for b'
    by (rule hoare_weaken[OF Cons]) (auto simp: extends_iff)
  show ?case
    unfolding fold_io.simps by (rule hoare_bind[OF step rest])
qed

text \<open>The statements that leave the categories alone.\<close>

lemma menu_categories_delete_sizes [simp]:
  "menu_categories (delete_sizes p w) = menu_categories w"
  by (simp add: delete_sizes_def Let_def)

lemma menu_categories_delete_items [simp]:
  "menu_categories (delete_items p w) = menu_categories w"
  by (simp add: delete_items_def Let_def)

lemma menu_categories_advance [simp]: "menu_categories (advance w) = menu_categories w"
  by (simp add: advance_eq)

lemma map_id_update_where:
  "(\<And>r. k (f r) = k r) \<Longrightarrow> map k (rows (update_where p f t)) = map k (rows t)"
  by (simp add: update_where_def)

subsection \<open>Menu sync: shared lemmas\<close>

lemma hoare_fold_io_steps:
  assumes "\<And>x b s. hoare (\<lambda>w. v w = s) (f x b) (\<lambda>_ w. v w = step x s) (\<lambda>_ _. True)"
  shows "hoare (\<lambda>w. v w = s) (fold_io f xs b) (\<lambda>_ w. v w = fold step xs s) (\<lambda>_ _. True)"
proof (induction xs arbitrary: s b)
  case Nil
  show ?case by (simp add: hoare_ret)
next
  case (Cons x xs)
  show ?case
    unfolding fold_io.simps fold_simps by (rule hoare_bind[OF assms Cons])
qed

lemma hoare_after_keeps:
  assumes "keeps I m" and "\<And>a. hoare I (f a) Q (\<lambda>_ _. True)"
  shows "hoare I (bind m f) Q (\<lambda>_ _. True)"
  by (rule hoare_keeps_bind[OF assms]) simp

lemma concat_map_enumerate: "concat (map (\<lambda>kx. g (snd kx)) (enumerate n xs)) = concat (map g xs)"
  by (induction xs arbitrary: n) simp_all

subsubsection \<open>Invariants that the rebuild does not touch\<close>

lemma processGroups_other:
  assumes "\<And>w. I (advance w) = I w"
    and "\<And>f w. I (menu_option_groups_update f w) = I w"
    and "\<And>f w. I (menu_item_option_groups_update f w) = I w"
    and "\<And>f w. I (menu_options_update f w) = I w"
  shows "keeps I (processGroups groups itemId sizeId stats)"
  unfolding processGroups_def processOptionGroup_def findOptionGroup_def updateOptionGroup_def
    insertOptionGroup_def linkOptionGroup_def insertMenuOption_def
  by (intro keeps_intros) (simp_all add: assms)

lemma processSize_other:
  assumes "\<And>w. I (advance w) = I w"
    and "\<And>f w. I (menu_item_sizes_update f w) = I w"
    and "\<And>f w. I (menu_option_groups_update f w) = I w"
    and "\<And>f w. I (menu_item_option_groups_update f w) = I w"
    and "\<And>f w. I (menu_options_update f w) = I w"
  shows "keeps I (processSize itemId sz stats k)"
  unfolding processSize_def
  by (intro keeps_intros processGroups_other) (simp_all add: assms)

lemma getOrCreateMenu_other:
  assumes "\<And>w. I (advance w) = I w" and "\<And>f w. I (menus_update f w) = I w"
  shows "keeps I (getOrCreateMenu m)"
  unfolding getOrCreateMenu_def
  by (intro keeps_intros keeps_stmt) (auto simp: assms split: if_splits)

lemma clearMenuData_other:
  assumes "\<And>w. I (advance w) = I w"
    and "\<And>f w. I (menu_categories_update f w) = I w"
    and "\<And>f w. I (menu_items_update f w) = I w"
    and "\<And>f w. I (menu_item_sizes_update f w) = I w"
    and "\<And>f w. I (menu_item_option_groups_update f w) = I w"
  shows "keeps I (clearMenuData menuId)"
  unfolding clearMenuData_def
  by (intro keeps_intros)
     (simp_all add: assms delete_sizes_def delete_items_def delete_categories_def Let_def)

subsubsection \<open>processOptionGroup, statement by statement\<close>

lemma find_group_None:
  "(find (\<lambda>r. gr_gloriafood_id r = x) rs = None) = (x \<notin> set (map gr_gloriafood_id rs))"
  by (force simp: find_None_iff)

lemma hoare_processOptionGroup:
  assumes sel: "hoare P (findOptionGroup g) R (\<lambda>_ _. True)"
    and upd: "\<And>gid. hoare (R (Some gid)) (updateOptionGroup gid g) (\<lambda>_. U gid) (\<lambda>_ _. True)"
    and lnk: "\<And>gid. hoare (U gid) (linkOptionGroup itemId sizeId gid) (\<lambda>_. Q) (\<lambda>_ _. True)"
    and ins: "hoare (R None) (insertOptionGroup g) N (\<lambda>_ _. True)"
    and lnk': "\<And>gid. hoare (N gid) (linkOptionGroup itemId sizeId gid) (\<lambda>_. N' gid) (\<lambda>_ _. True)"
    and opts: "\<And>gid st'. hoare (N' gid)
        (fold_io (insertMenuOption gid) (enumerate 0 (mg_options g)) st') (\<lambda>_. Q) (\<lambda>_ _. True)"
  shows "hoare P (processOptionGroup g st itemId sizeId) (\<lambda>_. Q) (\<lambda>_ _. True)"
  unfolding processOptionGroup_def
proof (rule hoare_bind[OF sel])
  fix existing
  show "hoare (R existing)
     (bind (case existing of
             Some gid \<Rightarrow> bind (updateOptionGroup gid g) (\<lambda>_. ret (gid, st))
           | None \<Rightarrow>
               bind (insertOptionGroup g)
                 (\<lambda>gid. ret (gid, st\<lparr>st_optionGroups := st_optionGroups st + 1\<rparr>)))
       (\<lambda>gs.
     bind (linkOptionGroup itemId sizeId (fst gs))
       (\<lambda>_. case existing of
              Some _ \<Rightarrow> ret (snd gs)
            | None \<Rightarrow> fold_io (insertMenuOption (fst gs)) (enumerate 0 (mg_options g)) (snd gs))))
     (\<lambda>_. Q) (\<lambda>_ _. True)"
  proof (cases existing)
    case None
    show ?thesis
      unfolding None option.case
      apply (rule hoare_bind[where R = "\<lambda>gs. N (fst gs)"])
       apply (rule hoare_bind[OF ins[unfolded None]])
       apply (rule hoare_ret, simp)
      apply (rule hoare_bind[OF lnk'])
      apply (rule opts)
      done
  next
    case (Some gid)
    show ?thesis
      unfolding Some option.case
      apply (rule hoare_bind[where R = "\<lambda>gs. U (fst gs)"])
       apply (rule hoare_bind[OF upd])
       apply (rule hoare_ret, simp)
      apply (rule hoare_bind[OF lnk])
      apply (rule hoare_ret, simp)
      done
  qed
qed

lemma linkOptionGroup_other:
  assumes "\<And>w. I (advance w) = I w" and "\<And>f w. I (menu_item_option_groups_update f w) = I w"
  shows "hoare I (linkOptionGroup itemId sizeId gid) (\<lambda>_. I) (\<lambda>_ _. True)"
  unfolding linkOptionGroup_def
  by (rule keeps_weaken, intro keeps_intros) (simp_all add: assms)

subsubsection \<open>The traversal of the option group references\<close>

lemma hoare_fold_io_ghost:
  assumes "\<And>x b G. hoare (Inv G) (f x b) (\<lambda>_. Inv (G @ g x)) (\<lambda>_ _. True)"
  shows "hoare (Inv G) (fold_io f xs b) (\<lambda>_. Inv (G @ concat (map g xs))) (\<lambda>_ _. True)"
proof (induction xs arbitrary: G b)
  case Nil
  show ?case by (simp add: hoare_ret)
next
  case (Cons x xs)
  have "hoare (Inv G) (bind (f x b) (fold_io f xs))
     (\<lambda>_. Inv ((G @ g x) @ concat (map g xs))) (\<lambda>_ _. True)"
    by (rule hoare_bind[OF assms Cons])
  then show ?case by simp
qed

lemma hoare_insert_into_pos:
  assumes "\<And>w. I (advance w) = I w" and "\<And>f w. I (upd f w) = I w"
  shows "hoare I (insert_into tbl upd rid uniq mk) (\<lambda>i w. 0 < i \<and> I w) (\<lambda>_ _. True)"
  unfolding insert_into_def
  by (rule hoare_stmt) (auto simp: assms next_rowid_pos split: option.splits)

lemma processGroups_refs:
  assumes "\<And>G g st. hoare (Inv G) (processOptionGroup g st itemId sizeId)
     (\<lambda>_. Inv (G @ [(g, l)])) (\<lambda>_ _. True)"
  shows "hoare (Inv G) (processGroups groups itemId sizeId st)
     (\<lambda>_. Inv (G @ map (\<lambda>g. (g, l)) (listed groups))) (\<lambda>_ _. True)"
proof (cases groups)
  case None
  then show ?thesis by (simp add: processGroups_def listed_def hoare_ret)
next
  case (Some gs)
  from hoare_fold_io_ghost[where Inv = Inv and g = "\<lambda>g. [(g, l)]" and xs = gs and G = G
      and f = "\<lambda>grp st. processOptionGroup grp st itemId sizeId", OF assms] Some
  show ?thesis by (simp add: processGroups_def listed_def)
qed

lemma processSize_refs:
  assumes adv: "\<And>G w. Inv G (advance w) = Inv G w"
    and szs: "\<And>G f w. Inv G (menu_item_sizes_update f w) = Inv G w"
    and step: "\<And>G g st itemId sizeId. hoare (Inv G) (processOptionGroup g st itemId sizeId)
       (\<lambda>_. Inv (G @ [(g, truthy_id itemId \<or> truthy_id sizeId)])) (\<lambda>_ _. True)"
  shows "hoare (Inv G) (processSize itemId sz st k) (\<lambda>_. Inv (G @ sizeRefs sz)) (\<lambda>_ _. True)"
  unfolding processSize_def sizeRefs_def
proof (rule hoare_bind[OF hoare_insert_into_pos[where I = "Inv G"]])
  fix sizeId
  show "hoare (\<lambda>w. 0 < sizeId \<and> Inv G w)
     (processGroups (ms_groups sz) None (Some sizeId) (st\<lparr>st_sizes := st_sizes st + 1\<rparr>))
     (\<lambda>_. Inv (G @ map (\<lambda>g. (g, True)) (listed (ms_groups sz)))) (\<lambda>_ _. True)"
  proof (rule hoare_assume)
    assume "0 < sizeId"
    then have t: "truthy_id None \<or> truthy_id (Some sizeId)" by (simp add: truthy_id_def)
    show "hoare (Inv G)
       (processGroups (ms_groups sz) None (Some sizeId) (st\<lparr>st_sizes := st_sizes st + 1\<rparr>))
       (\<lambda>_. Inv (G @ map (\<lambda>g. (g, True)) (listed (ms_groups sz)))) (\<lambda>_ _. True)"
      by (rule processGroups_refs) (use step[of _ _ _ None "Some sizeId"] t in simp)
  qed
qed (simp_all add: adv szs)

lemma processItem_refs:
  assumes adv: "\<And>G w. Inv G (advance w) = Inv G w"
    and its: "\<And>G f w. Inv G (menu_items_update f w) = Inv G w"
    and szs: "\<And>G f w. Inv G (menu_item_sizes_update f w) = Inv G w"
    and step: "\<And>G g st itemId sizeId. hoare (Inv G) (processOptionGroup g st itemId sizeId)
       (\<lambda>_. Inv (G @ [(g, truthy_id itemId \<or> truthy_id sizeId)])) (\<lambda>_ _. True)"
  shows "hoare (Inv G) (processItem categoryId item st k) (\<lambda>_. Inv (G @ itemRefs item))
     (\<lambda>_ _. True)"
  unfolding processItem_def itemRefs_def
proof (rule hoare_bind[OF hoare_insert_into_pos[where I = "Inv G"]])
  fix itemId
  show "hoare (\<lambda>w. 0 < itemId \<and> Inv G w)
     (bind (case mi_sizes item of
              None \<Rightarrow> ret (st\<lparr>st_items := st_items st + 1\<rparr>)
            | Some sizes \<Rightarrow>
                fold_io (\<lambda>ks st. processSize itemId (snd ks) st (fst ks)) (enumerate 0 sizes)
                  (st\<lparr>st_items := st_items st + 1\<rparr>))
        (\<lambda>st. processGroups (mi_groups item) (Some itemId) None st))
     (\<lambda>_. Inv (G @ concat (map sizeRefs (listed (mi_sizes item))) @
                  map (\<lambda>g. (g, True)) (listed (mi_groups item)))) (\<lambda>_ _. True)"
  proof (rule hoare_assume)
    assume "0 < itemId"
    then have t: "truthy_id (Some itemId) \<or> truthy_id None" by (simp add: truthy_id_def)
    have sizes: "hoare (Inv G)
       (case mi_sizes item of
              None \<Rightarrow> ret (st\<lparr>st_items := st_items st + 1\<rparr>)
            | Some sizes \<Rightarrow>
                fold_io (\<lambda>ks st. processSize itemId (snd ks) st (fst ks)) (enumerate 0 sizes)
                  (st\<lparr>st_items := st_items st + 1\<rparr>))
       (\<lambda>_. Inv (G @ concat (map sizeRefs (listed (mi_sizes item))))) (\<lambda>_ _. True)"
    proof (cases "mi_sizes item")
      case None
      then show ?thesis by (simp add: listed_def hoare_ret)
    next
      case (Some sizes)
      from hoare_fold_io_ghost[where Inv = Inv and g = "\<lambda>ks. sizeRefs (snd ks)"
          and xs = "enumerate 0 sizes" and G = G
          and f = "\<lambda>ks st. processSize itemId (snd ks) st (fst ks)",
          OF processSize_refs[where Inv = Inv, OF adv szs step]] Some
      show ?thesis by (simp add: listed_def concat_map_enumerate[where g = sizeRefs])
    qed
    have groups: "hoare (Inv G') (processGroups (mi_groups item) (Some itemId) None st')
       (\<lambda>_. Inv (G' @ map (\<lambda>g. (g, True)) (listed (mi_groups item)))) (\<lambda>_ _. True)" for G' st'
      by (rule processGroups_refs) (use step[of _ _ _ "Some itemId" None] t in simp)
    show "hoare (Inv G)
       (bind (case mi_sizes item of
              None \<Rightarrow> ret (st\<lparr>st_items := st_items st + 1\<rparr>)
            | Some sizes \<Rightarrow>
                fold_io (\<lambda>ks st. processSize itemId (snd ks) st (fst ks)) (enumerate 0 sizes)
                  (st\<lparr>st_items := st_items st + 1\<rparr>))
        (\<lambda>st. processGroups (mi_groups item) (Some itemId) None st))
       (\<lambda>_. Inv (G @ concat (map sizeRefs (listed (mi_sizes item))) @
                  map (\<lambda>g. (g, True)) (listed (mi_groups item)))) (\<lambda>_ _. True)"
      using hoare_bind[OF sizes groups] by simp
  qed
qed (simp_all add: adv its)

lemma processCategory_refs:
  assumes adv: "\<And>G w. Inv G (advance w) = Inv G w"
    and cts: "\<And>G f w. Inv G (menu_categories_update f w) = Inv G w"
    and its: "\<And>G f w. Inv G (menu_items_update f w) = Inv G w"
    and szs: "\<And>G f w. Inv G (menu_item_sizes_update f w) = Inv G w"
    and step: "\<And>G g st itemId sizeId. hoare (Inv G) (processOptionGroup g st itemId sizeId)
       (\<lambda>_. Inv (G @ [(g, truthy_id itemId \<or> truthy_id sizeId)])) (\<lambda>_ _. True)"
  shows "hoare (Inv G) (processCategory menuId c st k) (\<lambda>_. Inv (G @ categoryRefs c))
     (\<lambda>_ _. True)"
  unfolding processCategory_def categoryRefs_def
proof (rule hoare_after_keeps)
  fix categoryId
  have items: "hoare (Inv G)
     (fold_io (\<lambda>ki st. processItem categoryId (snd ki) st (fst ki)) (enumerate 0 (mc_items c))
        (st\<lparr>st_categories := st_categories st + 1\<rparr>))
     (\<lambda>_. Inv (G @ concat (map itemRefs (mc_items c)))) (\<lambda>_ _. True)"
    using hoare_fold_io_ghost[where Inv = Inv and g = "\<lambda>ki. itemRefs (snd ki)"
          and xs = "enumerate 0 (mc_items c)" and G = G
          and f = "\<lambda>ki st. processItem categoryId (snd ki) st (fst ki)",
          OF processItem_refs[where Inv = Inv, OF adv its szs step]]
    by (simp add: concat_map_enumerate[where g = itemRefs])
  have t: "\<not> (truthy_id None \<or> truthy_id None)" by (simp add: truthy_id_def)
  have groups: "hoare (Inv G') (processGroups (mc_groups c) None None st')
       (\<lambda>_. Inv (G' @ map (\<lambda>g. (g, False)) (listed (mc_groups c)))) (\<lambda>_ _. True)" for G' st'
    by (rule processGroups_refs) (use step[of _ _ _ None None] t in simp)
  show "hoare (Inv G)
     (bind (fold_io (\<lambda>ki st. processItem categoryId (snd ki) st (fst ki))
              (enumerate 0 (mc_items c)) (st\<lparr>st_categories := st_categories st + 1\<rparr>))
        (\<lambda>st. processGroups (mc_groups c) None None st))
     (\<lambda>_. Inv (G @ concat (map itemRefs (mc_items c)) @
                map (\<lambda>g. (g, False)) (listed (mc_groups c)))) (\<lambda>_ _. True)"
    using hoare_bind[OF items groups] by simp
qed (intro keeps_intros; simp add: adv cts)

lemma processCategories_refs:
  assumes adv: "\<And>G w. Inv G (advance w) = Inv G w"
    and cts: "\<And>G f w. Inv G (menu_categories_update f w) = Inv G w"
    and its: "\<And>G f w. Inv G (menu_items_update f w) = Inv G w"
    and szs: "\<And>G f w. Inv G (menu_item_sizes_update f w) = Inv G w"
    and step: "\<And>G g st itemId sizeId. hoare (Inv G) (processOptionGroup g st itemId sizeId)
       (\<lambda>_. Inv (G @ [(g, truthy_id itemId \<or> truthy_id sizeId)])) (\<lambda>_ _. True)"
  shows "hoare (Inv G) (processCategories menuId cs)
     (\<lambda>_. Inv (G @ concat (map categoryRefs cs))) (\<lambda>_ _. True)"
  unfolding processCategories_def
  by (rule hoare_fold_io_ghost[where Inv = Inv,
        OF processCategory_refs[where Inv = Inv, OF adv cts its szs step]])

subsubsection \<open>The stages of a sync that returns\<close>

lemma syncMenuBody_stages:
  assumes "syncMenuBody (Inr m) w = (Inr r, w')"
  obtains menuId w1 w2 st w3 where
    "getOrCreateMenu m w = (Inr menuId, w1)"
    "clearMenuData menuId w1 = (Inr (), w2)"
    "processCategories menuId (m_categories m) w2 = (Inr st, w3)"
    "w' = (advance (advance w3))\<lparr>cache := (cache w')\<rparr>\<lparr>webhook_logs := webhook_logs w'\<rparr>"
  using assms
  unfolding syncMenuBody_def logEvent_def insert_into_def exec_def stmt_def cache_put_def
  by (auto simp: bind_def ret_def advance_eq split: prod.splits sum.splits if_splits)

lemma syncMenu_Inr:
  "syncMenu fetched w = (Inr r, w') \<Longrightarrow> syncMenuBody fetched w = (Inr r, w')"
  by (auto simp: syncMenu_def bind_then_throw split: prod.splits sum.splits)

subsection \<open>processOrder: one order row per deduplication key\<close>

lemma getOrCreateClient_orders: "keeps (\<lambda>w. orders w = T) (getOrCreateClient order)"
  unfolding getOrCreateClient_def findClient_def updateClient_def insertClient_def
    saveDeliveryAddress_def saveClientAddress_def
  by (intro keeps_intros) (simp_all add: advance_eq)

lemma getOrCreateRestaurant_orders: "keeps (\<lambda>w. orders w = T) (getOrCreateRestaurant order)"
  unfolding getOrCreateRestaurant_def findRestaurant_def insertRestaurant_def
  by (intro keeps_intros) (simp_all add: advance_eq)

lemma insertOrderItems_orders: "keeps (\<lambda>w. orders w = T) (insertOrderItems i items)"
  unfolding insertOrderItems_def insertOrderItem_def insertOrderItemOption_def
  by (intro keeps_intros) (simp_all add: advance_eq)

lemma findExistingOrder_run:
  "\<not> rejected w \<Longrightarrow>
   findExistingOrder order w =
     (Inr (map_option or_id (find (\<lambda>r. row_key r = dedup_key order) (rows (orders w)))), advance w)"
  by (simp add: findExistingOrder_def query_def stmt_def row_key_def dedup_key_def advance_eq)

lemma findExistingOrder_rejected:
  "rejected w \<Longrightarrow> findExistingOrder order w = (Inl StoreError, advance w)"
  by (simp add: findExistingOrder_def query_def stmt_def)

lemma insertBillingDetails_orders: "keeps (\<lambda>w. orders w = T) (insertBillingDetails i b)"
  unfolding insertBillingDetails_def
  by (intro keeps_intros) (simp_all add: advance_eq)

lemma insertOrderDetails_orders: "keeps (\<lambda>w. orders w = T) (insertOrderDetails i order)"
  unfolding insertOrderDetails_def
  by (intro keeps_intros insertOrderItems_orders insertBillingDetails_orders)
     (simp_all add: advance_eq)

lemma insertOrderDetails_value:
  "hoare (\<lambda>_. True) (insertOrderDetails i order)
     (\<lambda>r _. r = \<lparr>po_orderId = i, po_isNew = True\<rparr>) (\<lambda>_ _. True)"
  unfolding insertOrderDetails_def
  by (intro hoare_bind[OF hoare_any] hoare_ret) simp

lemma storeNewOrder_orders:
  "hoare (\<lambda>w. orders w = T) (storeNewOrder order)
     (\<lambda>r w. po_isNew r \<and> po_orderId r = next_rowid or_id T \<and>
        \<not> list_ex (\<lambda>x. row_key x = dedup_key order) (rows T) \<and>
        (\<exists>x. rows (orders w) = rows T @ [x] \<and> or_id x = next_rowid or_id T \<and>
             row_key x = dedup_key order))
     (\<lambda>_ _. True)"
  unfolding storeNewOrder_def insertOrder_def
proof (rule hoare_keeps_bind[OF getOrCreateClient_orders],
       rule hoare_keeps_bind[OF getOrCreateRestaurant_orders], rule hoare_bind)
  fix clientId restaurantId
  let ?mk = "orderRow order clientId restaurantId"
  let ?uniq = "[(''UNIQUE constraint failed: orders.gloriafood_id, orders.pos_system_id'',
               \<lambda>r. or_gloriafood_id r = o_id order \<and>
                   or_pos_system_id r = or_int (o_pos_system_id order) 0)]"
  let ?R = "\<lambda>i w. (i = next_rowid or_id T \<and>
            find (\<lambda>(c, p). list_ex p (rows T)) ?uniq = None) \<and> orders w = insert_row or_id ?mk T"
  show "hoare (\<lambda>w. orders w = T) (insert_into orders orders_update or_id ?uniq ?mk) ?R (\<lambda>_ _. True)"
    by (rule hoare_weaken[OF hoare_insert_into_post[where tbl = orders and T = T]])
       (simp_all add: advance_eq)
  fix orderId
  have "hoare (?R orderId) (insertOrderDetails orderId order)
     (\<lambda>r w. r = \<lparr>po_orderId = orderId, po_isNew = True\<rparr> \<and> ?R orderId w)
     (\<lambda>e w. True \<and> True)"
    by (rule hoare_conj[OF hoare_pre[OF insertOrderDetails_value]
          keeps_weaken[OF keeps_conj_const[OF insertOrderDetails_orders]]]) simp
  then show "hoare (?R orderId) (insertOrderDetails orderId order)
     (\<lambda>r w. po_isNew r \<and> po_orderId r = next_rowid or_id T \<and>
        \<not> list_ex (\<lambda>x. row_key x = dedup_key order) (rows T) \<and>
        (\<exists>x. rows (orders w) = rows T @ [x] \<and> or_id x = next_rowid or_id T \<and>
             row_key x = dedup_key order))
     (\<lambda>_ _. True)"
    by (rule hoare_weaken)
       (auto simp: insert_row_def row_key_def dedup_key_def orderRow_def split: if_splits)
qed simp_all

lemma orders_advance [simp]: "orders (advance w) = orders w"
  by (simp add: advance_eq)

lemma processOrder_cases:
  assumes "processOrder order w = (Inr r, w')"
  shows "(\<not> po_isNew r \<and> w' = advance w \<and>
          (\<exists>x. find (\<lambda>x. row_key x = dedup_key order) (rows (orders w)) = Some x \<and>
               or_id x = po_orderId r)) \<or>
         (po_isNew r \<and> po_orderId r = next_rowid or_id (orders w) \<and>
          \<not> list_ex (\<lambda>x. row_key x = dedup_key order) (rows (orders w)) \<and>
          (\<exists>x. rows (orders w') = rows (orders w) @ [x] \<and> or_id x = po_orderId r \<and>
               row_key x = dedup_key order))"
proof (cases "rejected w")
  case True
  with assms show ?thesis
    by (simp add: processOrder_def bind_def findExistingOrder_rejected)
next
  case False
  note run = findExistingOrder_run[OF False, of order]
  show ?thesis
  proof (cases "find (\<lambda>x. row_key x = dedup_key order) (rows (orders w))")
    case (Some x)
    with assms run show ?thesis
      by (auto simp: processOrder_def bind_def ret_def)
  next
    case None
    with assms run have "storeNewOrder order (advance w) = (Inr r, w')"
      by (simp add: processOrder_def bind_def)
    from hoareD_Inr[OF storeNewOrder_orders _ this, of "orders w"]
    show ?thesis by simp
  qed
qed

lemma processOrder_row:
  assumes "processOrder order w = (Inr r, w')"
  shows "\<exists>x\<in>set (rows (orders w')). or_id x = po_orderId r \<and> row_key x = dedup_key order"
  using processOrder_cases[OF assms]
proof (elim disjE conjE exE)
  fix x
  assume "w' = advance w"
    and f: "find (\<lambda>x. row_key x = dedup_key order) (rows (orders w)) = Some x"
    and "or_id x = po_orderId r"
  moreover from f have "x \<in> set (rows (orders w))" "row_key x = dedup_key order"
    by (auto simp: find_Some_iff)
  ultimately show ?thesis by auto
next
  fix x
  assume "rows (orders w') = rows (orders w) @ [x]" "or_id x = po_orderId r"
    "row_key x = dedup_key order"
  then show ?thesis by auto
qed

lemma processOrder_mono:
  assumes "processOrder order w = (Inr r, w')"
  shows "set (rows (orders w)) \<subseteq> set (rows (orders w'))"
  using processOrder_cases[OF assms] by auto

lemma processOrder_constraints:
  assumes "processOrder order w = (Inr r, w')" and "orders_constraints w"
  shows "orders_constraints w'"
  using processOrder_cases[OF assms(1)]
proof (elim disjE conjE exE)
  assume "w' = advance w"
  with assms(2) show ?thesis by (simp add: orders_constraints_def)
next
  fix x
  assume app: "rows (orders w') = rows (orders w) @ [x]"
    and id: "or_id x = po_orderId r" "po_orderId r = next_rowid or_id (orders w)"
    and key: "row_key x = dedup_key order"
    and new: "\<not> list_ex (\<lambda>x. row_key x = dedup_key order) (rows (orders w))"
  have "or_id x \<notin> or_id ` set (rows (orders w))"
    using next_rowid_fresh[of _ "orders w" or_id] id by force
  moreover have "row_key x \<notin> row_key ` set (rows (orders w))"
    using new key by (auto simp: list_ex_iff)
  ultimately show ?thesis
    using assms(2) app by (simp add: orders_constraints_def)
qed

lemma processOrder_known:
  assumes "orders_constraints w" and "x \<in> set (rows (orders w))"
    and "row_key x = dedup_key order" and "\<not> rejected w"
  shows "processOrder order w = (Inr \<lparr>po_orderId = or_id x, po_isNew = False\<rparr>, advance w)"
proof -
  from assms(1,2) have "find (\<lambda>r. row_key r = row_key x) (rows (orders w)) = Some x"
    by (intro find_unique) (simp_all add: orders_constraints_def)
  with assms(3,4) show ?thesis
    by (simp add: processOrder_def bind_def ret_def findExistingOrder_run)
qed

lemma processOrder_again:
  assumes "orders_constraints w" and "processOrder order w = (Inr r, w1)" and "\<not> rejected w1"
  shows "processOrder order w1 = (Inr \<lparr>po_orderId = po_orderId r, po_isNew = False\<rparr>, advance w1)"
proof -
  from processOrder_row[OF assms(2)] obtain x where
    x: "x \<in> set (rows (orders w1))" "or_id x = po_orderId r" "row_key x = dedup_key order"
    by blast
  from processOrder_known[OF processOrder_constraints[OF assms(2,1)] x(1) x(3) assms(3)] x(2)
  show ?thesis by simp
qed

lemma processOrder_distinct:
  assumes "orders_constraints w"
    and "processOrder o1 w = (Inr r1, w1)" and "processOrder o2 w1 = (Inr r2, w2)"
    and "o_id o1 = o_id o2"
    and "or_int (o_pos_system_id o1) 0 \<noteq> or_int (o_pos_system_id o2) 0"
  shows "po_orderId r1 \<noteq> po_orderId r2 \<and>
    (\<exists>x1 x2. x1 \<in> set (rows (orders w2)) \<and> x2 \<in> set (rows (orders w2)) \<and>
       or_id x1 = po_orderId r1 \<and> row_key x1 = dedup_key o1 \<and>
       or_id x2 = po_orderId r2 \<and> row_key x2 = dedup_key o2)"
proof -
  from processOrder_row[OF assms(2)] obtain x1 where
    x1: "x1 \<in> set (rows (orders w1))" "or_id x1 = po_orderId r1" "row_key x1 = dedup_key o1"
    by blast
  from processOrder_row[OF assms(3)] obtain x2 where
    x2: "x2 \<in> set (rows (orders w2))" "or_id x2 = po_orderId r2" "row_key x2 = dedup_key o2"
    by blast
  from x1(1) processOrder_mono[OF assms(3)] have x1': "x1 \<in> set (rows (orders w2))" by blast
  have "orders_constraints w2"
    by (rule processOrder_constraints[OF assms(3) processOrder_constraints[OF assms(2,1)]])
  then have inj: "inj_on or_id (set (rows (orders w2)))"
    by (simp add: orders_constraints_def distinct_map)
  from assms(5) x1(3) x2(3) have "x1 \<noteq> x2" by (auto simp: dedup_key_def)
  with inj x1' x2(1) have "or_id x1 \<noteq> or_id x2" by (auto dest: inj_onD)
  with x1 x2 x1' show ?thesis by auto
qed

text \<open>
  Claim C1. Order identity is the deduplication key (external order id, pos-system id with
  0 for an absent one). In a store that satisfies the schema's constraints on orders:
  (1) a payload whose key is the key of a stored row makes processOrder return that row's
  id with isNew = false and write nothing (the store it leaves is the store it found, one
  statement later in the environment's plan);
  (2) two payloads with the same external order id and different pos-system ids, ingested
  one after the other, end as two stored rows with different ids;
  (3) ingesting a payload again returns the id of the first call with isNew = false.
\<close>

theorem processOrder_dedup:
  "(\<forall>x. orders_constraints w \<and> x \<in> set (rows (orders w)) \<and> row_key x = dedup_key order \<and>
        \<not> rejected w \<longrightarrow>
        processOrder order w = (Inr \<lparr>po_orderId = or_id x, po_isNew = False\<rparr>, advance w)) \<and>
   (\<forall>o2 r1 w1 r2 w2.
        orders_constraints w \<and> processOrder order w = (Inr r1, w1) \<and>
        processOrder o2 w1 = (Inr r2, w2) \<and> o_id order = o_id o2 \<and>
        or_int (o_pos_system_id order) 0 \<noteq> or_int (o_pos_system_id o2) 0 \<longrightarrow>
        po_orderId r1 \<noteq> po_orderId r2 \<and>
        (\<exists>x1 x2. x1 \<in> set (rows (orders w2)) \<and> x2 \<in> set (rows (orders w2)) \<and>
           or_id x1 = po_orderId r1 \<and> row_key x1 = dedup_key order \<and>
           or_id x2 = po_orderId r2 \<and> row_key x2 = dedup_key o2)) \<and>
   (\<forall>r1 w1.
        orders_constraints w \<and> processOrder order w = (Inr r1, w1) \<and> \<not> rejected w1 \<longrightarrow>
        processOrder order w1 =
          (Inr \<lparr>po_orderId = po_orderId r1, po_isNew = False\<rparr>, advance w1))"
  using processOrder_known[of w _ order] processOrder_distinct[of w order]
    processOrder_again[of w order]
  by blast

theorem processOrder_dedup_witness:
  "fst (processOrder order555 empty_store) = Inr \<lparr>po_orderId = 1, po_isNew = True\<rparr> \<and>
   processOrder order555 store555 = (Inr \<lparr>po_orderId = 1, po_isNew = False\<rparr>, advance store555) \<and>
   fst (processOrder order555_pos3 store555) = Inr \<lparr>po_orderId = 2, po_isNew = True\<rparr> \<and>
   map row_key (rows (orders (snd (processOrder order555_pos3 store555)))) = [(555, 0), (555, 3)]"
proof -
  have c: "orders_constraints empty_store"
    by (simp add: orders_constraints_def empty_store_def empty_table_def)
  have a: "fst (processOrder order555 empty_store) = Inr \<lparr>po_orderId = 1, po_isNew = True\<rparr>"
    by code_simp
  then have run: "processOrder order555 empty_store = (Inr \<lparr>po_orderId = 1, po_isNew = True\<rparr>, store555)"
    by (simp add: store555_def prod_eq_iff)
  have nr: "\<not> rejected store555" by code_simp
  have b: "fst (processOrder order555_pos3 store555) = Inr \<lparr>po_orderId = 2, po_isNew = True\<rparr>"
    by code_simp
  have d: "map row_key (rows (orders (snd (processOrder order555_pos3 store555)))) = [(555, 0), (555, 3)]"
    by code_simp
  from processOrder_dedup[of empty_store order555] c run nr
  have "processOrder order555 store555 =
      (Inr \<lparr>po_orderId = po_orderId \<lparr>po_orderId = 1, po_isNew = True\<rparr>, po_isNew = False\<rparr>, advance store555)"
    by blast
  with a b d show ?thesis by simp
qed

subsection \<open>syncMenu: no transaction around the clear and the rebuild\<close>

lemma menuCategoryKeys_advance [simp]:
  "menuCategoryKeys menuId (advance w) = menuCategoryKeys menuId w"
  by (simp add: menuCategoryKeys_def)

lemma insert_category_keys:
  assumes "\<And>i. cr_menu_id (mk i) = menuId" and "\<And>i. cr_gloriafood_id (mk i) = k"
  shows "hoare (\<lambda>w. menuCategoryKeys menuId w = S)
     (insert_into menu_categories menu_categories_update cr_id [] mk)
     (\<lambda>_ w. menuCategoryKeys menuId w = S @ [k]) (\<lambda>_ w. menuCategoryKeys menuId w = S)"
  unfolding insert_into_def
  by (rule hoare_stmt) (auto simp: assms menuCategoryKeys_def insert_row_def advance_eq)

lemma processGroups_keys:
  "keeps (\<lambda>w. menuCategoryKeys menuId w = S) (processGroups groups itemId sizeId stats)"
  unfolding processGroups_def processOptionGroup_def findOptionGroup_def updateOptionGroup_def
    insertOptionGroup_def linkOptionGroup_def insertMenuOption_def
  by (intro keeps_intros) (simp_all add: menuCategoryKeys_def advance_eq)

lemma processItem_keys:
  "keeps (\<lambda>w. menuCategoryKeys menuId w = S) (processItem categoryId item stats sortOrder)"
  unfolding processItem_def processSize_def
  by (intro keeps_intros processGroups_keys) (simp_all add: menuCategoryKeys_def advance_eq)

lemma processCategory_keys:
  "hoare (\<lambda>w. menuCategoryKeys menuId w = S) (processCategory menuId c st k)
     (\<lambda>_ w. menuCategoryKeys menuId w = S @ [mc_id c])
     (\<lambda>_ w. menuCategoryKeys menuId w = S \<or> menuCategoryKeys menuId w = S @ [mc_id c])"
  unfolding processCategory_def
proof (rule hoare_bind)
  show "hoare (\<lambda>w. menuCategoryKeys menuId w = S)
     (insert_into menu_categories menu_categories_update cr_id []
        (\<lambda>i. \<lparr>cr_id = i, cr_menu_id = menuId, cr_gloriafood_id = mc_id c,
                cr_name = mc_name c, cr_description = or_null (mc_description c),
                cr_active = mc_active c, cr_sort_order = k\<rparr>))
     (\<lambda>_ w. menuCategoryKeys menuId w = S @ [mc_id c])
     (\<lambda>_ w. menuCategoryKeys menuId w = S \<or> menuCategoryKeys menuId w = S @ [mc_id c])"
    by (rule hoare_weaken[OF insert_category_keys[where menuId = menuId and k = "mc_id c" and S = S]])
       auto
next
  fix categoryId
  have "keeps (\<lambda>w. menuCategoryKeys menuId w = S @ [mc_id c])
     (bind (fold_io (\<lambda>ki st. processItem categoryId (snd ki) st (fst ki))
             (enumerate 0 (mc_items c)) (st\<lparr>st_categories := st_categories st + 1\<rparr>))
        (\<lambda>st. processGroups (mc_groups c) None None st))"
    by (intro keeps_intros processItem_keys processGroups_keys)
  then show "hoare (\<lambda>w. menuCategoryKeys menuId w = S @ [mc_id c])
     (bind (fold_io (\<lambda>ki st. processItem categoryId (snd ki) st (fst ki))
             (enumerate 0 (mc_items c)) (st\<lparr>st_categories := st_categories st + 1\<rparr>))
        (\<lambda>st. processGroups (mc_groups c) None None st))
     (\<lambda>_ w. menuCategoryKeys menuId w = S @ [mc_id c])
     (\<lambda>_ w. menuCategoryKeys menuId w = S \<or> menuCategoryKeys menuId w = S @ [mc_id c])"
    unfolding keeps_def by (rule hoare_weaken) simp_all
qed

lemma processCategories_keys:
  "hoare (\<lambda>w. menuCategoryKeys menuId w = S) (processCategories menuId cs)
     (\<lambda>_ w. menuCategoryKeys menuId w = S @ map mc_id cs)
     (\<lambda>_ w. extends S (menuCategoryKeys menuId w) \<and>
            extends (menuCategoryKeys menuId w) (S @ map mc_id cs))"
  unfolding processCategories_def
  by (rule hoare_fold_io_prefix[where v = "menuCategoryKeys menuId" and g = mc_id,
        OF processCategory_keys])

lemma menu_categories_delete_categories:
  "menu_categories (delete_categories p w) = delete_where p (menu_categories w)"
  by (simp add: delete_categories_def Let_def)

lemma clearMenuData_keys:
  "hoare (\<lambda>_. True) (clearMenuData menuId) (\<lambda>_ w. menuCategoryKeys menuId w = [])
     (\<lambda>_ _. True)"
  unfolding clearMenuData_def
  apply (rule hoare_bind[OF hoare_any])
  apply (rule hoare_bind[OF hoare_any])
  unfolding exec_def
  apply (rule hoare_stmt)
    apply (auto simp: menuCategoryKeys_def menu_categories_delete_categories delete_where_def)
  done


lemma logEvent_run:
  "logEvent t p s e w =
     (if rejected w then (Inl StoreError, advance w)
      else (Inr (), webhook_logs_update (insert_row lg_id
              (\<lambda>i. \<lparr>lg_id = i, lg_event_type = t, lg_payload = p, lg_status = s,
                     lg_error_message = or_null e\<rparr>)) (advance w)))"
  by (simp add: logEvent_def insert_into_def stmt_def bind_def ret_def)

text \<open>
  Claim C3, as the code has it. syncMenu runs the clear and the rebuild as separate
  statements, with no transaction and no shadow copy. Take a sync in which the menu row is
  resolved, the clear completes and the loop over the snapshot's categories throws \<open>e\<close>.
  Then syncMenu throws; its catch block restores nothing (the category, item, size and
  association tables are left as the failing step left them); after the clear the menu had
  no category row, and at the end its categories are the snapshot's categories up to the
  failing one, possibly none. If the store accepts the INSERT of the log row, that row
  carries the message of \<open>e\<close> and the error thrown is \<open>e\<close> itself.
\<close>

theorem syncMenu_no_restore:
  assumes "getOrCreateMenu m w = (Inr menuId, w1)"
    and "clearMenuData menuId w1 = (Inr u, w2)"
    and "processCategories menuId (m_categories m) w2 = (Inl e, w3)"
    and "syncMenu (Inr m) w = (r, w')"
  shows "(\<exists>e'. r = Inl e') \<and>
    (\<not> rejected w3 \<longrightarrow> r = Inl e \<and>
       map lg_error_message (rows (webhook_logs w')) =
         map lg_error_message (rows (webhook_logs w3)) @ [or_null (Some (message e))]) \<and>
    menu_categories w' = menu_categories w3 \<and> menu_items w' = menu_items w3 \<and>
    menu_item_sizes w' = menu_item_sizes w3 \<and>
    menu_item_option_groups w' = menu_item_option_groups w3 \<and>
    menuCategoryKeys menuId w2 = [] \<and>
    extends (menuCategoryKeys menuId w') (map mc_id (m_categories m))"
proof -
  from assms(1-3) have "syncMenuBody (Inr m) w = (Inl e, w3)"
    by (simp add: syncMenuBody_def bind_def ret_def)
  with assms(4) have run: "(r, w') =
      bind (logEvent ''menu_sync'' (LogError (message e)) ''error'' (Some (message e)))
        (\<lambda>_. throw e) w3"
    by (simp add: syncMenu_def)
  from hoareD_Inr[OF clearMenuData_keys TrueI assms(2)]
  have cleared: "menuCategoryKeys menuId w2 = []" .
  from hoareD_Inl[OF processCategories_keys cleared assms(3)]
  have pre: "extends (menuCategoryKeys menuId w3) (map mc_id (m_categories m))" by simp
  show ?thesis
  proof (cases "rejected w3")
    case True
    with run have "r = Inl StoreError" "w' = advance w3"
      by (simp_all add: bind_def logEvent_run)
    with True cleared pre show ?thesis
      by (simp add: advance_eq menuCategoryKeys_def)
  next
    case False
    with run have "r = Inl e"
      "w' = webhook_logs_update (insert_row lg_id
              (\<lambda>i. \<lparr>lg_id = i, lg_event_type = ''menu_sync'', lg_payload = LogError (message e),
                     lg_status = ''error'', lg_error_message = or_null (Some (message e))\<rparr>))
            (advance w3)"
      by (simp_all add: bind_def logEvent_run throw_def)
    with False cleared pre show ?thesis
      by (simp add: advance_eq menuCategoryKeys_def insert_row_def)
  qed
qed

text \<open>
  The theorem on a second sync of the synced store that is rejected at the first size of
  the first item: the menu is left with its first category only.
\<close>

theorem syncMenu_no_restore_witness:
  "fst (syncMenu (Inr demo_menu) (resync_store 16)) = Inl StoreError \<and>
   menuCategoryKeys 1 (snd (syncMenu (Inr demo_menu) (resync_store 16))) = [10] \<and>
   extends (menuCategoryKeys 1 (snd (syncMenu (Inr demo_menu) (resync_store 16))))
     (map mc_id (m_categories demo_menu)) \<and>
   map lg_error_message (rows (webhook_logs (snd (syncMenu (Inr demo_menu) (resync_store 16))))) =
     [None, Some ''D1_ERROR'']"
proof -
  define w1 where "w1 = snd (getOrCreateMenu demo_menu (resync_store 16))"
  define w2 where "w2 = snd (clearMenuData 1 w1)"
  define w3 where "w3 = snd (processCategories 1 (m_categories demo_menu) w2)"
  have "fst (getOrCreateMenu demo_menu (resync_store 16)) = Inr 1" by code_simp
  then have a: "getOrCreateMenu demo_menu (resync_store 16) = (Inr 1, w1)"
    by (simp add: w1_def prod_eq_iff)
  have "fst (clearMenuData 1 (snd (getOrCreateMenu demo_menu (resync_store 16)))) = Inr ()"
    by code_simp
  then have b: "clearMenuData 1 w1 = (Inr (), w2)"
    by (simp add: w1_def w2_def prod_eq_iff)
  have "fst (processCategories 1 (m_categories demo_menu)
          (snd (clearMenuData 1 (snd (getOrCreateMenu demo_menu (resync_store 16)))))) =
        Inl StoreError"
    by code_simp
  then have c: "processCategories 1 (m_categories demo_menu) w2 = (Inl StoreError, w3)"
    by (simp add: w1_def w2_def w3_def prod_eq_iff)
  have "\<not> rejected (snd (processCategories 1 (m_categories demo_menu)
          (snd (clearMenuData 1 (snd (getOrCreateMenu demo_menu (resync_store 16)))))))"
    by code_simp
  then have d: "\<not> rejected w3"
    by (simp add: w1_def w2_def w3_def)
  have k: "menuCategoryKeys 1 (snd (syncMenu (Inr demo_menu) (resync_store 16))) = [10]"
    by code_simp
  have l: "map lg_error_message (rows (webhook_logs (snd (syncMenu (Inr demo_menu) (resync_store 16))))) =
     [None, Some ''D1_ERROR'']"
    by code_simp
  from syncMenu_no_restore[OF a b c prod.collapse[symmetric]] d k l
  show ?thesis by simp
qed

text \<open>
  Two failed syncs of a store that held the two categories and three items of the
  snapshot. Rejected at the first category insert, the sync leaves the menu empty; rejected
  two statements later, it leaves one category with one item.
\<close>

theorem syncMenu_partial_counterexample:
  "menuCategoryKeys 1 expired_store = [10, 11] \<and>
   map ir_gloriafood_id (rows (menu_items expired_store)) = [100, 101, 110] \<and>
   fst (syncMenu (Inr demo_menu) (resync_store 14)) = Inl StoreError \<and>
   menuCategoryKeys 1 (snd (syncMenu (Inr demo_menu) (resync_store 14))) = [] \<and>
   map ir_gloriafood_id (rows (menu_items (snd (syncMenu (Inr demo_menu) (resync_store 14))))) = [] \<and>
   fst (syncMenu (Inr demo_menu) (resync_store 16)) = Inl StoreError \<and>
   menuCategoryKeys 1 (snd (syncMenu (Inr demo_menu) (resync_store 16))) = [10] \<and>
   map ir_gloriafood_id (rows (menu_items (snd (syncMenu (Inr demo_menu) (resync_store 16))))) = [100]"
proof -
  have "menuCategoryKeys 1 expired_store = [10, 11]" by code_simp
  moreover have "map ir_gloriafood_id (rows (menu_items expired_store)) = [100, 101, 110]"
    by code_simp
  moreover have "fst (syncMenu (Inr demo_menu) (resync_store 14)) = Inl StoreError" by code_simp
  moreover have "menuCategoryKeys 1 (snd (syncMenu (Inr demo_menu) (resync_store 14))) = []"
    by code_simp
  moreover have "map ir_gloriafood_id (rows (menu_items (snd (syncMenu (Inr demo_menu) (resync_store 14))))) = []"
    by code_simp
  moreover have "fst (syncMenu (Inr demo_menu) (resync_store 16)) = Inl StoreError" by code_simp
  moreover have "menuCategoryKeys 1 (snd (syncMenu (Inr demo_menu) (resync_store 16))) = [10]"
    by code_simp
  moreover have "map ir_gloriafood_id (rows (menu_items (snd (syncMenu (Inr demo_menu) (resync_store 16))))) = [100]"
    by code_simp
  ultimately show ?thesis by simp
qed

subsection \<open>processOrder: no transaction around the writes\<close>

subsubsection \<open>The fan-out as a sequence of writes\<close>

lemma io_bind_assoc: "bind (bind m f) g = bind m (\<lambda>a. bind (f a) g)"
  by (rule ext) (simp add: bind_def split: prod.splits sum.splits)

lemma bind_ret_right: "bind m ret = m"
  by (rule ext) (simp add: bind_def ret_def split: prod.splits sum.splits)

lemma exec_run:
  "exec f w = (if rejected w then (Inl StoreError, advance w) else (Inr (), f (advance w)))"
  by (simp add: exec_def stmt_def)

lemma insert_into_run:
  "insert_into tbl upd rid [] mk w =
     (if rejected w then (Inl StoreError, advance w)
      else (Inr (next_rowid rid (tbl (advance w))), upd (insert_row rid mk) (advance w)))"
  by (simp add: insert_into_def stmt_def)

lemma insert_into_exec:
  "bind (insert_into tbl upd rid [] mk) (\<lambda>_. ret ()) = exec (upd (insert_row rid mk))"
  by (rule ext) (simp add: insert_into_run exec_run bind_def ret_def)

lemma write_all_append: "write_all (xs @ ys) = bind (write_all xs) (\<lambda>_. write_all ys)"
  by (induction xs) (simp_all add: bind_ret io_bind_assoc)

lemma write_all_single: "write_all [f] = exec f"
  by (simp add: bind_ret_right)

lemma for_each_write_all:
  "(\<And>x. f x = write_all (p x)) \<Longrightarrow> for_each f xs = write_all (concat (map p xs))"
  by (induction xs) (simp_all add: write_all_append)

lemma for_each_writes:
  "(\<And>x. f x = exec (g x)) \<Longrightarrow> for_each f xs = write_all (map g xs)"
  by (induction xs) simp_all

lemma last_item_id_advance [simp]: "last_item_id (advance w) = last_item_id w"
  by (simp add: last_item_id_def advance_eq)

lemma options_write_all:
  "last_item_id w = itemId \<Longrightarrow>
   for_each (insertOrderItemOption itemId) opts w = write_all (map option_write opts) w"
proof (induction opts arbitrary: w)
  case Nil
  show ?case by simp
next
  case (Cons p ps)
  let ?w' = "order_item_options_update (insert_row oor_id (orderItemOptionRow itemId p)) (advance w)"
  have w': "option_write p (advance w) = ?w'"
    using Cons.prems by (simp add: option_write_def)
  have "last_item_id ?w' = itemId"
    using Cons.prems by (simp add: last_item_id_def advance_eq)
  from Cons.IH[OF this] show ?case
    by (simp add: insertOrderItemOption_def insert_into_exec exec_run bind_def w')
qed

lemma insertOrderItem_write_all: "insertOrderItem orderId item = write_all (item_writes orderId item)"
proof (rule ext)
  fix w
  let ?w1 = "order_items_update (insert_row oir_id (orderItemRow orderId item)) (advance w)"
  have l: "last_item_id ?w1 = next_rowid oir_id (order_items (advance w))"
    by (simp add: last_item_id_def insert_row_def orderItemRow_def)
  show "insertOrderItem orderId item w = write_all (item_writes orderId item) w"
  proof (cases "oi_options item")
    case None
    then show ?thesis
      by (simp add: insertOrderItem_def item_writes_def listed_def insert_into_run exec_run
          bind_def ret_def)
  next
    case (Some opts)
    with options_write_all[OF l, of opts] show ?thesis
      by (simp add: insertOrderItem_def item_writes_def listed_def insert_into_run exec_run
          bind_def)
  qed
qed

lemma insertOrderItems_write_all:
  "insertOrderItems orderId items = write_all (concat (map (item_writes orderId) items))"
  unfolding insertOrderItems_def
  by (rule for_each_write_all) (rule insertOrderItem_write_all)


subsubsection \<open>What a sequence of writes leaves when a write is rejected\<close>

lemma written_Nil [simp]: "written [] w = w"
  by (simp add: written_def)

lemma written_Cons [simp]: "written (f # fs) w = written fs (f w)"
  by (simp add: written_def)

lemma written_append: "written (xs @ ys) w = written ys (written xs w)"
  by (simp add: written_def)

lemma written_faults:
  "(\<And>f w F. f \<in> set fs \<Longrightarrow> f (w\<lparr>faults := F\<rparr>) = (f w)\<lparr>faults := F\<rparr>) \<Longrightarrow>
   written fs (w\<lparr>faults := F\<rparr>) = (written fs w)\<lparr>faults := F\<rparr>"
proof (induction fs arbitrary: w)
  case Nil
  show ?case by simp
next
  case (Cons a fs)
  have "a (w\<lparr>faults := F\<rparr>) = (a w)\<lparr>faults := F\<rparr>"
    by (rule Cons.prems) simp
  moreover have "written fs (a w\<lparr>faults := F\<rparr>) = (written fs (a w))\<lparr>faults := F\<rparr>"
    by (rule Cons.IH, rule Cons.prems) simp
  ultimately show ?case by simp
qed

lemma write_all_rejected:
  assumes "\<And>f w F. f \<in> set fs \<Longrightarrow> f (w\<lparr>faults := F\<rparr>) = (f w)\<lparr>faults := F\<rparr>"
    and "faults w = replicate k False @ True # rest" and "k < length fs"
  shows "write_all fs w = (Inl StoreError, (written (take k fs) w)\<lparr>faults := rest\<rparr>)"
  using assms
proof (induction fs arbitrary: k w)
  case Nil
  then show ?case by simp
next
  case (Cons f fs)
  show ?case
  proof (cases k)
    case 0
    with Cons.prems(2) show ?thesis
      by (simp add: exec_run bind_def rejected_def advance_eq)
  next
    case (Suc j)
    with Cons.prems(2) have nr: "\<not> rejected w" and fa: "faults (advance w) = replicate j False @ True # rest"
      by (simp_all add: rejected_def advance_eq)
    have "f (w\<lparr>faults := tl (faults w)\<rparr>) = (f w)\<lparr>faults := tl (faults w)\<rparr>"
      by (rule Cons.prems(1)) simp
    with fa have q: "f (advance w) = (f w)\<lparr>faults := replicate j False @ True # rest\<rparr>"
      by (simp add: advance_eq)
    then have fq: "faults (f (advance w)) = replicate j False @ True # rest" by simp
    from Suc Cons.prems(3) have j: "j < length fs" by simp
    have "write_all fs (f (advance w)) =
        (Inl StoreError, (written (take j fs) (f (advance w)))\<lparr>faults := rest\<rparr>)"
      by (rule Cons.IH[OF _ fq j], rule Cons.prems(1)) simp
    moreover have "written (take j fs) (f (advance w)) =
        (written (take j fs) (f w))\<lparr>faults := replicate j False @ True # rest\<rparr>"
      unfolding q by (rule written_faults, rule Cons.prems(1)) (auto dest: in_set_takeD)
    ultimately show ?thesis using nr Suc by (simp add: exec_run bind_def)
  qed
qed

lemma write_all_accepted:
  assumes "\<And>f w F. f \<in> set fs \<Longrightarrow> f (w\<lparr>faults := F\<rparr>) = (f w)\<lparr>faults := F\<rparr>"
    and "True \<notin> set (take (length fs) (faults w))"
  shows "write_all fs w = (Inr (), (written fs w)\<lparr>faults := drop (length fs) (faults w)\<rparr>)"
  using assms
proof (induction fs arbitrary: w)
  case Nil
  then show ?case by (simp add: ret_def)
next
  case (Cons f fs)
  from Cons.prems(2) have nr: "\<not> rejected w"
    by (auto simp: rejected_def split: list.splits)
  have "f (w\<lparr>faults := tl (faults w)\<rparr>) = (f w)\<lparr>faults := tl (faults w)\<rparr>"
    by (rule Cons.prems(1)) simp
  then have q: "f (advance w) = (f w)\<lparr>faults := tl (faults w)\<rparr>"
    by (simp add: advance_eq)
  then have fq: "faults (f (advance w)) = tl (faults w)" by simp
  from Cons.prems(2) have nt: "True \<notin> set (take (length fs) (faults (f (advance w))))"
    unfolding fq by (cases "faults w") auto
  have "write_all fs (f (advance w)) =
      (Inr (), (written fs (f (advance w)))\<lparr>faults := drop (length fs) (faults (f (advance w)))\<rparr>)"
    by (rule Cons.IH[OF _ nt], rule Cons.prems(1)) simp
  moreover have "written fs (f (advance w)) = (written fs (f w))\<lparr>faults := tl (faults w)\<rparr>"
    unfolding q by (rule written_faults, rule Cons.prems(1)) simp
  ultimately show ?case using nr
    by (simp add: exec_run bind_def fq drop_Suc)
qed

lemma fanout_faults:
  "f \<in> set (fanout orderId order) \<Longrightarrow> f (w\<lparr>faults := F\<rparr>) = (f w)\<lparr>faults := F\<rparr>"
  by (auto simp: fanout_def item_writes_def option_write_def last_item_id_def
      split: option.splits)

text \<open>A sequence of writes that leaves a table alone, run as statements.\<close>

lemma write_all_frame:
  assumes "\<And>f w. f \<in> set fs \<Longrightarrow> v (f w) = v w" and "\<And>w F. v (w\<lparr>faults := F\<rparr>) = v w"
    and "write_all fs w = (r, w')"
  shows "v w' = v w"
  using assms(1,3)
proof (induction fs arbitrary: w)
  case Nil
  then show ?case by (simp add: ret_def)
next
  case (Cons f fs)
  show ?case
  proof (cases "rejected w")
    case True
    with Cons.prems(2) show ?thesis by (auto simp: exec_run bind_def advance_eq assms(2))
  next
    case False
    with Cons.prems(2) have "write_all fs (f (advance w)) = (r, w')"
      by (simp add: exec_run bind_def)
    from Cons.IH[OF _ this] Cons.prems(1) have "v w' = v (f (advance w))" by simp
    then show ?thesis by (simp add: Cons.prems(1) advance_eq assms(2))
  qed
qed

lemma insertBillingDetails_write:
  "\<not> list_ex (\<lambda>r. br_order_id r = orderId) (rows (billing_details w)) \<Longrightarrow>
   insertBillingDetails orderId billing w =
     exec (billing_details_update (insert_row br_id (billingRow orderId billing))) w"
  by (simp add: insertBillingDetails_def insert_into_def stmt_def exec_run bind_def ret_def
      advance_eq)

lemma bind_cong_at: "m w = m' w \<Longrightarrow> bind m f w = bind m' f w"
  by (simp add: bind_def)

lemma insertOrderDetails_write_all:
  assumes "\<not> list_ex (\<lambda>r. br_order_id r = orderId) (rows (billing_details w))"
  shows "insertOrderDetails orderId order w =
     bind (write_all (fanout orderId order))
       (\<lambda>_. bind (cache_delete ''dashboard:stats'')
          (\<lambda>_. ret \<lparr>po_orderId = orderId, po_isNew = True\<rparr>)) w"
proof -
  define A :: "(world \<Rightarrow> world) list" where "A = concat (map (item_writes orderId) (o_items order)) @
     map (\<lambda>c. order_coupons_update (insert_row ocr_id (orderCouponRow orderId c)))
       (listed (o_coupons order)) @
     map (\<lambda>t. order_taxes_update (insert_row otr_id (orderTaxRow orderId t)))
       (listed (o_tax_list order))"
  define D :: "(world \<Rightarrow> world) list" where "D = (case o_billing_details order of
        None \<Rightarrow> []
      | Some b \<Rightarrow> [billing_details_update (insert_row br_id (billingRow orderId b))])"
  define B where "B = (case o_billing_details order of
             None \<Rightarrow> ret ()
           | Some billing \<Rightarrow> insertBillingDetails orderId billing)"
  define tail where "tail = bind (cache_delete ''dashboard:stats'')
          (\<lambda>_. ret \<lparr>po_orderId = orderId, po_isNew = True\<rparr>)"
  have coupons: "(case o_coupons order of
             None \<Rightarrow> ret ()
           | Some coupons \<Rightarrow>
               for_each (\<lambda>coupon.
                 bind (insert_into order_coupons order_coupons_update ocr_id []
                         (orderCouponRow orderId coupon))
                   (\<lambda>_. ret ())) coupons) =
      write_all (map (\<lambda>c. order_coupons_update (insert_row ocr_id (orderCouponRow orderId c)))
       (listed (o_coupons order)))"
    by (cases "o_coupons order")
       (simp_all add: listed_def for_each_writes[where g = "\<lambda>c. order_coupons_update (insert_row ocr_id (orderCouponRow orderId c))"] insert_into_exec)
  have taxes: "(case o_tax_list order of
             None \<Rightarrow> ret ()
           | Some taxes \<Rightarrow>
               for_each (\<lambda>tax.
                 bind (insert_into order_taxes order_taxes_update otr_id []
                         (orderTaxRow orderId tax))
                   (\<lambda>_. ret ())) taxes) =
      write_all (map (\<lambda>t. order_taxes_update (insert_row otr_id (orderTaxRow orderId t)))
       (listed (o_tax_list order)))"
    by (cases "o_tax_list order")
       (simp_all add: listed_def for_each_writes[where g = "\<lambda>t. order_taxes_update (insert_row otr_id (orderTaxRow orderId t))"] insert_into_exec)
  have wa: "write_all A = bind (insertOrderItems orderId (o_items order)) (\<lambda>_.
     bind (write_all (map (\<lambda>c. order_coupons_update (insert_row ocr_id (orderCouponRow orderId c)))
       (listed (o_coupons order)))) (\<lambda>_.
     write_all (map (\<lambda>t. order_taxes_update (insert_row otr_id (orderTaxRow orderId t)))
       (listed (o_tax_list order)))))"
    unfolding A_def write_all_append insertOrderItems_write_all ..
  have split: "insertOrderDetails orderId order = bind (write_all A) (\<lambda>_. bind B (\<lambda>_. tail))"
    unfolding insertOrderDetails_def coupons taxes wa io_bind_assoc B_def tail_def ..
  have fan: "write_all (fanout orderId order) = bind (write_all A) (\<lambda>_. write_all D)"
    unfolding fanout_def A_def D_def write_all_append io_bind_assoc ..
  obtain r w1 where run: "write_all A w = (r, w1)" by (cases "write_all A w")
  have "billing_details w1 = billing_details w"
    by (rule write_all_frame[OF _ _ run])
       (auto simp: A_def item_writes_def option_write_def)
  with assms have free: "\<not> list_ex (\<lambda>r. br_order_id r = orderId) (rows (billing_details w1))"
    by simp
  have "B w1 = write_all D w1"
    unfolding B_def D_def
    by (cases "o_billing_details order")
       (simp_all add: insertBillingDetails_write[OF free] bind_ret_right)
  then have "bind B (\<lambda>_. tail) w1 = bind (write_all D) (\<lambda>_. tail) w1"
    by (rule bind_cong_at)
  then show ?thesis
    unfolding split fan io_bind_assoc tail_def[symmetric]
    by (cases r) (simp_all add: bind_def[of "write_all A"] run)
qed


subsubsection \<open>What the writes of the fan-out touch\<close>

lemma written_frame:
  "(\<And>f w. f \<in> set fs \<Longrightarrow> v (f w) = v w) \<Longrightarrow> v (written fs w) = v w"
proof (induction fs arbitrary: w)
  case Nil
  show ?case by simp
next
  case (Cons a fs)
  have "v (written fs (a w)) = v (a w)" by (rule Cons.IH, rule Cons.prems) simp
  moreover have "v (a w) = v w" by (rule Cons.prems) simp
  ultimately show ?case by simp
qed

lemma fanout_touches:
  assumes "f \<in> set (fanout orderId order)"
  shows "clients (f w) = clients w" and "client_addresses (f w) = client_addresses w"
    and "restaurants (f w) = restaurants w" and "orders (f w) = orders w"
    and "cache (f w) = cache w"
  using assms
  by (auto simp: fanout_def item_writes_def option_write_def split: option.splits)

lemma fanout_order_kept: "order_kept w (written (take k (fanout orderId order)) w)"
  unfolding order_kept_def
  by (intro conjI written_frame) (auto dest!: in_set_takeD simp: fanout_touches)

lemma fanout_tied_iff:
  "fanout_tied orderId order w w' =
     (\<exists>ni no. rows (order_items w') = rows (order_items w) @ ni \<and>
        rows (order_item_options w') = rows (order_item_options w) @ no \<and>
        (\<forall>i\<in>set ni. \<exists>x\<in>set (o_items order). i = orderItemRow orderId x (oir_id i)) \<and>
        (\<forall>r\<in>set no. \<exists>i\<in>set ni. \<exists>x\<in>set (o_items order).
            i = orderItemRow orderId x (oir_id i) \<and>
            (\<exists>p\<in>set (listed (oi_options x)). r = orderItemOptionRow (oir_id i) p (oor_id r))))"
  unfolding fanout_tied_def grows_iff new_rows_def list_all_iff list_ex_iff
  by (rule iffI; clarsimp) 

lemma fanout_tied_refl: "fanout_tied orderId order w w"
  unfolding fanout_tied_iff by simp

text \<open>The item row written last is a new row of the item \<open>x\<close>.\<close>

lemma option_writes_tied:
  assumes x: "x \<in> set (o_items order)"
  shows "set ps \<subseteq> set (listed (oi_options x)) \<Longrightarrow>
     fanout_tied orderId order w0 w \<Longrightarrow>
     last (rows (order_items w)) \<in> set (new_rows order_items w0 w) \<Longrightarrow>
     last (rows (order_items w)) = orderItemRow orderId x (last_item_id w) \<Longrightarrow>
     fanout_tied orderId order w0 (written (map option_write ps) w)"
proof (induction ps arbitrary: w)
  case Nil
  then show ?case by simp
next
  case (Cons p ps)
  let ?i = "last (rows (order_items w))"
  let ?w = "option_write p w"
  from Cons.prems(2) obtain ni no where
    ni: "rows (order_items w) = rows (order_items w0) @ ni"
    and no: "rows (order_item_options w) = rows (order_item_options w0) @ no"
    and items: "\<forall>i\<in>set ni. \<exists>x\<in>set (o_items order). i = orderItemRow orderId x (oir_id i)"
    and opts: "\<forall>r\<in>set no. \<exists>i\<in>set ni. \<exists>x\<in>set (o_items order).
            i = orderItemRow orderId x (oir_id i) \<and>
            (\<exists>p\<in>set (listed (oi_options x)). r = orderItemOptionRow (oir_id i) p (oor_id r))"
    unfolding fanout_tied_iff by blast
  from Cons.prems(3) ni have in_ni: "?i \<in> set ni" by (simp add: new_rows_def)
  have id: "oir_id ?i = last_item_id w" by (simp add: last_item_id_def)
  let ?r = "orderItemOptionRow (last_item_id w) p (next_rowid oor_id (order_item_options w))"
  have rows': "rows (order_item_options ?w) = rows (order_item_options w0) @ (no @ [?r])"
    and same: "order_items ?w = order_items w"
    by (simp_all add: option_write_def insert_row_def no)
  have p: "p \<in> set (listed (oi_options x))" using Cons.prems(1) by simp
  have new: "\<exists>i\<in>set ni. \<exists>x\<in>set (o_items order).
            i = orderItemRow orderId x (oir_id i) \<and>
            (\<exists>p\<in>set (listed (oi_options x)). ?r = orderItemOptionRow (oir_id i) p (oor_id ?r))"
  proof (intro bexI[of _ ?i] bexI[of _ x] conjI bexI[of _ p])
    show "?i = orderItemRow orderId x (oir_id ?i)" using Cons.prems(4) id by simp
    show "?r = orderItemOptionRow (oir_id ?i) p (oor_id ?r)"
      by (simp add: id orderItemOptionRow_def)
  qed (fact p x in_ni)+
  have tied: "fanout_tied orderId order w0 ?w"
    unfolding fanout_tied_iff
    by (rule exI[of _ ni], rule exI[of _ "no @ [?r]"])
       (use ni rows' same items opts new in auto)
  have "fanout_tied orderId order w0 (written (map option_write ps) ?w)"
  proof (rule Cons.IH[OF _ tied])
    show "set ps \<subseteq> set (listed (oi_options x))" using Cons.prems(1) by simp
    show "last (rows (order_items ?w)) \<in> set (new_rows order_items w0 ?w)"
      using Cons.prems(3) by (simp add: same new_rows_def)
    show "last (rows (order_items ?w)) = orderItemRow orderId x (last_item_id ?w)"
      using Cons.prems(4) by (simp add: same last_item_id_def)
  qed
  then show ?case by simp
qed

lemma item_writes_tied:
  assumes x: "x \<in> set (o_items order)" and tied: "fanout_tied orderId order w0 w"
  shows "fanout_tied orderId order w0 (written (take k (item_writes orderId x)) w)"
proof (cases k)
  case 0
  with tied show ?thesis by simp
next
  case (Suc j)
  let ?n = "next_rowid oir_id (order_items w)"
  let ?i = "orderItemRow orderId x ?n"
  let ?w = "order_items_update (insert_row oir_id (orderItemRow orderId x)) w"
  from tied obtain ni no where
    ni: "rows (order_items w) = rows (order_items w0) @ ni"
    and no: "rows (order_item_options w) = rows (order_item_options w0) @ no"
    and items: "\<forall>i\<in>set ni. \<exists>x\<in>set (o_items order). i = orderItemRow orderId x (oir_id i)"
    and opts: "\<forall>r\<in>set no. \<exists>i\<in>set ni. \<exists>x\<in>set (o_items order).
            i = orderItemRow orderId x (oir_id i) \<and>
            (\<exists>p\<in>set (listed (oi_options x)). r = orderItemOptionRow (oir_id i) p (oor_id r))"
    unfolding fanout_tied_iff by blast
  have rows': "rows (order_items ?w) = rows (order_items w0) @ (ni @ [?i])"
    and same: "order_item_options ?w = order_item_options w"
    by (simp_all add: insert_row_def ni)
  have i: "?i = orderItemRow orderId x (oir_id ?i)" by (simp add: orderItemRow_def)
  have t1: "fanout_tied orderId order w0 ?w"
    unfolding fanout_tied_iff
    by (rule exI[of _ "ni @ [?i]"], rule exI[of _ no])
       (use rows' same no items opts i x in auto)
  have l: "last (rows (order_items ?w)) = ?i" by (simp add: insert_row_def)
  have "fanout_tied orderId order w0
      (written (map option_write (take j (listed (oi_options x)))) ?w)"
  proof (rule option_writes_tied[OF x _ t1])
    show "set (take j (listed (oi_options x))) \<subseteq> set (listed (oi_options x))"
      by (rule set_take_subset)
    show "last (rows (order_items ?w)) \<in> set (new_rows order_items w0 ?w)"
      unfolding l new_rows_def rows' by simp
    show "last (rows (order_items ?w)) = orderItemRow orderId x (last_item_id ?w)"
      unfolding l by (simp add: last_item_id_def insert_row_def orderItemRow_def)
  qed
  then show ?thesis by (simp add: Suc item_writes_def take_map)
qed

lemma items_tied:
  "set xs \<subseteq> set (o_items order) \<Longrightarrow> fanout_tied orderId order w0 w \<Longrightarrow>
   fanout_tied orderId order w0 (written (take k (concat (map (item_writes orderId) xs))) w)"
proof (induction xs arbitrary: k w)
  case Nil
  then show ?case by simp
next
  case (Cons x xs)
  from Cons.prems have x: "x \<in> set (o_items order)" and xs: "set xs \<subseteq> set (o_items order)"
    by simp_all
  have "fanout_tied orderId order w0 (written (take k (item_writes orderId x)) w)"
    by (rule item_writes_tied[OF x Cons.prems(2)])
  from Cons.IH[OF xs this] show ?case
    by (simp add: written_append)
qed

lemma others_tied:
  assumes "\<And>f w. f \<in> set fs \<Longrightarrow> order_items (f w) = order_items w"
    and "\<And>f w. f \<in> set fs \<Longrightarrow> order_item_options (f w) = order_item_options w"
    and "fanout_tied orderId order w0 w"
  shows "fanout_tied orderId order w0 (written fs w)"
proof -
  have "order_items (written fs w) = order_items w"
    by (rule written_frame) (rule assms(1))
  moreover have "order_item_options (written fs w) = order_item_options w"
    by (rule written_frame) (rule assms(2))
  ultimately show ?thesis using assms(3) by (simp add: fanout_tied_def new_rows_def)
qed

lemma fanout_is_tied:
  "fanout_tied orderId order w (written (take k (fanout orderId order)) w)"
proof -
  define T :: "(world \<Rightarrow> world) list" where "T =
     map (\<lambda>c. order_coupons_update (insert_row ocr_id (orderCouponRow orderId c)))
       (listed (o_coupons order)) @
     map (\<lambda>t. order_taxes_update (insert_row otr_id (orderTaxRow orderId t)))
       (listed (o_tax_list order)) @
     (case o_billing_details order of
        None \<Rightarrow> []
      | Some b \<Rightarrow> [billing_details_update (insert_row br_id (billingRow orderId b))])"
  define I where "I = concat (map (item_writes orderId) (o_items order))"
  have fan: "fanout orderId order = I @ T" by (simp add: fanout_def I_def T_def)
  have "fanout_tied orderId order w (written (take k I) w)"
    unfolding I_def by (rule items_tied[OF _ fanout_tied_refl]) simp
  then have "fanout_tied orderId order w (written (take (k - length I) T) (written (take k I) w))"
    by (rule others_tied[rotated 2])
       (auto dest!: in_set_takeD simp: T_def split: option.splits)
  then show ?thesis by (simp add: fan written_append)
qed


subsubsection \<open>The stages before the fan-out\<close>

lemma getOrCreateClient_cache: "keeps (\<lambda>w. cache w = K) (getOrCreateClient order)"
  unfolding getOrCreateClient_def findClient_def updateClient_def insertClient_def
    saveDeliveryAddress_def saveClientAddress_def
  by (intro keeps_intros) (simp_all add: advance_eq)

lemma getOrCreateRestaurant_client_tables:
  "keeps (\<lambda>w. clients w = C \<and> client_addresses w = A \<and> cache w = K)
     (getOrCreateRestaurant order)"
  unfolding getOrCreateRestaurant_def findRestaurant_def insertRestaurant_def
  by (intro keeps_intros) (simp_all add: advance_eq)

lemma insertOrder_run:
  "insertOrder order clientId restaurantId w = (r, w') \<Longrightarrow>
     (case r of
        Inl e \<Rightarrow> w' = advance w
      | Inr orderId \<Rightarrow>
          orderId = next_rowid or_id (orders w) \<and>
          w' = orders_update (insert_row or_id (orderRow order clientId restaurantId)) (advance w))"
  by (auto simp: insertOrder_def insert_into_def stmt_def advance_eq
      split: if_splits option.splits sum.splits prod.splits)

lemma processOrder_new:
  "findExistingOrder order w = (Inr None, w0) \<Longrightarrow> processOrder order w = storeNewOrder order w0"
  by (simp add: processOrder_def bind_def)

lemma findExistingOrder_store:
  "findExistingOrder order w = (r, w0) \<Longrightarrow> w0 = advance w"
  by (auto simp: findExistingOrder_def query_def stmt_def split: if_splits)

text \<open>
  Claim C4, as the code has it. processOrder on an order that its lookup does not find
  runs the client resolution, the restaurant resolution, the INSERT of the order row and
  the writes of the fan-out one statement after the other, with no transaction around
  them. When the client resolution, the restaurant resolution or the INSERT of the order
  row throws, the call throws that error and the store is the one that step left: the
  client rows, address rows and restaurant rows of the earlier steps are still there, and
  the cache is untouched. Once the order row is written (as the last row of orders, under
  the returned id) every prefix of the fan-out leaves clients, addresses, restaurants,
  order rows and cache alone, appends only item rows of the payload's items for this order
  and option rows of their options, each carrying the rowid of a new row of its own item.
  When the store rejects write number k+1 of the fan-out, the call throws and the store
  holds the order row and exactly the first k rows of the fan-out; the cache entry is not
  deleted. When the store rejects none, the call returns the new id, all rows of the
  fan-out are written and the dashboard cache entry is deleted. (The billing row is
  written under the condition that no stored billing row already carries the new order id.)
\<close>

theorem processOrder_no_rollback:
  assumes "findExistingOrder order w = (Inr None, w0)"
  shows
   "case getOrCreateClient order w0 of
      (Inl e, w1) \<Rightarrow> processOrder order w = (Inl e, w1) \<and> cache w1 = cache w
    | (Inr cid, w1) \<Rightarrow>
    (case getOrCreateRestaurant order w1 of
      (Inl e, w2) \<Rightarrow>
        processOrder order w = (Inl e, w2) \<and> clients w2 = clients w1 \<and>
        client_addresses w2 = client_addresses w1 \<and> cache w2 = cache w
    | (Inr rid, w2) \<Rightarrow>
    (case insertOrder order cid rid w2 of
      (Inl e, w3) \<Rightarrow>
        processOrder order w = (Inl e, w3) \<and> clients w3 = clients w1 \<and>
        client_addresses w3 = client_addresses w1 \<and> restaurants w3 = restaurants w2 \<and>
        cache w3 = cache w
    | (Inr oid, w3) \<Rightarrow>
        rows (orders w3) = rows (orders w) @ [orderRow order cid rid oid] \<and>
        clients w3 = clients w1 \<and> client_addresses w3 = client_addresses w1 \<and>
        restaurants w3 = restaurants w2 \<and> cache w3 = cache w \<and>
        (\<forall>k. order_kept w3 (written (take k (fanout oid order)) w3) \<and>
             fanout_tied oid order w3 (written (take k (fanout oid order)) w3)) \<and>
        (\<not> list_ex (\<lambda>r. br_order_id r = oid) (rows (billing_details w3)) \<longrightarrow>
          (\<forall>k rest. k < length (fanout oid order) \<and>
                faults w3 = replicate k False @ True # rest \<longrightarrow>
             processOrder order w =
               (Inl StoreError, (written (take k (fanout oid order)) w3)\<lparr>faults := rest\<rparr>)) \<and>
          (True \<notin> set (take (length (fanout oid order)) (faults w3)) \<longrightarrow>
             processOrder order w =
               (Inr \<lparr>po_orderId = oid, po_isNew = True\<rparr>,
                (written (fanout oid order) w3)
                  \<lparr>faults := drop (length (fanout oid order)) (faults w3),
                   cache := (cache w3)(''dashboard:stats'' := None)\<rparr>)))))"
proof -
  note new = processOrder_new[OF assms]
  from findExistingOrder_store[OF assms] have w0: "orders w0 = orders w" "cache w0 = cache w"
    by (simp_all add: advance_eq)
  obtain r1 w1 where s1: "getOrCreateClient order w0 = (r1, w1)"
    by (cases "getOrCreateClient order w0")
  have o1: "orders w1 = orders w"
    using keepsD[OF getOrCreateClient_orders _ s1, of "orders w"] w0 by simp
  have c1: "cache w1 = cache w"
    using keepsD[OF getOrCreateClient_cache _ s1, of "cache w"] w0 by simp
  show ?thesis
  proof (cases r1)
    case (Inl e)
    with s1 c1 show ?thesis by (simp add: new storeNewOrder_def bind_def)
  next
    case cid: (Inr cid)
    obtain r2 w2 where s2: "getOrCreateRestaurant order w1 = (r2, w2)"
      by (cases "getOrCreateRestaurant order w1")
    have o2: "orders w2 = orders w"
      using keepsD[OF getOrCreateRestaurant_orders _ s2, of "orders w"] o1 by simp
    have f2: "clients w2 = clients w1 \<and> client_addresses w2 = client_addresses w1 \<and> cache w2 = cache w"
      using keepsD[OF getOrCreateRestaurant_client_tables _ s2,
          of "clients w1" "client_addresses w1" "cache w"] c1 by simp
    show ?thesis
    proof (cases r2)
      case (Inl e)
      with s1 cid s2 f2 show ?thesis by (simp add: new storeNewOrder_def bind_def)
    next
      case rid: (Inr rid)
      obtain r3 w3 where s3: "insertOrder order cid rid w2 = (r3, w3)"
        by (cases "insertOrder order cid rid w2")
      note run3 = insertOrder_run[OF s3]
      show ?thesis
      proof (cases r3)
        case (Inl e)
        with run3 have "w3 = advance w2" by simp
        with f2 have "clients w3 = clients w1 \<and> client_addresses w3 = client_addresses w1 \<and>
            restaurants w3 = restaurants w2 \<and> cache w3 = cache w"
          by (simp add: advance_eq)
        with s1 cid s2 rid s3 Inl show ?thesis by (simp add: new storeNewOrder_def bind_def)
      next
        case oid: (Inr oid)
        with run3 have id: "oid = next_rowid or_id (orders w2)"
          and w3: "w3 = orders_update (insert_row or_id (orderRow order cid rid)) (advance w2)"
          by simp_all
        have b1: "rows (orders w3) = rows (orders w) @ [orderRow order cid rid oid] \<and>
            clients w3 = clients w1 \<and> client_addresses w3 = client_addresses w1 \<and>
            restaurants w3 = restaurants w2 \<and> cache w3 = cache w"
          using f2 o2 by (simp add: w3 id insert_row_def advance_eq)
        have b2: "\<forall>k. order_kept w3 (written (take k (fanout oid order)) w3) \<and>
             fanout_tied oid order w3 (written (take k (fanout oid order)) w3)"
          by (simp add: fanout_order_kept fanout_is_tied)
        have run: "processOrder order w = insertOrderDetails oid order w3"
          using s1 cid s2 rid s3 oid by (simp add: new storeNewOrder_def bind_def)
        have b3: "processOrder order w =
               (Inl StoreError, (written (take k (fanout oid order)) w3)\<lparr>faults := rest\<rparr>)"
          if free: "\<not> list_ex (\<lambda>r. br_order_id r = oid) (rows (billing_details w3))"
            and k: "k < length (fanout oid order)"
            and fa: "faults w3 = replicate k False @ True # rest" for k rest
        proof -
          have "write_all (fanout oid order) w3 =
              (Inl StoreError, (written (take k (fanout oid order)) w3)\<lparr>faults := rest\<rparr>)"
            by (rule write_all_rejected[OF fanout_faults fa k])
          then show ?thesis
            unfolding run insertOrderDetails_write_all[OF free] by (simp add: bind_def)
        qed
        have b4: "processOrder order w =
               (Inr \<lparr>po_orderId = oid, po_isNew = True\<rparr>,
                (written (fanout oid order) w3)
                  \<lparr>faults := drop (length (fanout oid order)) (faults w3),
                   cache := (cache w3)(''dashboard:stats'' := None)\<rparr>)"
          if free: "\<not> list_ex (\<lambda>r. br_order_id r = oid) (rows (billing_details w3))"
            and ok: "True \<notin> set (take (length (fanout oid order)) (faults w3))"
        proof -
          have "write_all (fanout oid order) w3 =
              (Inr (), (written (fanout oid order) w3)
                  \<lparr>faults := drop (length (fanout oid order)) (faults w3)\<rparr>)"
            by (rule write_all_accepted[OF fanout_faults ok])
          moreover have "cache (written (fanout oid order) w3) = cache w3"
            by (rule written_frame) (rule fanout_touches)
          ultimately show ?thesis
            unfolding run insertOrderDetails_write_all[OF free]
            by (simp add: bind_def cache_delete_def ret_def)
        qed
        from b1 b2 b3 b4 s1 cid s2 rid s3 oid show ?thesis by simp
      qed
    qed
  qed
qed


text \<open>
  The theorem on the order 888 in a store that rejects the third write of the fan-out: the
  call throws; the order row, the first item row and its option row (tied to item row 1)
  stay; the second item and the coupon are not written; the cache entry is still there.
\<close>

theorem processOrder_no_rollback_witness:
  "fst (findExistingOrder order888 broken_store) = Inr None \<and>
   map or_gloriafood_id (rows (orders broken_store)) = [] \<and>
   map or_gloriafood_id (rows (orders order_written)) = [888] \<and>
   length (fanout 1 order888) = 4 \<and>
   processOrder order888 broken_store =
     (Inl StoreError, (written (take 2 (fanout 1 order888)) order_written)\<lparr>faults := []\<rparr>) \<and>
   map or_gloriafood_id (rows (orders (written (take 2 (fanout 1 order888)) order_written))) = [888] \<and>
   map (\<lambda>r. (oir_id r, oir_order_id r, oir_name r))
     (rows (order_items (written (take 2 (fanout 1 order888)) order_written))) =
     [(1, 1, ''Burger'')] \<and>
   map (\<lambda>r. (oor_order_item_id r, oor_name r))
     (rows (order_item_options (written (take 2 (fanout 1 order888)) order_written))) =
     [(1, ''Cheese'')] \<and>
   rows (order_coupons (written (take 2 (fanout 1 order888)) order_written)) = [] \<and>
   map cl_gloriafood_id (rows (clients (written (take 2 (fanout 1 order888)) order_written))) = [7] \<and>
   cache (written (take 2 (fanout 1 order888)) order_written) ''dashboard:stats'' =
     Some (CachedJson ''{}'')"
proof -
  define w0 where "w0 = snd (findExistingOrder order888 broken_store)"
  define w1 where "w1 = snd (getOrCreateClient order888 w0)"
  define w2 where "w2 = snd (getOrCreateRestaurant order888 w1)"
  have w3: "order_written = snd (insertOrder order888 (Some 1) 1 w2)"
    by (simp add: order_written_def w2_def w1_def w0_def)
  have a: "fst (findExistingOrder order888 broken_store) = Inr None" by code_simp
  then have s0: "findExistingOrder order888 broken_store = (Inr None, w0)"
    by (simp add: w0_def prod_eq_iff)
  have "fst (getOrCreateClient order888 (snd (findExistingOrder order888 broken_store))) =
      Inr (Some 1)"
    by code_simp
  then have s1: "getOrCreateClient order888 w0 = (Inr (Some 1), w1)"
    by (simp add: w1_def w0_def prod_eq_iff)
  have "fst (getOrCreateRestaurant order888
        (snd (getOrCreateClient order888 (snd (findExistingOrder order888 broken_store))))) =
      Inr 1"
    by code_simp
  then have s2: "getOrCreateRestaurant order888 w1 = (Inr 1, w2)"
    by (simp add: w2_def w1_def w0_def prod_eq_iff)
  have "fst (insertOrder order888 (Some 1) 1
       (snd (getOrCreateRestaurant order888
         (snd (getOrCreateClient order888 (snd (findExistingOrder order888 broken_store))))))) =
      Inr 1"
    by code_simp
  then have s3: "insertOrder order888 (Some 1) 1 w2 = (Inr 1, order_written)"
    by (simp add: order_written_def w2_def w1_def w0_def prod_eq_iff)
  have free: "\<not> list_ex (\<lambda>r. br_order_id r = 1) (rows (billing_details order_written))"
    by code_simp
  have fa: "faults order_written = replicate 2 False @ True # []" by code_simp
  have len: "length (fanout 1 order888) = 4" by code_simp
  from processOrder_no_rollback[OF s0] s1 s2 s3 free fa len
  have run: "processOrder order888 broken_store =
     (Inl StoreError, (written (take 2 (fanout 1 order888)) order_written)\<lparr>faults := []\<rparr>)"
    by simp
  have b: "map or_gloriafood_id (rows (orders broken_store)) = []" by code_simp
  have c: "map or_gloriafood_id (rows (orders order_written)) = [888]" by code_simp
  have d: "map or_gloriafood_id (rows (orders (written (take 2 (fanout 1 order888)) order_written))) = [888]"
    by code_simp
  have e: "map (\<lambda>r. (oir_id r, oir_order_id r, oir_name r))
     (rows (order_items (written (take 2 (fanout 1 order888)) order_written))) =
     [(1, 1, ''Burger'')]"
    by code_simp
  have f: "map (\<lambda>r. (oor_order_item_id r, oor_name r))
     (rows (order_item_options (written (take 2 (fanout 1 order888)) order_written))) =
     [(1, ''Cheese'')]"
    by code_simp
  have g: "rows (order_coupons (written (take 2 (fanout 1 order888)) order_written)) = []"
    by code_simp
  have h: "map cl_gloriafood_id (rows (clients (written (take 2 (fanout 1 order888)) order_written))) = [7]"
    by code_simp
  have i: "cache (written (take 2 (fanout 1 order888)) order_written) ''dashboard:stats'' =
     Some (CachedJson ''{}'')"
    by code_simp
  from a b c len run d e f g h i show ?thesis by simp
qed

text \<open>
  Two calls that fail partway and leave their earlier writes behind. In the first the
  store rejects the first item insert: the order row 555 stays, with no item row. In the
  second the restaurant insert hits the unique index on the external restaurant id: the
  client row written just before stays.
\<close>

theorem processOrder_partial_counterexample:
  "map or_gloriafood_id (rows (orders faulty_store)) = [] \<and>
   fst (processOrder order555 faulty_store) = Inl StoreError \<and>
   map or_gloriafood_id (rows (orders (snd (processOrder order555 faulty_store)))) = [555] \<and>
   map oir_name (rows (order_items (snd (processOrder order555 faulty_store)))) = [] \<and>
   map cl_gloriafood_id (rows (clients store555)) = [7] \<and>
   fst (processOrder order777 store555) =
     Inl (ConstraintError ''UNIQUE constraint failed: restaurants.gloriafood_id'') \<and>
   map cl_gloriafood_id (rows (clients (snd (processOrder order777 store555)))) = [7, 8]"
proof -
  have "map or_gloriafood_id (rows (orders faulty_store)) = []" by code_simp
  moreover have "fst (processOrder order555 faulty_store) = Inl StoreError" by code_simp
  moreover have "map or_gloriafood_id (rows (orders (snd (processOrder order555 faulty_store)))) = [555]"
    by code_simp
  moreover have "map oir_name (rows (order_items (snd (processOrder order555 faulty_store)))) = []"
    by code_simp
  moreover have "map cl_gloriafood_id (rows (clients store555)) = [7]" by code_simp
  moreover have "fst (processOrder order777 store555) =
     Inl (ConstraintError ''UNIQUE constraint failed: restaurants.gloriafood_id'')"
    by code_simp
  moreover have "map cl_gloriafood_id (rows (clients (snd (processOrder order777 store555)))) = [7, 8]"
    by code_simp
  ultimately show ?thesis by simp
qed

subsection \<open>getOrCreateClient: the update of a stored client\<close>

lemma findClient_run:
  "\<not> rejected w \<Longrightarrow>
   findClient gid w =
     (Inr (map_option cl_id (find (\<lambda>r. cl_gloriafood_id r = gid) (rows (clients w)))), advance w)"
  by (simp add: findClient_def query_def stmt_def advance_eq)

lemma updateClient_unbound:
  "\<not> (bindable (o_client_first_name order) \<and> bindable (o_client_last_name order) \<and>
      bindable (o_client_email order) \<and> bindable (o_client_phone order)) \<Longrightarrow>
   updateClient cid order w = (Inl BindError, w)"
  by (auto simp: updateClient_def throw_def)

text \<open>
  An order of a stored client that leaves out one of the four fields: the lookup finds the
  client, \<^verbatim>\<open>bind\<close> throws, and nothing is written.
\<close>

lemma getOrCreateClient_unbound:
  assumes "int_or_null (clientGloriaFoodId order) = Some gid"
    and "c \<in> set (rows (clients w))" and "cl_gloriafood_id c = gid"
    and "\<not> rejected w"
    and "\<not> (bindable (o_client_first_name order) \<and> bindable (o_client_last_name order) \<and>
      bindable (o_client_email order) \<and> bindable (o_client_phone order))"
  shows "getOrCreateClient order w = (Inl BindError, advance w)"
proof -
  from assms(2,3) obtain c' where "find (\<lambda>r. cl_gloriafood_id r = gid) (rows (clients w)) = Some c'"
    by (cases "find (\<lambda>r. cl_gloriafood_id r = gid) (rows (clients w))")
       (auto simp: find_None_iff)
  with assms(1,4,5) show ?thesis
    by (simp add: getOrCreateClient_def bind_def findClient_run updateClient_unbound)
qed

text \<open>
  Claim C5, on the code. The claim asks for a non-destructive merge. The UPDATE of a stored
  client is one in intent (\<^verbatim>\<open>COALESCE\<close> on the four name and contact columns) but
  misses it twice. The second order of client 7 leaves out the email: the UPDATE binds the
  four fields as they are, \<^verbatim>\<open>bind\<close> throws on the undefined one, nothing is
  written, and processOrder throws without storing the order. A third order gives all four
  fields and leaves out the marketing consent: the order is stored and the stored consent
  is erased.
\<close>

theorem client_update_unbound:
  "o_client_email order556 = Undefined \<and>
   rows (clients store555) = [ann] \<and>
   getOrCreateClient order556 (advance store555) = (Inl BindError, advance (advance store555)) \<and>
   fst (processOrder order556 store555) = Inl BindError \<and>
   rows (clients (snd (processOrder order556 store555))) = [ann] \<and>
   map or_gloriafood_id (rows (orders (snd (processOrder order556 store555)))) = [555] \<and>
   o_client_marketing_consent order557 = None \<and>
   fst (processOrder order557 store555) = Inr \<lparr>po_orderId = 2, po_isNew = True\<rparr> \<and>
   rows (clients (snd (processOrder order557 store555))) =
     [ann\<lparr>cl_phone := Some ''555-0100'', cl_marketing_consent := False\<rparr>]"
proof -
  have a: "o_client_email order556 = Undefined" by code_simp
  have b: "rows (clients store555) = [ann]" by code_simp
  have "int_or_null (clientGloriaFoodId order556) = Some 7" by code_simp
  moreover have "cl_gloriafood_id ann = 7" by code_simp
  moreover have "\<not> rejected (advance store555)" by code_simp
  moreover from b have "ann \<in> set (rows (clients (advance store555)))" by (simp add: advance_eq)
  moreover from a have "\<not> (bindable (o_client_first_name order556) \<and>
      bindable (o_client_last_name order556) \<and> bindable (o_client_email order556) \<and>
      bindable (o_client_phone order556))"
    by (simp add: bindable_def)
  ultimately have c: "getOrCreateClient order556 (advance store555) =
      (Inl BindError, advance (advance store555))"
    by (intro getOrCreateClient_unbound[where c = ann and gid = 7]) simp_all
  have d: "fst (processOrder order556 store555) = Inl BindError" by code_simp
  have e: "rows (clients (snd (processOrder order556 store555))) = [ann]" by code_simp
  have f: "map or_gloriafood_id (rows (orders (snd (processOrder order556 store555)))) = [555]"
    by code_simp
  have g: "o_client_marketing_consent order557 = None" by code_simp
  have h: "fst (processOrder order557 store555) = Inr \<lparr>po_orderId = 2, po_isNew = True\<rparr>"
    by code_simp
  have i: "rows (clients (snd (processOrder order557 store555))) =
     [ann\<lparr>cl_phone := Some ''555-0100'', cl_marketing_consent := False\<rparr>]"
    by code_simp
  from a b c d e f g h i show ?thesis by simp
qed

subsection \<open>processOrder: two ingestions of one order racing\<close>






subsection \<open>clearMenuData deletes nothing outside the menu\<close>

lemma filter_filter_absorb:
  "(\<And>x. x \<in> set xs \<Longrightarrow> P x \<Longrightarrow> Q x) \<Longrightarrow> filter P (filter Q xs) = filter P xs"
  by (induction xs) auto

lemma clear_inv_refl: "clear_inv menuId w0 w0"
  by (simp add: clear_inv_def)

lemma clear_inv_advance: "clear_inv menuId w0 w \<Longrightarrow> clear_inv menuId w0 (advance w)"
  by (simp add: clear_inv_def advance_eq)

lemma clear_inv_fk: "clear_inv menuId w0 w \<Longrightarrow> foreign_keys w = foreign_keys w0"
proof -
  assume "clear_inv menuId w0 w"
  then have "w\<lparr>menu_categories := menu_categories w0, menu_items := menu_items w0,
        menu_item_sizes := menu_item_sizes w0,
        menu_item_option_groups := menu_item_option_groups w0, faults := faults w0\<rparr> = w0"
    by (simp add: clear_inv_def)
  then have "foreign_keys (w\<lparr>menu_categories := menu_categories w0, menu_items := menu_items w0,
        menu_item_sizes := menu_item_sizes w0,
        menu_item_option_groups := menu_item_option_groups w0, faults := faults w0\<rparr>) = foreign_keys w0"
    by (rule arg_cong)
  then show ?thesis by simp
qed

text \<open>Deleting sizes of an item of the menu.\<close>

lemma clear_inv_delete_sizes:
  assumes inv: "clear_inv menuId w0 w"
    and p: "\<And>r. r \<in> set (rows (menu_item_sizes w0)) \<Longrightarrow> p r \<Longrightarrow> sr_item_id r \<in> menuItemIds menuId w0"
  shows "clear_inv menuId w0 (delete_sizes p w)"
proof -
  have dead: "\<And>r. r \<in> set (rows (menu_item_sizes w)) \<Longrightarrow> p r \<Longrightarrow> sr_id r \<in> menuSizeIds menuId w0"
    using inv p by (auto simp: clear_inv_def menuSizeIds_def)
  have keep: "\<And>r. r \<in> set (rows (menu_item_sizes w)) \<Longrightarrow> p r \<Longrightarrow> sr_item_id r \<in> menuItemIds menuId w0"
    using inv p by (auto simp: clear_inv_def)
  have s: "filter (\<lambda>r. sr_item_id r \<notin> menuItemIds menuId w0) (filter (\<lambda>r. \<not> p r) (rows (menu_item_sizes w)))
         = filter (\<lambda>r. sr_item_id r \<notin> menuItemIds menuId w0) (rows (menu_item_sizes w))"
    by (rule filter_filter_absorb) (use keep in auto)
  have a: "filter (\<lambda>a. \<not> menuAssociation menuId w0 a)
             (filter (\<lambda>a. \<not> (case ar_size_id a of None \<Rightarrow> False
                 | Some i \<Rightarrow> i \<in> set (map sr_id (filter p (rows (menu_item_sizes w))))))
                (rows (menu_item_option_groups w)))
         = filter (\<lambda>a. \<not> menuAssociation menuId w0 a) (rows (menu_item_option_groups w))"
    by (rule filter_filter_absorb) (use dead in \<open>auto simp: menuAssociation_def split: option.splits\<close>)
  show ?thesis
    using inv s a unfolding clear_inv_def delete_sizes_def Let_def delete_where_def
    by (auto simp del: set_map)
qed

lemma clear_inv_delete_assocs:
  assumes inv: "clear_inv menuId w0 w"
    and p: "\<And>a. a \<in> set (rows (menu_item_option_groups w)) \<Longrightarrow> p a \<Longrightarrow> menuAssociation menuId w0 a"
  shows "clear_inv menuId w0 (menu_item_option_groups_update (delete_where p) w)"
proof -
  have a: "filter (\<lambda>a. \<not> menuAssociation menuId w0 a)
             (filter (\<lambda>a. \<not> p a) (rows (menu_item_option_groups w)))
         = filter (\<lambda>a. \<not> menuAssociation menuId w0 a) (rows (menu_item_option_groups w))"
    by (rule filter_filter_absorb) (use p in auto)
  show ?thesis
    using inv a unfolding clear_inv_def delete_where_def by auto
qed

lemma clear_inv_delete_items:
  assumes inv: "clear_inv menuId w0 w"
    and p: "\<And>r. r \<in> set (rows (menu_items w0)) \<Longrightarrow> p r \<Longrightarrow> ir_category_id r \<in> menuCategoryIds menuId w0"
  shows "clear_inv menuId w0 (delete_items p w)"
proof -
  let ?dead = "set (map ir_id (filter p (rows (menu_items w))))"
  have dead: "?dead \<subseteq> menuItemIds menuId w0"
    using inv p by (auto simp: clear_inv_def menuItemIds_def)
  have keep: "\<And>r. r \<in> set (rows (menu_items w)) \<Longrightarrow> p r \<Longrightarrow> ir_category_id r \<in> menuCategoryIds menuId w0"
    using inv p by (auto simp: clear_inv_def)
  have i: "filter (\<lambda>r. ir_category_id r \<notin> menuCategoryIds menuId w0) (filter (\<lambda>r. \<not> p r) (rows (menu_items w)))
         = filter (\<lambda>r. ir_category_id r \<notin> menuCategoryIds menuId w0) (rows (menu_items w))"
    by (rule filter_filter_absorb) (use keep in auto)
  have inv1: "clear_inv menuId w0 (menu_items_update (delete_where p) w)"
    using inv i unfolding clear_inv_def delete_where_def by auto
  show ?thesis
  proof (cases "foreign_keys w")
    case False
    with inv1 show ?thesis by (simp add: delete_items_def Let_def)
  next
    case True
    let ?w1 = "menu_items_update (delete_where p) w"
    have inv2: "clear_inv menuId w0 (menu_item_option_groups_update
        (delete_where (\<lambda>a. case ar_item_id a of None \<Rightarrow> False | Some i \<Rightarrow> i \<in> ?dead)) ?w1)"
      by (rule clear_inv_delete_assocs[OF inv1])
         (use dead in \<open>auto simp: menuAssociation_def split: option.splits\<close>)
    have "clear_inv menuId w0 (delete_sizes (\<lambda>r. sr_item_id r \<in> ?dead)
        (menu_item_option_groups_update
        (delete_where (\<lambda>a. case ar_item_id a of None \<Rightarrow> False | Some i \<Rightarrow> i \<in> ?dead)) ?w1))"
      by (rule clear_inv_delete_sizes[OF inv2]) (use dead in auto)
    with True show ?thesis by (simp add: delete_items_def Let_def)
  qed
qed

lemma clear_inv_delete_categories:
  assumes inv: "clear_inv menuId w0 w" and cats: "menu_categories w = menu_categories w0"
  shows "clear_inv menuId w0 (delete_categories (\<lambda>r. cr_menu_id r = menuId) w)"
proof -
  let ?p = "\<lambda>r. cr_menu_id r = menuId"
  let ?dead = "set (map cr_id (filter ?p (rows (menu_categories w))))"
  have dead: "?dead = menuCategoryIds menuId w0"
    using cats by (auto simp: menuCategoryIds_def)
  have inv1: "clear_inv menuId w0 (menu_categories_update (delete_where ?p) w)"
    using inv cats unfolding clear_inv_def delete_where_def by auto
  show ?thesis
  proof (cases "foreign_keys w")
    case False
    with inv1 show ?thesis by (simp add: delete_categories_def Let_def)
  next
    case True
    have "clear_inv menuId w0 (delete_items (\<lambda>r. ir_category_id r \<in> ?dead)
            (menu_categories_update (delete_where ?p) w))"
      by (rule clear_inv_delete_items[OF inv1]) (use dead in auto)
    with True show ?thesis by (simp add: delete_categories_def Let_def)
  qed
qed

lemma clear_loop_inv_advance:
  "clear_loop_inv menuId w0 w \<Longrightarrow> clear_loop_inv menuId w0 (advance w)"
  by (simp add: clear_loop_inv_def clear_inv_advance)

lemma clearMenuData_item:
  assumes "item \<in> menuItemIds menuId w0"
  shows "hoare (clear_loop_inv menuId w0)
     (bind (exec (delete_sizes (\<lambda>r. sr_item_id r = item)))
        (\<lambda>_. exec (menu_item_option_groups_update (delete_where (\<lambda>a. ar_item_id a = Some item)))))
     (\<lambda>_. clear_loop_inv menuId w0) (\<lambda>_. clear_loop_inv menuId w0)"
proof (rule hoare_bind[where R = "\<lambda>_. clear_loop_inv menuId w0"])
  show "hoare (clear_loop_inv menuId w0) (exec (delete_sizes (\<lambda>r. sr_item_id r = item)))
     (\<lambda>_. clear_loop_inv menuId w0) (\<lambda>_. clear_loop_inv menuId w0)"
    by (rule hoare_exec)
       (use assms in \<open>auto simp: clear_loop_inv_def clear_inv_advance intro!: clear_inv_delete_sizes\<close>)
next
  fix a :: unit
  have "\<And>w. clear_inv menuId w0 w \<Longrightarrow>
     clear_inv menuId w0 (menu_item_option_groups_update
        (delete_where (\<lambda>a. ar_item_id a = Some item)) w)"
    by (rule clear_inv_delete_assocs) (use assms in \<open>auto simp: menuAssociation_def\<close>)
  then show "hoare (clear_loop_inv menuId w0)
     (exec (menu_item_option_groups_update (delete_where (\<lambda>a. ar_item_id a = Some item))))
     (\<lambda>_. clear_loop_inv menuId w0) (\<lambda>_. clear_loop_inv menuId w0)"
    by (intro hoare_exec) (auto simp: clear_loop_inv_def clear_inv_advance)
qed

lemma clearMenuData_category:
  assumes "cat \<in> menuCategoryIds menuId w0"
  shows "hoare (clear_loop_inv menuId w0)
     (bind (query (\<lambda>w. map ir_id (filter (\<lambda>r. ir_category_id r = cat) (rows (menu_items w)))))
        (\<lambda>items.
      bind (for_each (\<lambda>item.
              bind (exec (delete_sizes (\<lambda>r. sr_item_id r = item)))
                (\<lambda>_. exec (menu_item_option_groups_update
                              (delete_where (\<lambda>a. ar_item_id a = Some item)))))
            items)
        (\<lambda>_. exec (delete_items (\<lambda>r. ir_category_id r = cat)))))
     (\<lambda>_. clear_loop_inv menuId w0) (\<lambda>_. clear_loop_inv menuId w0)"
proof (rule hoare_bind[where R = "\<lambda>items w. clear_loop_inv menuId w0 w \<and> set items \<subseteq> menuItemIds menuId w0"])
  show "hoare (clear_loop_inv menuId w0)
     (query (\<lambda>w. map ir_id (filter (\<lambda>r. ir_category_id r = cat) (rows (menu_items w)))))
     (\<lambda>items w. clear_loop_inv menuId w0 w \<and> set items \<subseteq> menuItemIds menuId w0)
     (\<lambda>_. clear_loop_inv menuId w0)"
    by (rule hoare_query)
       (use assms in \<open>auto simp: advance_eq clear_loop_inv_def clear_inv_def menuItemIds_def\<close>)
next
  fix items
  show "hoare (\<lambda>w. clear_loop_inv menuId w0 w \<and> set items \<subseteq> menuItemIds menuId w0)
     (bind (for_each (\<lambda>item.
              bind (exec (delete_sizes (\<lambda>r. sr_item_id r = item)))
                (\<lambda>_. exec (menu_item_option_groups_update
                              (delete_where (\<lambda>a. ar_item_id a = Some item)))))
            items)
        (\<lambda>_. exec (delete_items (\<lambda>r. ir_category_id r = cat))))
     (\<lambda>_. clear_loop_inv menuId w0) (\<lambda>_. clear_loop_inv menuId w0)"
  proof (cases "set items \<subseteq> menuItemIds menuId w0")
    case False
    then show ?thesis by (simp add: hoare_def)
  next
    case True
    have loop: "hoare (clear_loop_inv menuId w0)
       (for_each (\<lambda>item.
              bind (exec (delete_sizes (\<lambda>r. sr_item_id r = item)))
                (\<lambda>_. exec (menu_item_option_groups_update
                              (delete_where (\<lambda>a. ar_item_id a = Some item)))))
            items)
       (\<lambda>_. clear_loop_inv menuId w0) (\<lambda>_. clear_loop_inv menuId w0)"
      by (rule hoare_for_each) (use True in \<open>auto intro: clearMenuData_item\<close>)
    have del: "hoare (clear_loop_inv menuId w0) (exec (delete_items (\<lambda>r. ir_category_id r = cat)))
       (\<lambda>_. clear_loop_inv menuId w0) (\<lambda>_. clear_loop_inv menuId w0)"
      by (rule hoare_exec)
         (use assms in \<open>auto simp: clear_loop_inv_def clear_inv_advance intro!: clear_inv_delete_items\<close>)
    show ?thesis
      by (rule hoare_pre[OF hoare_bind[OF loop del]]) simp
  qed
qed

lemma clearMenuData_inv:
  "hoare (\<lambda>w. w = w0) (clearMenuData menuId) (\<lambda>_. clear_inv menuId w0) (\<lambda>_. clear_inv menuId w0)"
  unfolding clearMenuData_def
proof (rule hoare_bind[where R = "\<lambda>cats w. clear_loop_inv menuId w0 w \<and> set cats \<subseteq> menuCategoryIds menuId w0"])
  show "hoare (\<lambda>w. w = w0)
     (query (\<lambda>w. map cr_id (filter (\<lambda>r. cr_menu_id r = menuId) (rows (menu_categories w)))))
     (\<lambda>cats w. clear_loop_inv menuId w0 w \<and> set cats \<subseteq> menuCategoryIds menuId w0)
     (\<lambda>_. clear_inv menuId w0)"
    unfolding query_def
    by (rule hoare_stmt)
       (auto simp: clear_loop_inv_def clear_inv_refl clear_inv_advance menuCategoryIds_def)
next
  fix cats
  let ?body = "\<lambda>cat.
             bind (query (\<lambda>w. map ir_id (filter (\<lambda>r. ir_category_id r = cat) (rows (menu_items w)))))
               (\<lambda>items.
             bind (for_each (\<lambda>item.
                     bind (exec (delete_sizes (\<lambda>r. sr_item_id r = item)))
                       (\<lambda>_. exec (menu_item_option_groups_update
                                     (delete_where (\<lambda>a. ar_item_id a = Some item)))))
                   items)
               (\<lambda>_. exec (delete_items (\<lambda>r. ir_category_id r = cat))))"
  show "hoare (\<lambda>w. clear_loop_inv menuId w0 w \<and> set cats \<subseteq> menuCategoryIds menuId w0)
     (bind (for_each ?body cats) (\<lambda>_. exec (delete_categories (\<lambda>r. cr_menu_id r = menuId))))
     (\<lambda>_. clear_inv menuId w0) (\<lambda>_. clear_inv menuId w0)"
  proof (cases "set cats \<subseteq> menuCategoryIds menuId w0")
    case False
    then show ?thesis by (simp add: hoare_def)
  next
    case True
    have "hoare (clear_loop_inv menuId w0) (for_each ?body cats)
       (\<lambda>_. clear_loop_inv menuId w0) (\<lambda>_. clear_loop_inv menuId w0)"
      by (rule hoare_for_each) (use True in \<open>auto intro: clearMenuData_category\<close>)
    then have loop: "hoare (clear_loop_inv menuId w0) (for_each ?body cats)
       (\<lambda>_. clear_loop_inv menuId w0) (\<lambda>_. clear_inv menuId w0)"
      by (rule hoare_weaken) (auto simp: clear_loop_inv_def)
    have del: "hoare (clear_loop_inv menuId w0)
       (exec (delete_categories (\<lambda>r. cr_menu_id r = menuId)))
       (\<lambda>_. clear_inv menuId w0) (\<lambda>_. clear_inv menuId w0)"
      unfolding exec_def
      by (rule hoare_stmt)
         (auto simp: clear_loop_inv_def clear_inv_advance intro!: clear_inv_delete_categories)
    show ?thesis
      by (rule hoare_pre[OF hoare_bind[OF loop del]]) simp
  qed
qed

text \<open>
  Claim C7. The clear phase of a menu sync, whatever the stored state and whether it
  completes or throws half way, deletes or modifies no OptionGroup row and no Option row;
  it touches no table but menu_categories, menu_items, menu_item_sizes and
  menu_item_option_groups, and in these four it keeps every row that is not scoped to the
  menu being synced.
\<close>

theorem clearMenuData_frame:
  assumes "clearMenuData menuId w = (r, w')"
  shows "menu_option_groups w' = menu_option_groups w \<and> menu_options w' = menu_options w \<and>
    w'\<lparr>menu_categories := menu_categories w, menu_items := menu_items w,
       menu_item_sizes := menu_item_sizes w,
       menu_item_option_groups := menu_item_option_groups w, faults := faults w\<rparr> = w \<and>
    filter (\<lambda>r. cr_menu_id r \<noteq> menuId) (rows (menu_categories w')) =
      filter (\<lambda>r. cr_menu_id r \<noteq> menuId) (rows (menu_categories w)) \<and>
    filter (\<lambda>r. ir_category_id r \<notin> menuCategoryIds menuId w) (rows (menu_items w')) =
      filter (\<lambda>r. ir_category_id r \<notin> menuCategoryIds menuId w) (rows (menu_items w)) \<and>
    filter (\<lambda>r. sr_item_id r \<notin> menuItemIds menuId w) (rows (menu_item_sizes w')) =
      filter (\<lambda>r. sr_item_id r \<notin> menuItemIds menuId w) (rows (menu_item_sizes w)) \<and>
    filter (\<lambda>a. \<not> menuAssociation menuId w a) (rows (menu_item_option_groups w')) =
      filter (\<lambda>a. \<not> menuAssociation menuId w a) (rows (menu_item_option_groups w))"
proof -
  have inv: "clear_inv menuId w w'"
  proof (cases r)
    case (Inl e)
    with assms clearMenuData_inv[of w menuId] show ?thesis by (auto dest: hoareD_Inl)
  next
    case (Inr a)
    with assms clearMenuData_inv[of w menuId] show ?thesis by (auto dest: hoareD_Inr)
  qed
  then have eq: "w'\<lparr>menu_categories := menu_categories w, menu_items := menu_items w,
       menu_item_sizes := menu_item_sizes w,
       menu_item_option_groups := menu_item_option_groups w, faults := faults w\<rparr> = w"
    by (simp add: clear_inv_def)
  have "menu_option_groups w' = menu_option_groups (w'\<lparr>menu_categories := menu_categories w, menu_items := menu_items w,
       menu_item_sizes := menu_item_sizes w,
       menu_item_option_groups := menu_item_option_groups w, faults := faults w\<rparr>)" by simp
  then have g: "menu_option_groups w' = menu_option_groups w" by (simp only: eq)
  have "menu_options w' = menu_options (w'\<lparr>menu_categories := menu_categories w, menu_items := menu_items w,
       menu_item_sizes := menu_item_sizes w,
       menu_item_option_groups := menu_item_option_groups w, faults := faults w\<rparr>)" by simp
  then have o: "menu_options w' = menu_options w" by (simp only: eq)
  from inv g o eq show ?thesis by (simp add: clear_inv_def)
qed

theorem clearMenuData_frame_witness:
  "fst (clearMenuData 1 demo_store) = Inr () \<and>
   rows (menu_categories (snd (clearMenuData 1 demo_store))) = [] \<and>
   rows (menu_item_option_groups (snd (clearMenuData 1 demo_store))) =
     [\<lparr>ar_id = 1, ar_item_id = None, ar_size_id = Some 2, ar_option_group_id = 1\<rparr>] \<and>
   menu_option_groups (snd (clearMenuData 1 demo_store)) = menu_option_groups demo_store \<and>
   menu_options (snd (clearMenuData 1 demo_store)) = menu_options demo_store \<and>
   length (rows (menu_options demo_store)) = 2"
proof -
  have a: "fst (clearMenuData 1 demo_store) = Inr ()" by code_simp
  have b: "rows (menu_categories (snd (clearMenuData 1 demo_store))) = []" by code_simp
  have c: "rows (menu_item_option_groups (snd (clearMenuData 1 demo_store))) =
     [\<lparr>ar_id = 1, ar_item_id = None, ar_size_id = Some 2, ar_option_group_id = 1\<rparr>]" by code_simp
  have d: "length (rows (menu_options demo_store)) = 2" by code_simp
  from clearMenuData_frame[OF prod.collapse[symmetric], of 1 demo_store]
  have "menu_option_groups (snd (clearMenuData 1 demo_store)) = menu_option_groups demo_store"
    and "menu_options (snd (clearMenuData 1 demo_store)) = menu_options demo_store"
    by simp_all
  with a b c d show ?thesis by simp
qed

subsection \<open>The push webhook rejects a batch without the master key\<close>

lemma validate_mismatch:
  "authHeader \<noteq> masterKey \<or> authHeader = None \<or> masterKey = None \<Longrightarrow>
   \<not> validateWebhookRequest authHeader masterKey"
  by (auto simp: validateWebhookRequest_def missing_def)

text \<open>
  Claim C8. A push-delivered batch whose Authorization header is not exactly the configured
  master key (the header or the key may be missing) is rejected as a whole: whatever the
  store holds and whatever the batch, the handler changes no table but webhook_logs (no
  order, client, restaurant or other entity row is written), and, when the store accepts
  the statement that logs the attempt, the response is 401 Unauthorized and the event log
  gains exactly the row of the refused attempt.
\<close>

theorem webhook_unauthorized:
  assumes "authHeader \<noteq> masterKey \<or> authHeader = None \<or> masterKey = None"
    and "webhookOrders authHeader masterKey payload w = (r, w')"
  shows "w'\<lparr>webhook_logs := webhook_logs w, faults := faults w\<rparr> = w \<and>
         (\<not> rejected w \<longrightarrow>
            r = Inr \<lparr>http_status = 401, body = Failure ''Unauthorized''\<rparr> \<and>
            rows (webhook_logs w') = rows (webhook_logs w) @
              [\<lparr>lg_id = next_rowid lg_id (webhook_logs w), lg_event_type = ''order_received'',
                lg_payload = LogText ''unauthorized'', lg_status = ''error'',
                lg_error_message = Some ''Invalid master key''\<rparr>])"
proof -
  have nv: "\<not> validateWebhookRequest authHeader masterKey"
    using assms(1) by (rule validate_mismatch)
  show ?thesis
  proof (cases "rejected w")
    case True
    with nv assms(2) have "w' = advance w"
      by (simp add: webhookOrders_def logWebhook_def insert_into_def stmt_def bind_def)
    with True show ?thesis by (simp add: advance_eq)
  next
    case False
    with nv assms(2) have "r = Inr \<lparr>http_status = 401, body = Failure ''Unauthorized''\<rparr>"
      and "w' = (advance w)\<lparr>webhook_logs := insert_row lg_id
              (\<lambda>i. \<lparr>lg_id = i, lg_event_type = ''order_received'',
                lg_payload = LogText ''unauthorized'', lg_status = ''error'',
                lg_error_message = Some ''Invalid master key''\<rparr>) (webhook_logs (advance w))\<rparr>"
      by (auto simp add: webhookOrders_def logWebhook_def insert_into_def stmt_def bind_def ret_def)
    then show ?thesis using False
      by (simp add: advance_eq insert_row_def)
  qed
qed

theorem webhook_unauthorized_witness:
  "fst (webhookOrders (Some ''guess'') (Some ''master'')
          (Some \<lparr>r_count = 1, r_orders = [order555]\<rparr>) empty_store) =
     Inr \<lparr>http_status = 401, body = Failure ''Unauthorized''\<rparr> \<and>
   snd (webhookOrders (Some ''guess'') (Some ''master'')
          (Some \<lparr>r_count = 1, r_orders = [order555]\<rparr>) empty_store)
     \<lparr>webhook_logs := webhook_logs empty_store, faults := faults empty_store\<rparr> = empty_store \<and>
   rows (webhook_logs (snd (webhookOrders (Some ''guess'') (Some ''master'')
          (Some \<lparr>r_count = 1, r_orders = [order555]\<rparr>) empty_store))) =
     [\<lparr>lg_id = 1, lg_event_type = ''order_received'', lg_payload = LogText ''unauthorized'',
       lg_status = ''error'', lg_error_message = Some ''Invalid master key''\<rparr>]"
proof -
  have ne: "Some ''guess'' \<noteq> Some ''master'' \<or> Some ''guess'' = None \<or>
            Some ''master'' = (None :: string option)"
    by simp
  have nr: "\<not> rejected empty_store"
    by (simp add: rejected_def empty_store_def)
  have e: "rows (webhook_logs empty_store) = []" "seq (webhook_logs empty_store) = 0"
    by (simp_all add: empty_store_def empty_table_def)
  from webhook_unauthorized[OF ne prod.collapse[symmetric],
      of empty_store "Some \<lparr>r_count = 1, r_orders = [order555]\<rparr>"] nr e
  show ?thesis
    by (simp add: next_rowid_def)
qed

subsection \<open>getFullMenu and the cache entry of the menu\<close>

lemma later_refl: "later w w"
  unfolding later_def by (rule exI[of _ 0]) simp

lemma later_advance: "later w0 w \<Longrightarrow> later w0 (advance w)"
  unfolding later_def
proof (elim exE)
  fix n assume "w = w0\<lparr>faults := drop n (faults w0)\<rparr>"
  then have "advance w = w0\<lparr>faults := drop (Suc n) (faults w0)\<rparr>"
    by (simp add: advance_eq drop_Suc tl_drop)
  then show "\<exists>n. advance w = w0\<lparr>faults := drop n (faults w0)\<rparr>" by blast
qed

lemma later_rejected: "later w0 w \<Longrightarrow> rejected w \<Longrightarrow> faults w0 \<noteq> []"
  by (auto simp: later_def rejected_def split: list.splits)

text \<open>A query some statements later reads what it would read from \<open>w0\<close>.\<close>

lemma hoare_read:
  assumes "\<And>F. f (w0\<lparr>faults := F\<rparr>) = c"
  shows "hoare (later w0) (query f) (\<lambda>a w. a = c \<and> later w0 w)
     (\<lambda>_ w. later w0 w \<and> faults w0 \<noteq> [])"
  unfolding query_def
proof (rule hoare_stmt)
  fix w assume "later w0 w" "rejected w"
  then show "later w0 (advance w) \<and> faults w0 \<noteq> []"
    by (simp add: later_advance later_rejected)
next
  fix w a w'
  assume l: "later w0 w" and "Inr (f (advance w), advance w) = Inr (a, w')"
  then have a: "a = f (advance w)" and w': "w' = advance w" by auto
  from later_advance[OF l] obtain n where "advance w = w0\<lparr>faults := drop n (faults w0)\<rparr>"
    by (auto simp: later_def)
  with assms a have "a = c" by simp
  with w' later_advance[OF l] show "a = c \<and> later w0 w'" by simp
qed simp

lemma hoare_read_map:
  assumes "\<And>x. hoare I (f x) (\<lambda>y w. y = g x \<and> I w) E"
  shows "hoare I (map_io f xs) (\<lambda>ys w. ys = map g xs \<and> I w) E"
proof (induction xs)
  case Nil
  show ?case by (simp add: hoare_ret)
next
  case (Cons x xs)
  show ?case
    unfolding map_io.simps
  proof (rule hoare_bind[OF assms[of x]], rule hoare_assume)
    fix y assume y: "y = g x"
    show "hoare I (bind (map_io f xs) (\<lambda>ys. ret (y # ys)))
       (\<lambda>ys w. ys = map g (x # xs) \<and> I w) E"
      by (rule hoare_bind[OF Cons], rule hoare_ret) (simp add: y)
  qed
qed


lemma later_tables:
  assumes "later w0 w"
  shows "menus w = menus w0" "menu_categories w = menu_categories w0"
    "menu_items w = menu_items w0" "menu_item_sizes w = menu_item_sizes w0"
    "menu_option_groups w = menu_option_groups w0"
    "menu_item_option_groups w = menu_item_option_groups w0"
    "menu_options w = menu_options w0" "cache w = cache w0"
  using assms by (auto simp: later_def)

lemma getOptionGroupsForItem_reads:
  "hoare (later w0) (getOptionGroupsForItem i)
     (\<lambda>gs w. gs = storedGroups w0 i \<and> later w0 w) (\<lambda>_ w. later w0 w \<and> faults w0 \<noteq> [])"
  unfolding getOptionGroupsForItem_def storedGroups_def
proof (rule hoare_bind[OF hoare_read], simp, rule hoare_assume)
  fix relations
  assume r: "relations = concat (map (\<lambda>a. filter (\<lambda>g. gr_id g = ar_option_group_id a)
                 (rows (menu_option_groups w0)))
          (filter (\<lambda>a. ar_item_id a = Some i) (rows (menu_item_option_groups w0))))"
  have one: "hoare (later w0)
       (bind (query (\<lambda>w. sort_key pr_sort_order
                (filter (\<lambda>r. pr_option_group_id r = gr_id grp) (rows (menu_options w)))))
          (\<lambda>options. ret \<lparr>gv_group = grp, gv_options = options\<rparr>))
       (\<lambda>y w. y = storedGroup w0 grp \<and> later w0 w) (\<lambda>_ w. later w0 w \<and> faults w0 \<noteq> [])" for grp
    by (rule hoare_bind[OF hoare_read], simp, rule hoare_assume, rule hoare_ret)
       (simp add: storedGroup_def)
  show "hoare (later w0)
     (map_io (\<lambda>grp. bind (query (\<lambda>w. sort_key pr_sort_order
                (filter (\<lambda>r. pr_option_group_id r = gr_id grp) (rows (menu_options w)))))
          (\<lambda>options. ret \<lparr>gv_group = grp, gv_options = options\<rparr>)) relations)
     (\<lambda>gs w. gs = map (storedGroup w0)
         (concat (map (\<lambda>a. filter (\<lambda>g. gr_id g = ar_option_group_id a)
                 (rows (menu_option_groups w0)))
          (filter (\<lambda>a. ar_item_id a = Some i) (rows (menu_item_option_groups w0))))) \<and>
         later w0 w)
     (\<lambda>_ w. later w0 w \<and> faults w0 \<noteq> [])"
    unfolding r by (rule hoare_read_map[OF one])
qed

lemma itemView_reads:
  "hoare (later w0) (itemView item)
     (\<lambda>v w. v = storedItem w0 item \<and> later w0 w) (\<lambda>_ w. later w0 w \<and> faults w0 \<noteq> [])"
  unfolding itemView_def
  apply (rule hoare_bind[OF hoare_read], simp, rule hoare_assume)
  apply (rule hoare_bind[OF getOptionGroupsForItem_reads], rule hoare_assume, rule hoare_ret)
  apply (simp add: storedItem_def)
  done

lemma categoryView_reads:
  "hoare (later w0) (categoryView cat)
     (\<lambda>v w. v = storedCategory w0 cat \<and> later w0 w) (\<lambda>_ w. later w0 w \<and> faults w0 \<noteq> [])"
  unfolding categoryView_def
  apply (rule hoare_bind[OF hoare_read], simp, rule hoare_assume)
  apply (rule hoare_bind[OF hoare_read_map[OF itemView_reads]], rule hoare_assume, rule hoare_ret)
  apply (simp add: storedCategory_def)
  done


lemma buildFullMenu_reads:
  "hoare (later w0) buildFullMenu
     (\<lambda>res w. res = storedMenu w0 \<and> later (with_menu_cached w0 res) w)
     (\<lambda>_ w. later w0 w \<and> faults w0 \<noteq> [])"
  unfolding buildFullMenu_def
proof (rule hoare_bind[OF hoare_read], simp, rule hoare_assume)
  fix menu
  assume menu: "menu = (case rows (menus w0) of [] \<Rightarrow> None | m # _ \<Rightarrow> Some m)"
  show "hoare (later w0)
     (case menu of
        None \<Rightarrow> ret None
      | Some m \<Rightarrow>
          bind (query (\<lambda>w. sort_key cr_sort_order
                  (filter (\<lambda>r. cr_menu_id r = mn_id m) (rows (menu_categories w)))))
            (\<lambda>categories.
          bind (map_io categoryView categories)
            (\<lambda>cvs.
          bind (cache_put ''menu:full''
                  (CachedTree \<lparr>fm_menu = m, fm_categories = cvs\<rparr>))
            (\<lambda>_. ret (Some (CachedTree \<lparr>fm_menu = m, fm_categories = cvs\<rparr>))))))
     (\<lambda>res w. res = storedMenu w0 \<and> later (with_menu_cached w0 res) w)
     (\<lambda>_ w. later w0 w \<and> faults w0 \<noteq> [])"
  proof (cases "rows (menus w0)")
    case Nil
    with menu show ?thesis
      by (simp add: hoare_ret storedMenu_def with_menu_cached_def)
  next
    case (Cons m ms)
    let ?t = "CachedTree \<lparr>fm_menu = m,
            fm_categories = map (storedCategory w0)
              (sort_key cr_sort_order
                 (filter (\<lambda>r. cr_menu_id r = mn_id m) (rows (menu_categories w0))))\<rparr>"
    have st: "storedMenu w0 = Some ?t" by (simp add: storedMenu_def Cons)
    have put: "hoare (later w0) (bind (cache_put ''menu:full'' ?t) (\<lambda>_. ret (Some ?t)))
       (\<lambda>res w. res = storedMenu w0 \<and> later (with_menu_cached w0 res) w)
       (\<lambda>_ w. later w0 w \<and> faults w0 \<noteq> [])"
      unfolding st
      apply (rule hoareI)
       apply (clarsimp simp: bind_def cache_put_def ret_def later_def with_menu_cached_def)
       apply (rule_tac x = n in exI, simp)
      apply (clarsimp simp: bind_def cache_put_def ret_def)
      done
    from menu Cons have m: "menu = Some m" by simp
    show ?thesis
      unfolding m option.case
      apply (rule hoare_bind[OF hoare_read], simp, rule hoare_assume)
      apply (rule hoare_bind[OF hoare_read_map[OF categoryView_reads]], rule hoare_assume)
      apply (simp only:)
      apply (rule put)
      done
  qed
qed

lemma getFullMenu_hit:
  "cache w ''menu:full'' = Some v \<Longrightarrow> truthy_text v \<Longrightarrow>
   getFullMenu w = (case v of CachedText s \<Rightarrow> (Inl ParseError, w) | _ \<Rightarrow> (Inr (Some v), w))"
  unfolding getFullMenu_def bind_cache_get
  by (simp add: json_parse_def bind_def ret_def throw_def split: cached.splits)

lemma getFullMenu_build: "menu_miss w \<Longrightarrow> getFullMenu w = buildFullMenu w"
  unfolding getFullMenu_def bind_cache_get
  by (simp add: menu_miss_def split: option.splits)

lemma later_same: "later w0 w \<Longrightarrow> faults w0 = [] \<Longrightarrow> w = w0"
  by (auto simp: later_def)

lemma getFullMenu_miss:
  assumes "menu_miss w"
  shows "getFullMenu w = (Inr res, w') \<Longrightarrow>
           res = storedMenu w \<and> later (with_menu_cached w res) w'"
    and "faults w = [] \<Longrightarrow>
           getFullMenu w = (Inr (storedMenu w), with_menu_cached w (storedMenu w))"
proof -
  note b = getFullMenu_build[OF assms]
  show "getFullMenu w = (Inr res, w') \<Longrightarrow>
           res = storedMenu w \<and> later (with_menu_cached w res) w'"
    using hoareD_Inr[OF buildFullMenu_reads later_refl, of w res w'] by (auto simp: b)
  assume f: "faults w = []"
  obtain r w1 where run: "buildFullMenu w = (r, w1)" by (cases "buildFullMenu w")
  show "getFullMenu w = (Inr (storedMenu w), with_menu_cached w (storedMenu w))"
  proof (cases r)
    case (Inl e)
    with hoareD_Inl[OF buildFullMenu_reads later_refl, of w e w1] run f show ?thesis by simp
  next
    case (Inr a)
    with hoareD_Inr[OF buildFullMenu_reads later_refl, of w a w1] run
    have a: "a = storedMenu w" and l: "later (with_menu_cached w a) w1" by auto
    from f have "faults (with_menu_cached w a) = []"
      by (simp add: with_menu_cached_def split: option.splits)
    from later_same[OF l this] a run Inr show ?thesis by (simp add: b)
  qed
qed


lemma logEvent_cache: "keeps (\<lambda>w. cache w = K) (logEvent t p s e)"
  unfolding logEvent_def
  by (intro keeps_intros) (simp_all add: advance_eq)

lemma syncMenuBody_caches:
  "hoare (\<lambda>_. True) (syncMenuBody (Inr m))
     (\<lambda>_ w. cache w ''menu:full'' = Some (CachedSnapshot m)) (\<lambda>_ _. True)"
  unfolding syncMenuBody_def sum.case bind_ret
proof (rule hoare_bind[OF hoare_any], rule hoare_bind[OF hoare_any],
       rule hoare_bind[OF hoare_any], rule hoare_bind[OF hoare_any])
  fix stats
  have put: "hoare (\<lambda>_. True) (cache_put ''menu:full'' (CachedSnapshot m))
     (\<lambda>_ w. cache w ''menu:full'' = Some (CachedSnapshot m)) (\<lambda>_ _. True)"
    by (simp add: hoare_def cache_put_def)
  have k: "keeps (\<lambda>w. cache w ''menu:full'' = Some (CachedSnapshot m))
      (logEvent ''menu_sync'' (LogStats stats) ''success'' None)"
    unfolding logEvent_def
    by (intro keeps_intros) (simp_all add: advance_eq)
  have log: "hoare (\<lambda>w. cache w ''menu:full'' = Some (CachedSnapshot m))
     (bind (logEvent ''menu_sync'' (LogStats stats) ''success'' None)
        (\<lambda>_. ret \<lparr>sy_success = True, sy_message = ''Menu sincronizado correctamente'',
                  sy_stats = stats\<rparr>))
     (\<lambda>_ w. cache w ''menu:full'' = Some (CachedSnapshot m)) (\<lambda>_ _. True)"
    by (rule hoare_keeps_bind[OF k]) (simp_all add: hoare_ret)
  show "hoare (\<lambda>_. True)
     (bind (cache_put ''menu:full'' (CachedSnapshot m)) (\<lambda>_.
      bind (logEvent ''menu_sync'' (LogStats stats) ''success'' None) (\<lambda>_.
      ret \<lparr>sy_success = True, sy_message = ''Menu sincronizado correctamente'',
           sy_stats = stats\<rparr>)))
     (\<lambda>_ w. cache w ''menu:full'' = Some (CachedSnapshot m)) (\<lambda>_ _. True)"
    by (rule hoare_bind[OF put log])
qed

text \<open>
  Claim C10. A successful sync leaves under the key menu:full exactly the snapshot as
  fetched, and getFullMenu then returns that snapshot and reads no table. A getFullMenu call
  that finds a non-empty entry under the key returns the parsed entry without a statement
  (and throws, store unchanged, when the entry is not JSON). Only on a miss (no entry, or
  the empty text) does it read the tables: what it returns is then the tree of the stored
  rows (null without a menu row; otherwise the first menu row with its categories, their
  items, the items' sizes and option groups and the groups' options, each in sort order),
  which it also stores under the key; and it does return whenever the store rejects no
  statement.
\<close>

theorem getFullMenu_cache:
  "(\<forall>r w'. syncMenu (Inr m) w = (Inr r, w') \<longrightarrow>
      cache w' ''menu:full'' = Some (CachedSnapshot m) \<and>
      getFullMenu w' = (Inr (Some (CachedSnapshot m)), w')) \<and>
   (\<forall>v. cache w ''menu:full'' = Some v \<and> truthy_text v \<longrightarrow>
      getFullMenu w = (case v of CachedText s \<Rightarrow> (Inl ParseError, w)
                       | _ \<Rightarrow> (Inr (Some v), w))) \<and>
   (\<forall>res w'. menu_miss w \<and> getFullMenu w = (Inr res, w') \<longrightarrow>
      res = storedMenu w \<and> later (with_menu_cached w res) w') \<and>
   (menu_miss w \<and> faults w = [] \<longrightarrow>
      getFullMenu w = (Inr (storedMenu w), with_menu_cached w (storedMenu w)))"
proof (intro conjI allI impI)
  fix r w'
  assume "syncMenu (Inr m) w = (Inr r, w')"
  then have "syncMenuBody (Inr m) w = (Inr r, w')" by (rule syncMenu_Inr)
  from hoareD_Inr[OF syncMenuBody_caches _ this]
  show c: "cache w' ''menu:full'' = Some (CachedSnapshot m)" by simp
  then show "getFullMenu w' = (Inr (Some (CachedSnapshot m)), w')"
    by (simp add: getFullMenu_hit truthy_text_def)
next
  fix v
  assume "cache w ''menu:full'' = Some v \<and> truthy_text v"
  then show "getFullMenu w = (case v of CachedText s \<Rightarrow> (Inl ParseError, w)
                       | _ \<Rightarrow> (Inr (Some v), w))"
    by (simp add: getFullMenu_hit)
next
  fix res w'
  assume a: "menu_miss w \<and> getFullMenu w = (Inr res, w')"
  then show "res = storedMenu w" by (simp add: getFullMenu_miss(1))
  from a show "later (with_menu_cached w res) w'" by (simp add: getFullMenu_miss(1))
next
  assume "menu_miss w \<and> faults w = []"
  then show "getFullMenu w = (Inr (storedMenu w), with_menu_cached w (storedMenu w))"
    by (simp add: getFullMenu_miss(2))
qed

theorem getFullMenu_cache_witness:
  "fst (syncMenu (Inr demo_menu) d1_store) =
     Inr \<lparr>sy_success = True, sy_message = ''Menu sincronizado correctamente'',
          sy_stats = \<lparr>st_categories = 2, st_items = 3, st_sizes = 2, st_optionGroups = 1,
                      st_options = 2\<rparr>\<rparr> \<and>
   getFullMenu d1_synced = (Inr (Some (CachedSnapshot demo_menu)), d1_synced) \<and>
   getFullMenu (d1_synced\<lparr>cache := (cache d1_synced)(''menu:full'' \<mapsto> CachedText ''<html>'')\<rparr>) =
     (Inl ParseError,
      d1_synced\<lparr>cache := (cache d1_synced)(''menu:full'' \<mapsto> CachedText ''<html>'')\<rparr>) \<and>
   menu_miss d1_expired \<and> faults d1_expired = [] \<and>
   getFullMenu d1_expired =
     (Inr (storedMenu d1_expired), with_menu_cached d1_expired (storedMenu d1_expired)) \<and>
   (case storedMenu d1_expired of
      Some (CachedTree t) \<Rightarrow>
        mn_gloriafood_id (fm_menu t) = 1 \<and>
        map (\<lambda>c. (cr_gloriafood_id (cv_category c),
               map (\<lambda>i. (ir_gloriafood_id (iv_item i),
                      map sr_gloriafood_id (iv_sizes i),
                      map (\<lambda>g. (gr_gloriafood_id (gv_group g),
                             map pr_gloriafood_id (gv_options g))) (iv_groups i)))
                 (cv_items c)))
          (fm_categories t) =
        [(10, [(100, [1000, 1001], [(9, [91, 92])]), (101, [], [(9, [91, 92])])]),
         (11, [(110, [], [])])]
    | _ \<Rightarrow> False)"
proof -
  have a: "fst (syncMenu (Inr demo_menu) d1_store) =
     Inr \<lparr>sy_success = True, sy_message = ''Menu sincronizado correctamente'',
          sy_stats = \<lparr>st_categories = 2, st_items = 3, st_sizes = 2, st_optionGroups = 1,
                      st_options = 2\<rparr>\<rparr>"
    by code_simp
  then have run: "syncMenu (Inr demo_menu) d1_store =
     (Inr \<lparr>sy_success = True, sy_message = ''Menu sincronizado correctamente'',
          sy_stats = \<lparr>st_categories = 2, st_items = 3, st_sizes = 2, st_optionGroups = 1,
                      st_options = 2\<rparr>\<rparr>, d1_synced)"
    by (simp add: d1_synced_def prod_eq_iff)
  from getFullMenu_cache[of demo_menu d1_store] run
  have b: "getFullMenu d1_synced = (Inr (Some (CachedSnapshot demo_menu)), d1_synced)"
    by blast
  define wt where "wt = d1_synced\<lparr>cache := (cache d1_synced)(''menu:full'' \<mapsto> CachedText ''<html>'')\<rparr>"
  have "cache wt ''menu:full'' = Some (CachedText ''<html>'') \<and> truthy_text (CachedText ''<html>'')"
    by (simp add: wt_def truthy_text_def)
  with getFullMenu_cache[of demo_menu wt]
  have c: "getFullMenu wt = (Inl ParseError, wt)" by auto
  have miss: "menu_miss d1_expired" by (simp add: menu_miss_def d1_expired_def)
  have f: "faults d1_expired = []" by code_simp
  from getFullMenu_cache[of demo_menu d1_expired] miss f
  have d: "getFullMenu d1_expired =
     (Inr (storedMenu d1_expired), with_menu_cached d1_expired (storedMenu d1_expired))"
    by blast
  have e: "(case storedMenu d1_expired of
      Some (CachedTree t) \<Rightarrow>
        mn_gloriafood_id (fm_menu t) = 1 \<and>
        map (\<lambda>c. (cr_gloriafood_id (cv_category c),
               map (\<lambda>i. (ir_gloriafood_id (iv_item i),
                      map sr_gloriafood_id (iv_sizes i),
                      map (\<lambda>g. (gr_gloriafood_id (gv_group g),
                             map pr_gloriafood_id (gv_options g))) (iv_groups i)))
                 (cv_items c)))
          (fm_categories t) =
        [(10, [(100, [1000, 1001], [(9, [91, 92])]), (101, [], [(9, [91, 92])])]),
         (11, [(110, [], [])])]
    | _ \<Rightarrow> False)"
    by code_simp
  from a b c[unfolded wt_def] miss f d e show ?thesis by simp
qed


subsection \<open>syncMenu: sort order of items, sizes and options\<close>

lemma processItem_itemOrder:
  "hoare (\<lambda>w. itemOrder w = S) (processItem categoryId item st k)
     (\<lambda>_ w. itemOrder w = S @ [(mi_id item, k)]) (\<lambda>_ _. True)"
  unfolding processItem_def itemOrder_def
  apply (rule hoare_then_keeps)
   apply (rule hoare_insert_into_shape[where sh = "\<lambda>r. (ir_gloriafood_id r, ir_sort_order r)"])
     apply (simp_all add: advance_eq)
  apply (intro keeps_intros processSize_other processGroups_other; simp add: advance_eq)
  done

lemma processCategory_itemOrder:
  "hoare (\<lambda>w. itemOrder w = S) (processCategory menuId c st k)
     (\<lambda>_ w. itemOrder w = S @ numbered mi_id (mc_items c)) (\<lambda>_ _. True)"
  unfolding processCategory_def
proof (rule hoare_after_keeps)
  fix categoryId
  have loop: "hoare (\<lambda>w. itemOrder w = S)
     (fold_io (\<lambda>ki st. processItem categoryId (snd ki) st (fst ki)) (enumerate 0 (mc_items c))
        (st\<lparr>st_categories := st_categories st + 1\<rparr>))
     (\<lambda>_ w. itemOrder w = S @ numbered mi_id (mc_items c)) (\<lambda>_ _. True)"
    using hoare_fold_io_view[where v = itemOrder
        and f = "\<lambda>ki st. processItem categoryId (snd ki) st (fst ki)"
        and g = "\<lambda>ki. [(mi_id (snd ki), fst ki)]" and S = S
        and xs = "enumerate 0 (mc_items c)", OF processItem_itemOrder]
    by (simp add: numbered_def)
  show "hoare (\<lambda>w. itemOrder w = S)
     (bind (fold_io (\<lambda>ki st. processItem categoryId (snd ki) st (fst ki))
              (enumerate 0 (mc_items c)) (st\<lparr>st_categories := st_categories st + 1\<rparr>))
        (\<lambda>st. processGroups (mc_groups c) None None st))
     (\<lambda>_ w. itemOrder w = S @ numbered mi_id (mc_items c)) (\<lambda>_ _. True)"
    by (rule hoare_then_keeps[OF loop])
       (rule processGroups_other; simp add: itemOrder_def advance_eq)
qed (intro keeps_intros; simp add: itemOrder_def advance_eq)

lemma processCategories_itemOrder:
  "hoare (\<lambda>w. itemOrder w = S) (processCategories menuId cs)
     (\<lambda>_ w. itemOrder w = S @ concat (map (\<lambda>c. numbered mi_id (mc_items c)) cs))
     (\<lambda>_ _. True)"
  unfolding processCategories_def
  by (rule hoare_fold_io_view[where v = itemOrder, OF processCategory_itemOrder])

lemma processSize_sizeOrder:
  "hoare (\<lambda>w. sizeOrder w = S) (processSize itemId sz st k)
     (\<lambda>_ w. sizeOrder w = S @ [(ms_id sz, k)]) (\<lambda>_ _. True)"
  unfolding processSize_def sizeOrder_def
  apply (rule hoare_then_keeps)
   apply (rule hoare_insert_into_shape[where sh = "\<lambda>r. (sr_gloriafood_id r, sr_sort_order r)"])
     apply (simp_all add: advance_eq)
  apply (rule processGroups_other; simp add: advance_eq)
  done

lemma processItem_sizeOrder:
  "hoare (\<lambda>w. sizeOrder w = S) (processItem categoryId item st k)
     (\<lambda>_ w. sizeOrder w = S @ numbered ms_id (listed (mi_sizes item))) (\<lambda>_ _. True)"
  unfolding processItem_def
proof (rule hoare_after_keeps)
  fix itemId
  have loop: "hoare (\<lambda>w. sizeOrder w = S)
     (case mi_sizes item of
        None \<Rightarrow> ret (st\<lparr>st_items := st_items st + 1\<rparr>)
      | Some sizes \<Rightarrow>
          fold_io (\<lambda>ks st. processSize itemId (snd ks) st (fst ks)) (enumerate 0 sizes)
            (st\<lparr>st_items := st_items st + 1\<rparr>))
     (\<lambda>_ w. sizeOrder w = S @ numbered ms_id (listed (mi_sizes item))) (\<lambda>_ _. True)"
  proof (cases "mi_sizes item")
    case None
    then show ?thesis by (simp add: hoare_ret listed_def numbered_def)
  next
    case (Some sizes)
    with hoare_fold_io_view[where v = sizeOrder
        and f = "\<lambda>ks st. processSize itemId (snd ks) st (fst ks)"
        and g = "\<lambda>ks. [(ms_id (snd ks), fst ks)]" and S = S
        and xs = "enumerate 0 sizes", OF processSize_sizeOrder]
    show ?thesis by (simp add: numbered_def listed_def)
  qed
  show "hoare (\<lambda>w. sizeOrder w = S)
     (bind (case mi_sizes item of
              None \<Rightarrow> ret (st\<lparr>st_items := st_items st + 1\<rparr>)
            | Some sizes \<Rightarrow>
                fold_io (\<lambda>ks st. processSize itemId (snd ks) st (fst ks)) (enumerate 0 sizes)
                  (st\<lparr>st_items := st_items st + 1\<rparr>))
        (\<lambda>st. processGroups (mi_groups item) (Some itemId) None st))
     (\<lambda>_ w. sizeOrder w = S @ numbered ms_id (listed (mi_sizes item))) (\<lambda>_ _. True)"
    by (rule hoare_then_keeps[OF loop])
       (rule processGroups_other; simp add: sizeOrder_def advance_eq)
qed (intro keeps_intros; simp add: sizeOrder_def advance_eq)

lemma processCategory_sizeOrder:
  "hoare (\<lambda>w. sizeOrder w = S) (processCategory menuId c st k)
     (\<lambda>_ w. sizeOrder w =
        S @ concat (map (\<lambda>i. numbered ms_id (listed (mi_sizes i))) (mc_items c)))
     (\<lambda>_ _. True)"
  unfolding processCategory_def
proof (rule hoare_after_keeps)
  fix categoryId
  have loop: "hoare (\<lambda>w. sizeOrder w = S)
     (fold_io (\<lambda>ki st. processItem categoryId (snd ki) st (fst ki)) (enumerate 0 (mc_items c))
        (st\<lparr>st_categories := st_categories st + 1\<rparr>))
     (\<lambda>_ w. sizeOrder w =
        S @ concat (map (\<lambda>i. numbered ms_id (listed (mi_sizes i))) (mc_items c)))
     (\<lambda>_ _. True)"
    using hoare_fold_io_view[where v = sizeOrder
        and f = "\<lambda>ki st. processItem categoryId (snd ki) st (fst ki)"
        and g = "\<lambda>ki. numbered ms_id (listed (mi_sizes (snd ki)))" and S = S
        and xs = "enumerate 0 (mc_items c)", OF processItem_sizeOrder]
    by (simp add: concat_map_enumerate[where g = "\<lambda>i. numbered ms_id (listed (mi_sizes i))"])
  show "hoare (\<lambda>w. sizeOrder w = S)
     (bind (fold_io (\<lambda>ki st. processItem categoryId (snd ki) st (fst ki))
              (enumerate 0 (mc_items c)) (st\<lparr>st_categories := st_categories st + 1\<rparr>))
        (\<lambda>st. processGroups (mc_groups c) None None st))
     (\<lambda>_ w. sizeOrder w =
        S @ concat (map (\<lambda>i. numbered ms_id (listed (mi_sizes i))) (mc_items c)))
     (\<lambda>_ _. True)"
    by (rule hoare_then_keeps[OF loop])
       (rule processGroups_other; simp add: sizeOrder_def advance_eq)
qed (intro keeps_intros; simp add: sizeOrder_def advance_eq)

lemma processCategories_sizeOrder:
  "hoare (\<lambda>w. sizeOrder w = S) (processCategories menuId cs)
     (\<lambda>_ w. sizeOrder w =
        S @ concat (map (\<lambda>c. concat (map (\<lambda>i. numbered ms_id (listed (mi_sizes i)))
                                    (mc_items c))) cs))
     (\<lambda>_ _. True)"
  unfolding processCategories_def
  by (rule hoare_fold_io_view[where v = sizeOrder, OF processCategory_sizeOrder])

lemma insertMenuOption_view:
  "hoare (\<lambda>w. groupKeys w = K \<and> optionOrder w = S) (insertMenuOption gid ko st)
     (\<lambda>_ w. groupKeys w = K \<and> optionOrder w = S @ [(mo_id (snd ko), fst ko)]) (\<lambda>_ _. True)"
  unfolding insertMenuOption_def insert_into_def
  apply (rule hoare_bind[where R = "\<lambda>_ w. groupKeys w = K \<and> optionOrder w = S @ [(mo_id (snd ko), fst ko)]"])
   apply (rule hoare_stmt)
     apply (auto simp: groupKeys_def optionOrder_def insert_row_def advance_eq intro: hoare_ret)
  done

lemma insertMenuOptions_view:
  "hoare (\<lambda>w. groupKeys w = K \<and> optionOrder w = S)
     (fold_io (insertMenuOption gid) (enumerate 0 opts) st)
     (\<lambda>_ w. groupKeys w = K \<and> optionOrder w = S @ numbered mo_id opts) (\<lambda>_ _. True)"
proof -
  have main: "hoare (\<lambda>w. (groupKeys w, optionOrder w) = (K, S))
     (fold_io (insertMenuOption gid) (enumerate 0 opts) st)
     (\<lambda>_ w. (groupKeys w, optionOrder w) =
        fold (\<lambda>ko s. (fst s, snd s @ [(mo_id (snd ko), fst ko)])) (enumerate 0 opts) (K, S))
     (\<lambda>_ _. True)"
    by (rule hoare_fold_io_steps[where v = "\<lambda>w. (groupKeys w, optionOrder w)"
          and step = "\<lambda>ko s. (fst s, snd s @ [(mo_id (snd ko), fst ko)])"])
       (simp add: split_paired_all insertMenuOption_view)
  have fold_eq: "fold (\<lambda>ko s. (fst s, snd s @ [(mo_id (snd ko), fst ko)])) xs (K, S') =
      (K, S' @ map (\<lambda>kx. (mo_id (snd kx), fst kx)) xs)" for xs S'
    by (induction xs arbitrary: S') simp_all
  from main show ?thesis unfolding fold_eq by (simp add: numbered_def)
qed

lemma processOptionGroup_view:
  "hoare (\<lambda>w. groupKeys w = K \<and> optionOrder w = S) (processOptionGroup g st itemId sizeId)
     (\<lambda>_ w. (groupKeys w, optionOrder w) = group_step g (K, S)) (\<lambda>_ _. True)"
proof (rule hoare_processOptionGroup[where
      R = "\<lambda>existing w. (existing = None) = (mg_id g \<notin> set K) \<and> groupKeys w = K \<and> optionOrder w = S"
      and U = "\<lambda>gid w. mg_id g \<in> set K \<and> groupKeys w = K \<and> optionOrder w = S"
      and N = "\<lambda>gid w. mg_id g \<notin> set K \<and> groupKeys w = K @ [mg_id g] \<and> optionOrder w = S"
      and N' = "\<lambda>gid w. mg_id g \<notin> set K \<and> groupKeys w = K @ [mg_id g] \<and> optionOrder w = S"])
  show "hoare (\<lambda>w. groupKeys w = K \<and> optionOrder w = S) (findOptionGroup g)
     (\<lambda>existing w. (existing = None) = (mg_id g \<notin> set K) \<and> groupKeys w = K \<and> optionOrder w = S)
     (\<lambda>_ _. True)"
    unfolding findOptionGroup_def query_def
    by (rule hoare_stmt) (auto simp: find_group_None groupKeys_def optionOrder_def advance_eq)
next
  fix gid
  show "hoare (\<lambda>w. (Some gid = None) = (mg_id g \<notin> set K) \<and> groupKeys w = K \<and> optionOrder w = S)
     (updateOptionGroup gid g)
     (\<lambda>_ w. mg_id g \<in> set K \<and> groupKeys w = K \<and> optionOrder w = S) (\<lambda>_ _. True)"
    unfolding updateOptionGroup_def exec_def
    by (rule hoare_stmt)
       (auto simp: groupKeys_def optionOrder_def advance_eq map_id_update_where)
next
  fix gid
  show "hoare (\<lambda>w. mg_id g \<in> set K \<and> groupKeys w = K \<and> optionOrder w = S)
     (linkOptionGroup itemId sizeId gid)
     (\<lambda>_ w. (groupKeys w, optionOrder w) = group_step g (K, S)) (\<lambda>_ _. True)"
    by (rule hoare_weaken[OF linkOptionGroup_other[where
            I = "\<lambda>w. mg_id g \<in> set K \<and> groupKeys w = K \<and> optionOrder w = S"]])
       (simp_all add: groupKeys_def optionOrder_def advance_eq group_step_def)
next
  show "hoare (\<lambda>w. (None = None) = (mg_id g \<notin> set K) \<and> groupKeys w = K \<and> optionOrder w = S)
     (insertOptionGroup g)
     (\<lambda>gid w. mg_id g \<notin> set K \<and> groupKeys w = K @ [mg_id g] \<and> optionOrder w = S)
     (\<lambda>_ _. True)"
    unfolding insertOptionGroup_def insert_into_def
    by (rule hoare_stmt)
       (auto simp: groupKeys_def optionOrder_def insert_row_def advance_eq)
next
  fix gid
  show "hoare (\<lambda>w. mg_id g \<notin> set K \<and> groupKeys w = K @ [mg_id g] \<and> optionOrder w = S)
     (linkOptionGroup itemId sizeId gid)
     (\<lambda>_ w. mg_id g \<notin> set K \<and> groupKeys w = K @ [mg_id g] \<and> optionOrder w = S)
     (\<lambda>_ _. True)"
    by (rule linkOptionGroup_other) (simp_all add: groupKeys_def optionOrder_def advance_eq)
next
  fix gid st'
  show "hoare (\<lambda>w. mg_id g \<notin> set K \<and> groupKeys w = K @ [mg_id g] \<and> optionOrder w = S)
     (fold_io (insertMenuOption gid) (enumerate 0 (mg_options g)) st')
     (\<lambda>_ w. (groupKeys w, optionOrder w) = group_step g (K, S)) (\<lambda>_ _. True)"
    by (rule hoare_assume, rule hoare_weaken[OF insertMenuOptions_view])
       (simp_all add: group_step_def)
qed

lemma created_groups_cong:
  "set K = set K' \<Longrightarrow> created_groups K gs = created_groups K' gs"
proof (induction gs arbitrary: K K')
  case Nil
  show ?case by simp
next
  case (Cons g gs)
  from Cons.prems have "set (mg_id g # K) = set (mg_id g # K')" by simp
  from Cons.IH[OF this] Cons.IH[OF Cons.prems] Cons.prems show ?case by simp
qed

lemma fold_group_step:
  "fold group_step gs (K, S) =
     (K @ map mg_id (created_groups K gs),
      S @ concat (map (\<lambda>g. numbered mo_id (mg_options g)) (created_groups K gs)))"
proof (induction gs arbitrary: K S)
  case Nil
  show ?case by simp
next
  case (Cons g gs)
  show ?case
  proof (cases "mg_id g \<in> set K")
    case True
    with Cons show ?thesis by (simp add: group_step_def)
  next
    case False
    have "created_groups (K @ [mg_id g]) gs = created_groups (mg_id g # K) gs"
      by (rule created_groups_cong) simp
    with False Cons[of "K @ [mg_id g]"] show ?thesis by (simp add: group_step_def)
  qed
qed

lemma processOptionGroup_steps:
  "hoare (\<lambda>w. (groupKeys w, optionOrder w) = fold group_step (map fst G) s0)
     (processOptionGroup g st itemId sizeId)
     (\<lambda>_ w. (groupKeys w, optionOrder w) = fold group_step (map fst (G @ [(g, l)])) s0)
     (\<lambda>_ _. True)"
  using processOptionGroup_view[of "fst (fold group_step (map fst G) s0)"
      "snd (fold group_step (map fst G) s0)" g st itemId sizeId]
  by (simp add: prod_eq_iff)

lemma processCategories_options:
  "hoare (\<lambda>w. groupKeys w = K \<and> optionOrder w = S) (processCategories menuId cs)
     (\<lambda>_ w. groupKeys w = K @ map mg_id (created_groups K (map fst (concat (map categoryRefs cs)))) \<and>
        optionOrder w = S @ concat (map (\<lambda>g. numbered mo_id (mg_options g))
                             (created_groups K (map fst (concat (map categoryRefs cs))))))
     (\<lambda>_ _. True)"
  using processCategories_refs[where G = "[]" and menuId = menuId and cs = cs
      and Inv = "\<lambda>G w. (groupKeys w, optionOrder w) = fold group_step (map fst G) (K, S)",
      OF _ _ _ _ processOptionGroup_steps]
  by (simp add: groupKeys_def optionOrder_def advance_eq fold_group_step)

text \<open>
  Claim C6, as far as the code goes. After a sync that returns, with \<open>w2\<close> the store after
  the clear: the item rows added carry, category by category, the external ids of the
  snapshot's items with sort_order 0, 1, 2, .. in snapshot order; the size rows added
  carry, item by item, the external ids of the item's sizes with sort_order 0, 1, 2, ..;
  and the option rows added are those of the option groups the sync created, each group's
  options with sort_order 0, 1, 2, .. in snapshot order. The options of a group that was
  stored before are not rewritten. (Nothing is stated about the sort_order of categories.)
\<close>

theorem syncMenu_sort_order:
  assumes "getOrCreateMenu m w = (Inr menuId, w1)"
    and "clearMenuData menuId w1 = (Inr u, w2)"
    and "syncMenu (Inr m) w = (Inr r, w')"
  shows "itemOrder w' =
      itemOrder w2 @ concat (map (\<lambda>c. numbered mi_id (mc_items c)) (m_categories m)) \<and>
    sizeOrder w' =
      sizeOrder w2 @
      concat (map (\<lambda>c. concat (map (\<lambda>i. numbered ms_id (listed (mi_sizes i))) (mc_items c)))
                (m_categories m)) \<and>
    optionOrder w' =
      optionOrder w @
      concat (map (\<lambda>g. numbered mo_id (mg_options g)) (created_groups (groupKeys w) (menuGroups m)))"
proof -
  obtain menuId' w1' w2' st w3 where stages:
    "getOrCreateMenu m w = (Inr menuId', w1')"
    "clearMenuData menuId' w1' = (Inr (), w2')"
    "processCategories menuId' (m_categories m) w2' = (Inr st, w3)"
    and w': "w' = (advance (advance w3))\<lparr>cache := (cache w')\<rparr>\<lparr>webhook_logs := webhook_logs w'\<rparr>"
    by (rule syncMenuBody_stages[OF syncMenu_Inr[OF assms(3)]])
  with assms(1,2) have run: "processCategories menuId (m_categories m) w2 = (Inr st, w3)"
    by simp
  have "menu_items w' = menu_items w3" "menu_item_sizes w' = menu_item_sizes w3"
    "menu_options w' = menu_options w3"
    using arg_cong[OF w', of menu_items] arg_cong[OF w', of menu_item_sizes]
      arg_cong[OF w', of menu_options]
    by (simp_all add: advance_eq)
  then have same: "itemOrder w' = itemOrder w3" "sizeOrder w' = sizeOrder w3"
    "optionOrder w' = optionOrder w3"
    by (simp_all add: itemOrder_def sizeOrder_def optionOrder_def)
  have "keeps (\<lambda>v. groupKeys v = groupKeys w \<and> optionOrder v = optionOrder w) (getOrCreateMenu m)"
    by (rule getOrCreateMenu_other) (simp_all add: groupKeys_def optionOrder_def advance_eq)
  from keepsD[OF this _ assms(1)]
  have w1: "groupKeys w1 = groupKeys w \<and> optionOrder w1 = optionOrder w" by simp
  have k: "keeps (\<lambda>v. groupKeys v = groupKeys w \<and> optionOrder v = optionOrder w)
      (clearMenuData menuId)"
    by (rule clearMenuData_other) (simp_all add: groupKeys_def optionOrder_def advance_eq)
  have w2: "groupKeys w2 = groupKeys w \<and> optionOrder w2 = optionOrder w"
    by (rule keepsD[OF k w1 assms(2)])
  from hoareD_Inr[OF processCategories_itemOrder refl run]
    hoareD_Inr[OF processCategories_sizeOrder refl run]
    hoareD_Inr[OF processCategories_options w2 run] same
  show ?thesis by (simp add: menuGroups_def menuRefs_def)
qed

text \<open>The theorem on the first sync of the example snapshot.\<close>

theorem syncMenu_sort_order_witness:
  "itemOrder demo_store = [(100, 0), (101, 1), (110, 0)] \<and>
   sizeOrder demo_store = [(1000, 0), (1001, 1)] \<and>
   optionOrder demo_store = [(91, 0), (92, 1)]"
proof -
  define w1 where "w1 = snd (getOrCreateMenu demo_menu empty_store)"
  define w2 where "w2 = snd (clearMenuData 1 w1)"
  have "fst (getOrCreateMenu demo_menu empty_store) = Inr 1" by code_simp
  then have a: "getOrCreateMenu demo_menu empty_store = (Inr 1, w1)"
    by (simp add: w1_def prod_eq_iff)
  have "fst (clearMenuData 1 (snd (getOrCreateMenu demo_menu empty_store))) = Inr ()"
    by code_simp
  then have b: "clearMenuData 1 w1 = (Inr (), w2)"
    by (simp add: w1_def w2_def prod_eq_iff)
  have "fst (syncMenu (Inr demo_menu) empty_store) =
      Inr \<lparr>sy_success = True, sy_message = ''Menu sincronizado correctamente'',
           sy_stats = \<lparr>st_categories = 2, st_items = 3, st_sizes = 2, st_optionGroups = 1,
                        st_options = 2\<rparr>\<rparr>"
    by code_simp
  then have c: "syncMenu (Inr demo_menu) empty_store =
      (Inr \<lparr>sy_success = True, sy_message = ''Menu sincronizado correctamente'',
           sy_stats = \<lparr>st_categories = 2, st_items = 3, st_sizes = 2, st_optionGroups = 1,
                        st_options = 2\<rparr>\<rparr>, demo_store)"
    by (simp add: demo_store_def prod_eq_iff)
  have d: "itemOrder (snd (clearMenuData 1 (snd (getOrCreateMenu demo_menu empty_store)))) = []"
    "sizeOrder (snd (clearMenuData 1 (snd (getOrCreateMenu demo_menu empty_store)))) = []"
    "optionOrder empty_store = []" "groupKeys empty_store = []"
    by code_simp+
  have e: "concat (map (\<lambda>c. numbered mi_id (mc_items c)) (m_categories demo_menu)) =
      [(100, 0), (101, 1), (110, 0)]"
    "concat (map (\<lambda>c. concat (map (\<lambda>i. numbered ms_id (listed (mi_sizes i))) (mc_items c)))
                (m_categories demo_menu)) = [(1000, 0), (1001, 1)]"
    "concat (map (\<lambda>g. numbered mo_id (mg_options g)) (created_groups [] (menuGroups demo_menu))) =
      [(91, 0), (92, 1)]"
    by code_simp+
  from syncMenu_sort_order[OF a b c] d e show ?thesis
    by (simp add: w1_def w2_def)
qed

text \<open>
  After the first sync of the example snapshot both categories carry sort_order 0. After a
  sync of the later snapshot, which lists the options of group 9 as 92, 91, the stored
  options still carry the earlier order 91, 92.
\<close>

theorem syncMenu_sort_order_counterexample:
  "map mc_id (m_categories demo_menu) = [10, 11] \<and>
   fst (syncMenu (Inr demo_menu) empty_store) =
      Inr \<lparr>sy_success = True, sy_message = ''Menu sincronizado correctamente'',
           sy_stats = \<lparr>st_categories = 2, st_items = 3, st_sizes = 2, st_optionGroups = 1,
                        st_options = 2\<rparr>\<rparr> \<and>
   categoryOrder demo_store = [(10, 0), (11, 0)] \<and>
   concat (map (\<lambda>g. numbered mo_id (mg_options g)) (menuGroups reordered_menu)) = [(92, 0), (91, 1)] \<and>
   fst (syncMenu (Inr reordered_menu) demo_store) =
      Inr \<lparr>sy_success = True, sy_message = ''Menu sincronizado correctamente'',
           sy_stats = \<lparr>st_categories = 1, st_items = 1, st_sizes = 0, st_optionGroups = 0,
                        st_options = 0\<rparr>\<rparr> \<and>
   optionOrder (snd (syncMenu (Inr reordered_menu) demo_store)) = [(91, 0), (92, 1)]"
proof -
  have "map mc_id (m_categories demo_menu) = [10, 11]" by code_simp
  moreover have "fst (syncMenu (Inr demo_menu) empty_store) =
      Inr \<lparr>sy_success = True, sy_message = ''Menu sincronizado correctamente'',
           sy_stats = \<lparr>st_categories = 2, st_items = 3, st_sizes = 2, st_optionGroups = 1,
                        st_options = 2\<rparr>\<rparr>"
    by code_simp
  moreover have "categoryOrder demo_store = [(10, 0), (11, 0)]" by code_simp
  moreover have "concat (map (\<lambda>g. numbered mo_id (mg_options g)) (menuGroups reordered_menu)) =
      [(92, 0), (91, 1)]"
    by code_simp
  moreover have "fst (syncMenu (Inr reordered_menu) demo_store) =
      Inr \<lparr>sy_success = True, sy_message = ''Menu sincronizado correctamente'',
           sy_stats = \<lparr>st_categories = 1, st_items = 1, st_sizes = 0, st_optionGroups = 0,
                        st_options = 0\<rparr>\<rparr>"
    by code_simp
  moreover have "optionOrder (snd (syncMenu (Inr reordered_menu) demo_store)) = [(91, 0), (92, 1)]"
    by code_simp
  ultimately show ?thesis by simp
qed

end
